theory Spec2Isabelle
  imports Complex_Main "HOL-Library.Sublist"
begin

chapter \<open>Adorable: the chat streaming back end\<close>

text \<open>
  A shallow embedding of the TypeScript modules \<^verbatim>\<open>error-handler\<close>, \<^verbatim>\<open>monitoring\<close>,
  \<^verbatim>\<open>resilience\<close>, \<^verbatim>\<open>stream-manager\<close> and \<^verbatim>\<open>chat-service\<close>.  Exceptions are values
  of type \<open>thrown\<close>, a function that may throw returns \<open>thrown + 'a\<close> (\<open>Inl\<close> the
  exception), module-level mutable state is passed explicitly, and \<^verbatim>\<open>Date.now()\<close> reads the
  field \<open>clock\<close> of the state.
\<close>

section \<open>Thrown values and strings\<close>

text \<open>
  JavaScript can throw any value.  The code only ever asks whether a caught value is an
  \<^verbatim>\<open>Error\<close> and, if so, reads its message.
\<close>

datatype thrown = Error string | NonError

text \<open>\<^verbatim>\<open>String.prototype.includes\<close>: does the pattern occur as a contiguous part?\<close>

fun includesStr :: "string \<Rightarrow> string \<Rightarrow> bool" where
  "includesStr [] p = (p = [])"
| "includesStr (c # cs) p = (prefix p (c # cs) \<or> includesStr cs p)"

text \<open>\<^verbatim>\<open>Array.prototype.some\<close>.\<close>

fun some :: "('a \<Rightarrow> bool) \<Rightarrow> 'a list \<Rightarrow> bool" where
  "some f [] = False"
| "some f (x # xs) = (f x \<or> some f xs)"

text \<open>\<^verbatim>\<open>String(error)\<close> for a caught value.\<close>

fun String :: "thrown \<Rightarrow> string" where
  "String (Error m) = ''Error: '' @ m"
| "String NonError = ''undefined''"

section \<open>error-handler.ts\<close>

record ErrorResponse =
  message :: string
  retryable :: bool

text \<open>
  The body of a response is kept as the object handed to \<^verbatim>\<open>JSON.stringify\<close>: the
  server-sent event \<^verbatim>\<open>data: {"type":"error","data":{...}}\<close>, the plain JSON object
  \<^verbatim>\<open>{"error": ..., "retryable": ...}\<close>, the server-sent assistant message, or an
  event stream.
\<close>

datatype body =
    StreamErrorBody ErrorResponse
  | JsonErrorBody string bool
  | StreamMessageBody string
  | ResumableStreamBody string

record Response =
  status :: nat
  headers :: "(string \<times> string) list"
  body :: body

definition sseHeaders :: "(string \<times> string) list" where
  "sseHeaders =
     [(''content-type'', ''text/event-stream''),
      (''cache-control'', ''no-cache''),
      (''connection'', ''keep-alive''),
      (''x-vercel-ai-ui-message-stream'', ''v1''),
      (''x-accel-buffering'', ''no'')]"

definition ErrorHandler_retryableErrors :: "string list" where
  "ErrorHandler_retryableErrors =
     [''ECONNRESET'', ''ETIMEDOUT'', ''ENOTFOUND'', ''ECONNREFUSED'', ''NETWORK_ERROR'', ''TIMEOUT'']"

fun ErrorHandler_isRetryableError :: "thrown \<Rightarrow> bool" where
  "ErrorHandler_isRetryableError (Error m) =
     some (\<lambda>retryableError. includesStr m retryableError) ErrorHandler_retryableErrors"
| "ErrorHandler_isRetryableError NonError = False"

fun getStatusCode :: "thrown \<Rightarrow> nat" where
  "getStatusCode (Error m) =
     (if includesStr m ''not found'' then 404
      else if includesStr m ''unauthorized'' then 401
      else if includesStr m ''forbidden'' then 403
      else if includesStr m ''validation'' then 400
      else if includesStr m ''timeout'' then 408
      else 500)"
| "getStatusCode NonError = 500"

fun getErrorMessage :: "thrown \<Rightarrow> string" where
  "getErrorMessage (Error m) =
     (if includesStr m ''ECONN'' \<or> includesStr m ''ENOTFOUND''
      then ''Connection issue. Please try again.''
      else if includesStr m ''timeout'' then ''Request timed out. Please try again.''
      else m)"
| "getErrorMessage NonError = ''An unexpected error occurred. Please try again.''"

definition handleError :: "thrown \<Rightarrow> string \<Rightarrow> Response" where
  "handleError error ctx =
     (let isRetryable = ErrorHandler_isRetryableError error;
          statusCode = getStatusCode error;
          msg = getErrorMessage error
      in if includesStr ctx ''chat'' \<or> includesStr ctx ''stream''
         then \<lparr>status = statusCode, headers = sseHeaders,
               body = StreamErrorBody \<lparr>message = msg, retryable = isRetryable\<rparr>\<rparr>
         else \<lparr>status = statusCode, headers = [(''content-type'', ''application/json'')],
               body = JsonErrorBody msg isRetryable\<rparr>)"

text \<open>The identifier from \<^verbatim>\<open>crypto.randomUUID()\<close> is left out of the message body.\<close>

definition createStreamSuccessResponse :: "string \<Rightarrow> Response" where
  "createStreamSuccessResponse msg =
     \<lparr>status = 200, headers = sseHeaders, body = StreamMessageBody msg\<rparr>"

text \<open>What the client can read of an error in a response.\<close>

fun errorText :: "body \<Rightarrow> string option" where
  "errorText (StreamErrorBody r) = Some (message r)"
| "errorText (JsonErrorBody m r) = Some m"
| "errorText (StreamMessageBody m) = None"
| "errorText (ResumableStreamBody s) = None"

section \<open>JavaScript numbers\<close>

text \<open>
  A number of the code is an IEEE 754 double.  A finite double is kept as the real number
  it stands for, and every arithmetic operation returns the exact result rounded to the
  nearest double: 53 significant bits, ties to the even significand, fixed spacing
  \<open>2 powi - 1074\<close> in the subnormal range.  \<^verbatim>\<open>NaN\<close>, the infinities and the sign of zero
  are left out, so a result of \<open>2 ^ 1024\<close> or more is not modelled.
\<close>

fun bitLength :: "nat \<Rightarrow> nat" where
  "bitLength n = (if n = 0 then 0 else Suc (bitLength (n div 2)))"

declare bitLength.simps [simp del]

text \<open>The exponent \<open>e\<close> of a positive number \<open>a\<close>: \<open>2 powi e \<le> a < 2 powi (e + 1)\<close>.\<close>

definition binaryExponent :: "real \<Rightarrow> int" where
  "binaryExponent a =
     (if 1 \<le> a then int (bitLength (nat \<lfloor>a\<rfloor>)) - 1
      else - int (bitLength (nat (\<lceil>1 / a\<rceil> - 1))))"

definition pow2 :: "int \<Rightarrow> real" where
  "pow2 k = 2 powi k"

text \<open>The spacing of the doubles around a positive number.\<close>

definition ulp :: "real \<Rightarrow> real" where
  "ulp a = pow2 (max (binaryExponent a - 52) (- 1074))"

definition tiesToEven :: "int \<Rightarrow> real \<Rightarrow> int" where
  "tiesToEven f d =
     (if d < 1 / 2 then f else if 1 / 2 < d then f + 1 else if even f then f else f + 1)"

definition roundHalfEven :: "real \<Rightarrow> int" where
  "roundHalfEven y = tiesToEven \<lfloor>y\<rfloor> (y - of_int \<lfloor>y\<rfloor>)"

definition toDouble :: "real \<Rightarrow> real" where
  "toDouble x =
     (if x = 0 then 0 else sgn x * (of_int (roundHalfEven (\<bar>x\<bar> / ulp \<bar>x\<bar>)) * ulp \<bar>x\<bar>))"

text \<open>The operators \<^verbatim>\<open>/\<close>, \<^verbatim>\<open>*\<close> and \<^verbatim>\<open>+\<close> on numbers.\<close>

definition jsDiv :: "real \<Rightarrow> real \<Rightarrow> real" where
  "jsDiv a b = toDouble (a / b)"

definition jsMul :: "real \<Rightarrow> real \<Rightarrow> real" where
  "jsMul a b = toDouble (a * b)"

definition jsAdd :: "real \<Rightarrow> real \<Rightarrow> real" where
  "jsAdd a b = toDouble (a + b)"

section \<open>monitoring.ts\<close>

record performance =
  averageResponseTime :: real
  totalRequests :: nat
  successfulRequests :: nat
  failedRequests :: nat
  successRate :: real

record errorEntry =
  timestamp :: int
  errorContext :: string
  errorMessage :: string

record errorLog =
  recent :: "errorEntry list"
  count :: nat

text \<open>
  The static fields of the class \<^verbatim>\<open>Monitoring\<close>: the metrics (without the circuit breaker
  snapshot, which only \<^verbatim>\<open>getMetrics\<close> fills in) and the request times.  The rate,
  the average and the request times are doubles; the counters, which only ever grow by
  one and are exact as doubles below \<open>2 ^ 53\<close>, are natural numbers.
\<close>

record monitoring =
  metrics_performance :: performance
  metrics_errors :: errorLog
  requestTimes :: "real list"

definition MAX_ERRORS :: nat where
  "MAX_ERRORS = 100"

definition MAX_REQUEST_TIMES :: nat where
  "MAX_REQUEST_TIMES = 1000"

definition initialMonitoring :: monitoring where
  "initialMonitoring =
     \<lparr>metrics_performance =
        \<lparr>averageResponseTime = 0, totalRequests = 0, successfulRequests = 0,
         failedRequests = 0, successRate = 100\<rparr>,
      metrics_errors = \<lparr>recent = [], count = 0\<rparr>,
      requestTimes = []\<rparr>"

definition updateSuccessRate :: "monitoring \<Rightarrow> monitoring" where
  "updateSuccessRate m =
     (let p = metrics_performance m
      in if totalRequests p > 0
         then m\<lparr>metrics_performance :=
                  p\<lparr>successRate :=
                       jsMul (jsDiv (real (successfulRequests p)) (real (totalRequests p))) 100\<rparr>\<rparr>
         else m)"

definition recordRequestTime :: "real \<Rightarrow> monitoring \<Rightarrow> monitoring" where
  "recordRequestTime duration m =
     (let pushed = requestTimes m @ [duration];
          kept = (if length pushed > MAX_REQUEST_TIMES
                  then drop (length pushed - MAX_REQUEST_TIMES) pushed else pushed);
          total = foldl (\<lambda>acc time. jsAdd acc time) 0 kept
      in m\<lparr>requestTimes := kept,
            metrics_performance :=
              (metrics_performance m)\<lparr>averageResponseTime := jsDiv total (real (length kept))\<rparr>\<rparr>)"

definition recordError :: "int \<Rightarrow> string \<Rightarrow> string \<Rightarrow> monitoring \<Rightarrow> monitoring" where
  "recordError now ctx error m =
     (let entry = \<lparr>timestamp = now, errorContext = ctx, errorMessage = error\<rparr>;
          e = metrics_errors m;
          unshifted = entry # recent e
      in m\<lparr>metrics_errors :=
            \<lparr>recent = (if length unshifted > MAX_ERRORS then take MAX_ERRORS unshifted
                        else unshifted),
             count = count e + 1\<rparr>\<rparr>)"

definition recordSuccess :: "real \<Rightarrow> monitoring \<Rightarrow> monitoring" where
  "recordSuccess duration m =
     (let p = metrics_performance m;
          m1 = m\<lparr>metrics_performance :=
                   p\<lparr>totalRequests := totalRequests p + 1,
                     successfulRequests := successfulRequests p + 1\<rparr>\<rparr>
      in recordRequestTime duration (updateSuccessRate m1))"

definition recordFailure :: "int \<Rightarrow> real \<Rightarrow> string \<Rightarrow> string \<Rightarrow> monitoring \<Rightarrow> monitoring" where
  "recordFailure now duration ctx error m =
     (let p = metrics_performance m;
          m1 = m\<lparr>metrics_performance :=
                   p\<lparr>totalRequests := totalRequests p + 1,
                     failedRequests := failedRequests p + 1\<rparr>\<rparr>
      in recordError now ctx error (recordRequestTime duration (updateSuccessRate m1)))"

text \<open>A history of recordings, applied in order from the initial state.\<close>

datatype recording = Success real | Failure int real string string

fun record1 :: "monitoring \<Rightarrow> recording \<Rightarrow> monitoring" where
  "record1 m (Success duration) = recordSuccess duration m"
| "record1 m (Failure now duration ctx error) = recordFailure now duration ctx error m"

definition recordAll :: "recording list \<Rightarrow> monitoring" where
  "recordAll rs = foldl record1 initialMonitoring rs"

section \<open>The clock and the timer\<close>

text \<open>
  What every module reads of its surroundings: \<^verbatim>\<open>Date.now()\<close> in milliseconds, and the
  delays handed to \<^verbatim>\<open>setTimeout\<close> and awaited, in order.  The record is extended below
  by the state of the stream manager, so an operation on the extended record is an
  operation here as well.
\<close>

record runtime =
  clock :: int
  sleeps :: "int list"

definition sleep :: "int \<Rightarrow> 'e runtime_scheme \<Rightarrow> 'e runtime_scheme" where
  "sleep ms rt = rt\<lparr>clock := clock rt + max 0 ms, sleeps := sleeps rt @ [ms]\<rparr>"

text \<open>
  An asynchronous operation \<^verbatim>\<open>() => Promise<T>\<close>: run on a state, it rejects (\<open>Inl\<close>) or
  resolves (\<open>Inr\<close>) and leaves a state behind.
\<close>

type_synonym ('e, 'a) operation =
  "'e runtime_scheme \<Rightarrow> (thrown + 'a) \<times> 'e runtime_scheme"

section \<open>resilience.ts\<close>

record RetryOptions =
  maxAttempts :: int
  baseDelay :: int
  maxDelay :: int
  backoffMultiplier :: int

record CircuitBreakerOptions =
  failureThreshold :: int
  recoveryTimeout :: int
  monitoringWindow :: int

text \<open>\<^verbatim>\<open>Partial<RetryOptions>\<close> and \<^verbatim>\<open>Partial<CircuitBreakerOptions>\<close>: a field may be left out.\<close>

record PartialRetryOptions =
  maxAttempts_opt :: "int option"
  baseDelay_opt :: "int option"
  maxDelay_opt :: "int option"
  backoffMultiplier_opt :: "int option"

record PartialCircuitBreakerOptions =
  failureThreshold_opt :: "int option"
  recoveryTimeout_opt :: "int option"
  monitoringWindow_opt :: "int option"

definition noRetryOptions :: PartialRetryOptions where
  "noRetryOptions =
     \<lparr>maxAttempts_opt = None, baseDelay_opt = None, maxDelay_opt = None,
      backoffMultiplier_opt = None\<rparr>"

definition noCircuitBreakerOptions :: PartialCircuitBreakerOptions where
  "noCircuitBreakerOptions =
     \<lparr>failureThreshold_opt = None, recoveryTimeout_opt = None, monitoringWindow_opt = None\<rparr>"

datatype breaker = Closed | Open | HalfOpen

record CircuitBreakerState =
  state :: breaker
  failureCount :: int
  lastFailureTime :: int

type_synonym circuitBreakers = "string \<rightharpoonup> CircuitBreakerState"

definition defaultRetryOptions :: RetryOptions where
  "defaultRetryOptions =
     \<lparr>maxAttempts = 3, baseDelay = 1000, maxDelay = 10000, backoffMultiplier = 2\<rparr>"

definition defaultCircuitBreakerOptions :: CircuitBreakerOptions where
  "defaultCircuitBreakerOptions =
     \<lparr>failureThreshold = 5, recoveryTimeout = 30000, monitoringWindow = 60000\<rparr>"

text \<open>The object spreads \<^verbatim>\<open>{ ...defaults, ...options }\<close>.\<close>

definition retryConfig :: "PartialRetryOptions \<Rightarrow> RetryOptions" where
  "retryConfig options =
     \<lparr>maxAttempts = (case maxAttempts_opt options of
                       None \<Rightarrow> maxAttempts defaultRetryOptions | Some x \<Rightarrow> x),
      baseDelay = (case baseDelay_opt options of
                     None \<Rightarrow> baseDelay defaultRetryOptions | Some x \<Rightarrow> x),
      maxDelay = (case maxDelay_opt options of
                    None \<Rightarrow> maxDelay defaultRetryOptions | Some x \<Rightarrow> x),
      backoffMultiplier = (case backoffMultiplier_opt options of
                             None \<Rightarrow> backoffMultiplier defaultRetryOptions | Some x \<Rightarrow> x)\<rparr>"

definition circuitBreakerConfig :: "PartialCircuitBreakerOptions \<Rightarrow> CircuitBreakerOptions" where
  "circuitBreakerConfig options =
     \<lparr>failureThreshold = (case failureThreshold_opt options of
                            None \<Rightarrow> failureThreshold defaultCircuitBreakerOptions | Some x \<Rightarrow> x),
      recoveryTimeout = (case recoveryTimeout_opt options of
                           None \<Rightarrow> recoveryTimeout defaultCircuitBreakerOptions | Some x \<Rightarrow> x),
      monitoringWindow = (case monitoringWindow_opt options of
                            None \<Rightarrow> monitoringWindow defaultCircuitBreakerOptions
                          | Some x \<Rightarrow> x)\<rparr>"

definition Resilience_retryableErrors :: "string list" where
  "Resilience_retryableErrors =
     [''ECONNRESET'', ''ETIMEDOUT'', ''ENOTFOUND'', ''ECONNREFUSED'', ''NETWORK_ERROR'',
      ''TIMEOUT'', ''RATE_LIMIT'', ''SERVICE_UNAVAILABLE'']"

fun Resilience_isRetryableError :: "thrown \<Rightarrow> bool" where
  "Resilience_isRetryableError (Error m) =
     some (\<lambda>retryableError. includesStr m retryableError) Resilience_retryableErrors"
| "Resilience_isRetryableError NonError = False"

text \<open>\<^verbatim>\<open>attempt\<close> is at least 1 wherever the loop calls this, so the exponent is a natural.\<close>

definition calculateBackoffDelay :: "int \<Rightarrow> RetryOptions \<Rightarrow> int" where
  "calculateBackoffDelay attempt config =
     (let delay = baseDelay config * backoffMultiplier config ^ nat (attempt - 1)
      in min delay (maxDelay config))"

text \<open>
  The loop of \<^verbatim>\<open>withRetry\<close>, from attempt number \<open>attempt\<close> on.  The statement after the
  loop, \<^verbatim>\<open>throw lastError\<close>, is reached only when the loop body never ran, and throws
  \<^verbatim>\<open>undefined\<close> then.
\<close>

function withRetry_from ::
  "('e, 'a) operation \<Rightarrow> string \<Rightarrow> RetryOptions \<Rightarrow> int \<Rightarrow> ('e, 'a) operation" where
  "withRetry_from operation ctx config attempt rt =
     (if attempt \<le> maxAttempts config
      then (case operation rt of
              (Inr result, rt') \<Rightarrow> (Inr result, rt')
            | (Inl error, rt') \<Rightarrow>
                if attempt = maxAttempts config then (Inl error, rt')
                else if \<not> Resilience_isRetryableError error then (Inl error, rt')
                else withRetry_from operation ctx config (attempt + 1)
                       (sleep (calculateBackoffDelay attempt config) rt'))
      else (Inl NonError, rt))"
  by pat_completeness auto
termination
  by (relation "measure (\<lambda>(operation, ctx, config, attempt, rt). nat (maxAttempts config - attempt))")
    auto

definition withRetry ::
  "('e, 'a) operation \<Rightarrow> string \<Rightarrow> PartialRetryOptions \<Rightarrow> ('e, 'a) operation" where
  "withRetry operation ctx options = withRetry_from operation ctx (retryConfig options) 1"

definition getOrCreateCircuitBreaker ::
  "string \<Rightarrow> circuitBreakers \<Rightarrow> CircuitBreakerState \<times> circuitBreakers" where
  "getOrCreateCircuitBreaker ctx cbs =
     (case cbs ctx of
        None \<Rightarrow>
          (let created = \<lparr>state = Closed, failureCount = 0, lastFailureTime = 0\<rparr>
           in (created, cbs(ctx \<mapsto> created)))
      | Some circuitBreaker \<Rightarrow> (circuitBreaker, cbs))"

text \<open>
  The breaker object is shared with the map, so every assignment to it is written back
  under its context.  The operation works on the runtime state only, never on the
  breakers.
\<close>

fun withCircuitBreaker ::
  "('e, 'a) operation \<Rightarrow> string \<Rightarrow> PartialCircuitBreakerOptions \<Rightarrow>
     circuitBreakers \<times> 'e runtime_scheme \<Rightarrow> (thrown + 'a) \<times> circuitBreakers \<times> 'e runtime_scheme"
  where
  "withCircuitBreaker operation ctx options (cbs0, rt) =
     (let config = circuitBreakerConfig options;
          (cb0, cbs) = getOrCreateCircuitBreaker ctx cbs0
      in if state cb0 = Open \<and> clock rt - lastFailureTime cb0 < recoveryTimeout config
         then (Inl (Error (''Circuit breaker is open for '' @ ctx @ ''. Please try again later.'')),
               cbs, rt)
         else
           let cb1 = (if state cb0 = Open then cb0\<lparr>state := HalfOpen, failureCount := 0\<rparr>
                      else cb0)
           in case operation rt of
                (Inr result, rt') \<Rightarrow>
                  let cb2 = (if state cb1 = HalfOpen
                             then cb1\<lparr>state := Closed, failureCount := 0\<rparr> else cb1)
                  in (Inr result, cbs(ctx \<mapsto> cb2), rt')
              | (Inl error, rt') \<Rightarrow>
                  let cb2 = cb1\<lparr>failureCount := failureCount cb1 + 1,
                                lastFailureTime := clock rt'\<rparr>;
                      cb3 = (if failureCount cb2 \<ge> failureThreshold config
                             then cb2\<lparr>state := Open\<rparr> else cb2)
                  in (Inl error, cbs(ctx \<mapsto> cb3), rt'))"

fun withResilience ::
  "('e, 'a) operation \<Rightarrow> string \<Rightarrow> PartialRetryOptions \<Rightarrow> PartialCircuitBreakerOptions \<Rightarrow>
     circuitBreakers \<times> 'e runtime_scheme \<Rightarrow> (thrown + 'a) \<times> circuitBreakers \<times> 'e runtime_scheme"
  where
  "withResilience operation ctx retryOptions circuitBreakerOptions s =
     withCircuitBreaker (withRetry operation ctx retryOptions) ctx circuitBreakerOptions s"

text \<open>Calls through one breaker, one after the other; each call has its own operation.\<close>

fun callsInTurn ::
  "('e, 'a) operation list \<Rightarrow> string \<Rightarrow> PartialCircuitBreakerOptions \<Rightarrow>
     circuitBreakers \<times> 'e runtime_scheme \<Rightarrow> circuitBreakers \<times> 'e runtime_scheme" where
  "callsInTurn [] ctx options s = s"
| "callsInTurn (operation # operations) ctx options s =
     callsInTurn operations ctx options (snd (withCircuitBreaker operation ctx options s))"

section \<open>stream-manager.ts: the state\<close>

text \<open>
  The state of one server process and of the store it talks to.

  \<^item> \<open>redisKeys\<close>: the keys of the store, each with its value and, when it was set with
    \<^verbatim>\<open>EX\<close>, the time at which it expires;  \<open>storeDown\<close>: the store cannot be reached,
    and every command sent to it rejects;  \<open>published\<close>: the messages published, with
    their channels;  \<open>subscriptions\<close>: the channels subscribed to.
  \<^item> \<open>streamHealth\<close> and \<open>activeStreams\<close>: the module's map and set.  A JavaScript
    \<^verbatim>\<open>Set\<close> iterates in insertion order, so the set is a list without repetitions.
  \<^item> \<open>producerCalls\<close>, \<open>resumableStreams\<close>, \<open>memory\<close>: what has been asked of the
    collaborators: the sessions \<^verbatim>\<open>AIService.sendMessage\<close> was called for, the resumable
    streams created, the messages saved to memory.

  Calls are modelled one at a time: no other call for the same session is in flight when
  one begins, so \<^verbatim>\<open>streamLocks\<close> is empty then and is left out.
\<close>

type_synonym message = string

record health =
  lastActivity :: int
  startTime :: int
  messageCount :: int

record world = runtime +
  storeDown :: bool
  redisKeys :: "string \<rightharpoonup> string \<times> int option"
  published :: "(string \<times> string) list"
  subscriptions :: "string list"
  streamHealth :: "string \<rightharpoonup> health"
  activeStreams :: "string list"
  producerCalls :: "string list"
  resumableStreams :: "string list"
  memory :: "(string \<times> message list) list"

definition initialWorld :: world where
  "initialWorld =
     \<lparr>clock = 0, sleeps = [], storeDown = False, redisKeys = Map.empty, published = [],
      subscriptions = [], streamHealth = Map.empty, activeStreams = [], producerCalls = [],
      resumableStreams = [], memory = []\<rparr>"

text \<open>Awaiting one asynchronous call and then the next; a rejection ends the sequence.\<close>

definition andThen ::
  "('w \<Rightarrow> (thrown + 'a) \<times> 'w) \<Rightarrow> ('a \<Rightarrow> 'w \<Rightarrow> (thrown + 'b) \<times> 'w) \<Rightarrow> 'w \<Rightarrow> (thrown + 'b) \<times> 'w"
  where
  "andThen f g w = (case f w of (Inl e, w') \<Rightarrow> (Inl e, w') | (Inr x, w') \<Rightarrow> g x w')"

subsection \<open>The store\<close>

text \<open>
  Modelled from the spec: the shared coordination store is a key-value store with
  expiring keys and publish/subscribe; the client module \<^verbatim>\<open>./redis\<close> is not part of the
  sources.  A command rejects when the store cannot be reached.
\<close>

definition storeError :: thrown where
  "storeError = Error ''connect ECONNREFUSED 127.0.0.1:6379''"

definition redisGet :: "string \<Rightarrow> world \<Rightarrow> (thrown + string option) \<times> world" where
  "redisGet key w =
     (if storeDown w then (Inl storeError, w)
      else (Inr (case redisKeys w key of
                   None \<Rightarrow> None
                 | Some (v, None) \<Rightarrow> Some v
                 | Some (v, Some expires) \<Rightarrow> if clock w < expires then Some v else None),
            w))"

definition redisSet :: "string \<Rightarrow> string \<Rightarrow> int option \<Rightarrow> world \<Rightarrow> (thrown + unit) \<times> world" where
  "redisSet key v ex w =
     (if storeDown w then (Inl storeError, w)
      else (Inr (),
            w\<lparr>redisKeys := (redisKeys w)
                 (key \<mapsto> (v, map_option (\<lambda>seconds. clock w + 1000 * seconds) ex))\<rparr>))"

definition redisDel :: "string \<Rightarrow> world \<Rightarrow> (thrown + unit) \<times> world" where
  "redisDel key w =
     (if storeDown w then (Inl storeError, w)
      else (Inr (), w\<lparr>redisKeys := (redisKeys w)(key := None)\<rparr>))"

definition redisPublish :: "string \<Rightarrow> string \<Rightarrow> world \<Rightarrow> (thrown + unit) \<times> world" where
  "redisPublish channel msg w =
     (if storeDown w then (Inl storeError, w)
      else (Inr (), w\<lparr>published := published w @ [(channel, msg)]\<rparr>))"

text \<open>\<^verbatim>\<open>redis.subscribe\<close> is never awaited: a rejection is lost.\<close>

definition redisSubscribe :: "string \<Rightarrow> world \<Rightarrow> world" where
  "redisSubscribe channel w =
     (if storeDown w then w else w\<lparr>subscriptions := subscriptions w @ [channel]\<rparr>)"

definition streamStateKey :: "string \<Rightarrow> string" where
  "streamStateKey appId = ''app:'' @ appId @ '':stream-state''"

definition eventsChannel :: "string \<Rightarrow> string" where
  "eventsChannel appId = ''events:'' @ appId"

text \<open>\<^verbatim>\<open>JSON.stringify({ type: "abort-stream" })\<close>.\<close>

definition quoted :: "string \<Rightarrow> string" where
  "quoted s = CHR 0x22 # s @ [CHR 0x22]"

definition abortMessage :: string where
  "abortMessage = ''{'' @ quoted ''type'' @ '':'' @ quoted ''abort-stream'' @ ''}''"

section \<open>stream-manager.ts: the stream state\<close>

definition getStreamState :: "string \<Rightarrow> world \<Rightarrow> (thrown + string option) \<times> world" where
  "getStreamState appId w = redisGet (streamStateKey appId) w"

definition isStreamRunning :: "string \<Rightarrow> world \<Rightarrow> (thrown + bool) \<times> world" where
  "isStreamRunning appId =
     andThen (redisGet (streamStateKey appId)) (\<lambda>st w. (Inr (st = Some ''running''), w))"

definition stopStream :: "string \<Rightarrow> world \<Rightarrow> (thrown + unit) \<times> world" where
  "stopStream appId =
     andThen (redisPublish (eventsChannel appId) abortMessage)
       (\<lambda>_. redisDel (streamStateKey appId))"

text \<open>
  The polling loop of \<^verbatim>\<open>waitForStreamToStop\<close> from round \<open>i\<close> on.  \<^verbatim>\<open>!state\<close> holds of
  \<^verbatim>\<open>null\<close> and of the empty string.
\<close>

function waitForStreamToStop_from ::
  "string \<Rightarrow> int \<Rightarrow> int \<Rightarrow> world \<Rightarrow> (thrown + bool) \<times> world" where
  "waitForStreamToStop_from appId maxTries i w =
     (if i < maxTries
      then (case redisGet (streamStateKey appId) w of
              (Inl e, w') \<Rightarrow> (Inl e, w')
            | (Inr st, w') \<Rightarrow>
                if st = None \<or> st = Some []
                then (Inr True, w')
                else waitForStreamToStop_from appId maxTries (i + 1) (sleep 1000 w'))
      else (Inr False, w))"
  by pat_completeness auto
termination
  by (relation "measure (\<lambda>(appId, maxTries, i, w). nat (maxTries - i))") auto

definition waitForStreamToStop :: "string \<Rightarrow> int \<Rightarrow> world \<Rightarrow> (thrown + bool) \<times> world" where
  "waitForStreamToStop appId maxTries = waitForStreamToStop_from appId maxTries 0"

definition clearStreamState :: "string \<Rightarrow> world \<Rightarrow> (thrown + unit) \<times> world" where
  "clearStreamState appId = redisDel (streamStateKey appId)"

definition updateKeepAlive :: "string \<Rightarrow> world \<Rightarrow> (thrown + unit) \<times> world" where
  "updateKeepAlive appId = redisSet (streamStateKey appId) ''running'' (Some 15)"

datatype lifecycle = Start | Finish | Failed

fun handleStreamLifecycle :: "string \<Rightarrow> lifecycle \<Rightarrow> world \<Rightarrow> (thrown + unit) \<times> world" where
  "handleStreamLifecycle appId Start = updateKeepAlive appId"
| "handleStreamLifecycle appId Finish = clearStreamState appId"
| "handleStreamLifecycle appId Failed = clearStreamState appId"

section \<open>stream-manager.ts: health and admission\<close>

definition STREAM_TIMEOUT :: int where
  "STREAM_TIMEOUT = 5 * 60 * 1000"

definition MAX_CONCURRENT_STREAMS :: nat where
  "MAX_CONCURRENT_STREAMS = 10"

definition canStartNewStream :: "world \<Rightarrow> bool" where
  "canStartNewStream w = (length (activeStreams w) < MAX_CONCURRENT_STREAMS)"

definition reserveStreamSlot :: "string \<Rightarrow> world \<Rightarrow> bool \<times> world" where
  "reserveStreamSlot appId w =
     (if canStartNewStream w
      then (True, w\<lparr>activeStreams := (if appId \<in> set (activeStreams w) then activeStreams w
                                      else activeStreams w @ [appId])\<rparr>)
      else (False, w))"

definition releaseStreamSlot :: "string \<Rightarrow> world \<Rightarrow> world" where
  "releaseStreamSlot appId w = w\<lparr>activeStreams := removeAll appId (activeStreams w)\<rparr>"

definition deleteStreamHealth :: "string \<Rightarrow> world \<Rightarrow> world" where
  "deleteStreamHealth appId w = w\<lparr>streamHealth := (streamHealth w)(appId := None)\<rparr>"

text \<open>
  The body of the \<^verbatim>\<open>try\<close> of \<^verbatim>\<open>forceCleanupStream\<close>, and the function itself, which logs
  what the body throws and returns.
\<close>

definition forceCleanupStream_try :: "string \<Rightarrow> world \<Rightarrow> (thrown + unit) \<times> world" where
  "forceCleanupStream_try appId =
     andThen (clearStreamState appId)
       (\<lambda>_ w. andThen (redisDel (''stream:'' @ appId))
                 (\<lambda>_. andThen (redisDel (''stream:'' @ appId @ '':keepalive''))
                        (\<lambda>_. redisDel (''stream:'' @ appId @ '':events'')))
                 (releaseStreamSlot appId (deleteStreamHealth appId w)))"

definition forceCleanupStream :: "string \<Rightarrow> world \<Rightarrow> world" where
  "forceCleanupStream appId w = snd (forceCleanupStream_try appId w)"

definition isStreamHealthy :: "string \<Rightarrow> world \<Rightarrow> bool" where
  "isStreamHealthy appId w =
     (case streamHealth w appId of
        None \<Rightarrow> False
      | Some health \<Rightarrow>
          (let now = clock w;
               timeSinceLastActivity = now - lastActivity health;
               streamAge = now - startTime health
           in timeSinceLastActivity < STREAM_TIMEOUT \<and> streamAge < 10 * 60 * 1000))"

definition initStreamHealth :: "string \<Rightarrow> world \<Rightarrow> world" where
  "initStreamHealth appId w =
     w\<lparr>streamHealth := (streamHealth w)
          (appId \<mapsto> \<lparr>lastActivity = clock w, startTime = clock w, messageCount = 0\<rparr>)\<rparr>"

text \<open>
  The body of the \<^verbatim>\<open>try\<close> of \<^verbatim>\<open>ensureSingleStream\<close>, and the function itself, whose
  \<^verbatim>\<open>catch\<close> forces a cleanup.
\<close>

definition ensureSingleStream_try :: "string \<Rightarrow> world \<Rightarrow> (thrown + unit) \<times> world" where
  "ensureSingleStream_try appId =
     andThen (isStreamRunning appId)
       (\<lambda>running.
          andThen (\<lambda>w. if running
                        then if isStreamHealthy appId w
                             then andThen (stopStream appId)
                                    (\<lambda>_. andThen (waitForStreamToStop appId 60)
                                           (\<lambda>_ w'. (Inr (), w'))) w
                             else (Inr (), forceCleanupStream appId w)
                        else (Inr (), w))
            (\<lambda>_. andThen (clearStreamState appId)
                    (\<lambda>_ w. (Inr (), initStreamHealth appId w))))"

definition ensureSingleStream :: "string \<Rightarrow> world \<Rightarrow> world" where
  "ensureSingleStream appId w =
     (case ensureSingleStream_try appId w of
        (Inr _, w') \<Rightarrow> w'
      | (Inl error, w') \<Rightarrow> forceCleanupStream appId w')"

definition updateStreamHealth :: "string \<Rightarrow> int option \<Rightarrow> world \<Rightarrow> world" where
  "updateStreamHealth appId newCount w =
     (case streamHealth w appId of
        None \<Rightarrow> w
      | Some health \<Rightarrow>
          w\<lparr>streamHealth := (streamHealth w)
               (appId \<mapsto> health\<lparr>lastActivity := clock w,
                                 messageCount := (case newCount of None \<Rightarrow> messageCount health
                                                  | Some n \<Rightarrow> n)\<rparr>)\<rparr>)"

definition setupAbortCallback :: "string \<Rightarrow> world \<Rightarrow> world" where
  "setupAbortCallback appId = redisSubscribe (eventsChannel appId)"

section \<open>stream-manager.ts: sending a message\<close>

text \<open>
  The modules \<^verbatim>\<open>./ai-service\<close> and \<^verbatim>\<open>resumable-stream\<close> and the data layer behind
  \<^verbatim>\<open>getApp\<close> and \<^verbatim>\<open>freestyle.requestDevServer\<close> are collaborators outside the sources.
  What they do in one call is a parameter: the hooks \<^verbatim>\<open>AIService.sendMessage\<close> fires
  before it settles (with the abort signals and the time that arrive in between), how it
  settles, and how the other calls settle.
\<close>

datatype hook = OnChunk | OnStepFinish | OnError | OnFinish | AbortSignal | Elapse int

record aiStream =
  hasToUIMessageStreamResponse :: bool
  hasResponseBody :: bool

record collaborators =
  sendMessage_hooks :: "hook list"
  sendMessage_result :: "thrown + aiStream"
  createNewResumableStream_result :: "thrown + bool"
  getUnsavedMessages_result :: "thrown + message list"
  saveMessagesToMemory_result :: "thrown + unit"
  getApp_result :: "thrown + bool"
  requestDevServer_result :: "thrown + string"

text \<open>The variables of one call that its callbacks close over.\<close>

record locals =
  shouldAbort :: bool
  fallbackToMemory :: bool
  lastKeepAlive :: int
  aborted :: "string option"

text \<open>\<^verbatim>\<open>controller.abort(reason)\<close>: only the first call sets the reason.\<close>

definition controllerAbort :: "string \<Rightarrow> locals \<Rightarrow> locals" where
  "controllerAbort reason l = (case aborted l of None \<Rightarrow> l\<lparr>aborted := Some reason\<rparr> | Some _ \<Rightarrow> l)"

text \<open>
  \<^verbatim>\<open>AIService.getUnsavedMessages\<close> followed by \<^verbatim>\<open>AIService.saveMessagesToMemory\<close>; the
  flag says whether an empty list is saved too.
\<close>

definition saveUnsaved :: "collaborators \<Rightarrow> string \<Rightarrow> bool \<Rightarrow> world \<Rightarrow> (thrown + unit) \<times> world" where
  "saveUnsaved c appId always w =
     (case getUnsavedMessages_result c of
        Inl e \<Rightarrow> (Inl e, w)
      | Inr messages \<Rightarrow>
          if always \<or> length messages > 0
          then (case saveMessagesToMemory_result c of
                  Inl e \<Rightarrow> (Inl e, w)
                | Inr _ \<Rightarrow> (Inr (), w\<lparr>memory := memory w @ [(appId, messages)]\<rparr>))
          else (Inr (), w))"

definition onChunk :: "string \<Rightarrow> locals \<times> world \<Rightarrow> (thrown + unit) \<times> locals \<times> world" where
  "onChunk appId = (\<lambda>(l, w).
     (let now = clock w
      in if now - lastKeepAlive l > 5000
         then (case updateKeepAlive appId w of
                 (Inl e, w') \<Rightarrow> (Inl e, l\<lparr>lastKeepAlive := now\<rparr>, w')
               | (Inr _, w') \<Rightarrow>
                   (Inr (), l\<lparr>lastKeepAlive := now\<rparr>, updateStreamHealth appId None w'))
         else (Inr (), l, w)))"

definition onStepFinish ::
  "collaborators \<Rightarrow> string \<Rightarrow> locals \<times> world \<Rightarrow> (thrown + unit) \<times> locals \<times> world" where
  "onStepFinish c appId = (\<lambda>(l, w).
     (let w1 = updateStreamHealth appId None w
      in if shouldAbort l
         then (case handleStreamLifecycle appId Failed w1 of
                 (Inl e, w2) \<Rightarrow> (Inl e, l, w2)
               | (Inr _, w2) \<Rightarrow>
                   (case saveUnsaved c appId True w2 of
                      (r, w3) \<Rightarrow> (r, controllerAbort ''Aborted stream after step finish'' l, w3)))
         else (Inr (), l, w1)))"

definition onError :: "string \<Rightarrow> locals \<times> world \<Rightarrow> (thrown + unit) \<times> locals \<times> world" where
  "onError appId = (\<lambda>(l, w).
     (case handleStreamLifecycle appId Failed w of
        (Inl e, w') \<Rightarrow> (Inl e, l\<lparr>fallbackToMemory := True\<rparr>, w')
      | (Inr _, w') \<Rightarrow>
          (Inr (), l\<lparr>fallbackToMemory := True\<rparr>,
           releaseStreamSlot appId (deleteStreamHealth appId w'))))"

definition onFinish :: "string \<Rightarrow> locals \<times> world \<Rightarrow> (thrown + unit) \<times> locals \<times> world" where
  "onFinish appId = (\<lambda>(l, w).
     (case handleStreamLifecycle appId Finish w of
        (Inl e, w') \<Rightarrow> (Inl e, l, w')
      | (Inr _, w') \<Rightarrow> (Inr (), l, releaseStreamSlot appId (deleteStreamHealth appId w'))))"

text \<open>
  One hook fired by the producer.  A callback that rejects keeps what it did up to then,
  and the producer goes on.  An abort signal reaches the call only through its
  subscription.
\<close>

fun fire :: "collaborators \<Rightarrow> string \<Rightarrow> hook \<Rightarrow> locals \<times> world \<Rightarrow> locals \<times> world" where
  "fire c appId OnChunk s = snd (onChunk appId s)"
| "fire c appId OnStepFinish s = snd (onStepFinish c appId s)"
| "fire c appId OnError s = snd (onError appId s)"
| "fire c appId OnFinish s = snd (onFinish appId s)"
| "fire c appId AbortSignal (l, w) =
     (if eventsChannel appId \<in> set (subscriptions w) then (l\<lparr>shouldAbort := True\<rparr>, w)
      else (l, w))"
| "fire c appId (Elapse ms) (l, w) = (l, w\<lparr>clock := clock w + max 0 ms\<rparr>)"

fun deliver :: "collaborators \<Rightarrow> string \<Rightarrow> hook list \<Rightarrow> locals \<times> world \<Rightarrow> locals \<times> world" where
  "deliver c appId [] s = s"
| "deliver c appId (h # hs) s = deliver c appId hs (fire c appId h s)"

text \<open>
  The handle that \<^verbatim>\<open>sendMessageWithStreaming\<close> returns: the resumable stream of a session,
  or the synthetic answer of the fallback.
\<close>

datatype StreamResponse = ResumableResponse string | MemoryResponse

definition setStream ::
  "collaborators \<Rightarrow> string \<Rightarrow> message \<Rightarrow> aiStream \<Rightarrow> world \<Rightarrow> (thrown + StreamResponse) \<times> world"
  where
  "setStream c appId prompt stream w =
     (if \<not> hasToUIMessageStreamResponse stream
      then (Inl (Error ''Stream missing required toUIMessageStreamResponse method''), w)
      else if \<not> hasResponseBody stream
      then (Inl (Error ''Error creating resumable stream: response body is undefined''), w)
      else andThen (redisSet (streamStateKey appId) ''running'' (Some 15))
             (\<lambda>_ w'. case createNewResumableStream_result c of
                        Inl e \<Rightarrow> (Inl e, w')
                      | Inr False \<Rightarrow> (Inl (Error ''Failed to create resumable stream''), w')
                      | Inr True \<Rightarrow>
                          (Inr (ResumableResponse appId),
                           w'\<lparr>resumableStreams := resumableStreams w' @ [appId]\<rparr>)) w)"

text \<open>Relief of a full pool: the two oldest active sessions are force-cleaned.\<close>

definition makeRoom :: "world \<Rightarrow> world" where
  "makeRoom w =
     (if \<not> canStartNewStream w
      then (let oldestStreams = take 2 (activeStreams w)
            in foldl (\<lambda>w' oldAppId. forceCleanupStream oldAppId w') w oldestStreams)
      else w)"

text \<open>
  The inner \<^verbatim>\<open>try\<close> block: the abort subscription, the call of the producer with its hooks,
  and the set-up of the resumable stream.
\<close>

definition startStream ::
  "collaborators \<Rightarrow> string \<Rightarrow> message \<Rightarrow> world \<Rightarrow> (thrown + StreamResponse) \<times> locals \<times> world"
  where
  "startStream c appId msg w =
     (let w1 = setupAbortCallback appId w;
          l0 = \<lparr>shouldAbort = False, fallbackToMemory = False, lastKeepAlive = clock w1,
                aborted = None\<rparr>;
          w2 = w1\<lparr>producerCalls := producerCalls w1 @ [appId]\<rparr>;
          (l, w3) = deliver c appId (sendMessage_hooks c) (l0, w2)
      in case sendMessage_result c of
           Inl e \<Rightarrow> (Inl e, l, w3)
         | Inr stream \<Rightarrow>
             if \<not> hasToUIMessageStreamResponse stream
             then (Inl (Error ''Invalid stream format - missing toUIMessageStreamResponse method''),
                   l, w3)
             else (case setStream c appId msg stream w3 of
                     (Inl e, w4) \<Rightarrow> (Inl e, l, w4)
                   | (Inr resumableStream, w4) \<Rightarrow>
                       (case handleStreamLifecycle appId Start (setupAbortCallback appId w4) of
                          (Inl e, w5) \<Rightarrow> (Inl e, l, w5)
                        | (Inr _, w5) \<Rightarrow> (Inr resumableStream, l, w5))))"

text \<open>The fallback after the \<^verbatim>\<open>catch\<close>: unsaved messages go to memory.\<close>

definition fallbackToMemoryPath ::
  "collaborators \<Rightarrow> string \<Rightarrow> world \<Rightarrow> (thrown + StreamResponse) \<times> world" where
  "fallbackToMemoryPath c appId w =
     (case saveUnsaved c appId False w of
        (Inl fallbackError, w') \<Rightarrow>
          (Inl (Error ''Failed to process message and fallback failed''), w')
      | (Inr _, w') \<Rightarrow> (Inr MemoryResponse, w'))"

text \<open>The inner \<^verbatim>\<open>try\<close> with its \<^verbatim>\<open>catch\<close>, and the fallback that follows the \<^verbatim>\<open>catch\<close>.\<close>

definition streamWithFallback ::
  "collaborators \<Rightarrow> string \<Rightarrow> message \<Rightarrow> world \<Rightarrow> (thrown + StreamResponse) \<times> world" where
  "streamWithFallback c appId msg w =
     (case startStream c appId msg w of
        (Inr resumableStream, l, w') \<Rightarrow> (Inr resumableStream, w')
      | (Inl error, l, w') \<Rightarrow>
          fallbackToMemoryPath c appId (releaseStreamSlot appId (deleteStreamHealth appId w')))"

text \<open>The reservation of a slot, the reconciliation with a prior stream, and the stream.\<close>

definition admit ::
  "collaborators \<Rightarrow> string \<Rightarrow> message \<Rightarrow> world \<Rightarrow> (thrown + StreamResponse) \<times> world" where
  "admit c appId msg w =
     (case reserveStreamSlot appId w of
        (False, w1) \<Rightarrow>
          (Inl (Error ''Unable to reserve stream slot - connection pool exhausted''), w1)
      | (True, w1) \<Rightarrow> streamWithFallback c appId msg (ensureSingleStream appId w1))"

text \<open>The asynchronous function whose promise is stored as the lock.\<close>

definition streamPromise ::
  "collaborators \<Rightarrow> string \<Rightarrow> message \<Rightarrow> world \<Rightarrow> (thrown + StreamResponse) \<times> world" where
  "streamPromise c appId msg w = admit c appId msg (makeRoom w)"

definition sendMessageWithStreaming ::
  "collaborators \<Rightarrow> string \<Rightarrow> message \<Rightarrow> world \<Rightarrow> (thrown + StreamResponse) \<times> world" where
  "sendMessageWithStreaming c appId msg = streamPromise c appId msg"

text \<open>\<^verbatim>\<open>response()\<close> of the handle.\<close>

fun response :: "StreamResponse \<Rightarrow> world \<Rightarrow> Response \<times> world" where
  "response (ResumableResponse appId) w =
     (\<lparr>status = 200, headers = sseHeaders, body = ResumableStreamBody appId\<rparr>,
      redisSubscribe (eventsChannel appId) w)"
| "response MemoryResponse w =
     (\<lparr>status = 200,
       headers = [(''content-type'', ''text/event-stream''), (''cache-control'', ''no-cache''),
                  (''connection'', ''keep-alive'')],
       body = StreamMessageBody ''Message processed and saved to memory''\<rparr>,
      w)"

text \<open>
  What can happen to the process, one step after the other: a message is sent, a session
  is force-cleaned (by the periodic check, say), a stream finishes or fails after its
  handle was returned, the store becomes unreachable or reachable, time passes.
\<close>

datatype action =
    SendMessage collaborators string message
  | ForceCleanup string
  | Finished string
  | Errored string
  | StoreDown bool
  | Advance int

definition freshLocals :: "world \<Rightarrow> locals" where
  "freshLocals w =
     \<lparr>shouldAbort = False, fallbackToMemory = False, lastKeepAlive = clock w, aborted = None\<rparr>"

fun act :: "world \<Rightarrow> action \<Rightarrow> world" where
  "act w (SendMessage c appId msg) = snd (sendMessageWithStreaming c appId msg w)"
| "act w (ForceCleanup appId) = forceCleanupStream appId w"
| "act w (Finished appId) = snd (snd (onFinish appId (freshLocals w, w)))"
| "act w (Errored appId) = snd (snd (onError appId (freshLocals w, w)))"
| "act w (StoreDown b) = w\<lparr>storeDown := b\<rparr>"
| "act w (Advance ms) = w\<lparr>clock := clock w + max 0 ms\<rparr>"

definition run :: "action list \<Rightarrow> world \<Rightarrow> world" where
  "run actions w = foldl act w actions"

section \<open>States used as examples\<close>

text \<open>
  A process at time 1000000 with ten active sessions.  The oldest, \<open>app-0\<close>, is streaming:
  its token was refreshed 10 seconds ago and its stream started 100 seconds ago.
\<close>

definition fullWorld :: world where
  "fullWorld =
     initialWorld
       \<lparr>clock := 1000000,
        redisKeys := [streamStateKey ''app-0'' \<mapsto> (''running'', Some 1005000)],
        streamHealth := [''app-0'' \<mapsto> \<lparr>lastActivity = 990000, startTime = 900000,
                                         messageCount = 3\<rparr>],
        activeStreams := [''app-0'', ''app-1'', ''app-2'', ''app-3'', ''app-4'', ''app-5'',
                          ''app-6'', ''app-7'', ''app-8'', ''app-9'']\<rparr>"

text \<open>
  A process at time 1000000 with two sessions whose tokens read \<open>running\<close>: \<open>app-2\<close> started
  two minutes ago and was active 10 seconds ago, \<open>app-3\<close> started eight minutes ago and has
  been silent for six.
\<close>

definition twoStreams :: world where
  "twoStreams =
     initialWorld
       \<lparr>clock := 1000000,
        redisKeys := [streamStateKey ''app-2'' \<mapsto> (''running'', Some 1005000),
                      streamStateKey ''app-3'' \<mapsto> (''running'', None)],
        streamHealth := [''app-2'' \<mapsto> \<lparr>lastActivity = 990000, startTime = 880000,
                                         messageCount = 5\<rparr>,
                         ''app-3'' \<mapsto> \<lparr>lastActivity = 640000, startTime = 520000,
                                         messageCount = 1\<rparr>],
        activeStreams := [''app-3'', ''app-2'']\<rparr>"

text \<open>Collaborators that all do their part, and a producer that throws.\<close>

definition healthyCollaborators :: collaborators where
  "healthyCollaborators =
     \<lparr>sendMessage_hooks = [],
      sendMessage_result = Inr \<lparr>hasToUIMessageStreamResponse = True, hasResponseBody = True\<rparr>,
      createNewResumableStream_result = Inr True,
      getUnsavedMessages_result = Inr [],
      saveMessagesToMemory_result = Inr (),
      getApp_result = Inr True,
      requestDevServer_result = Inr ''https://mcp.example/dev''\<rparr>"

definition failingProducer :: collaborators where
  "failingProducer = healthyCollaborators\<lparr>sendMessage_result := Inl (Error ''model overloaded'')\<rparr>"

section \<open>chat-service.ts\<close>

text \<open>
  \<^verbatim>\<open>req.json()\<close> and its \<^verbatim>\<open>messages\<close> field: the parse may throw, the field may be missing.
\<close>

type_synonym request = "thrown + message list option"

definition manageStreamLifecycle :: "string \<Rightarrow> world \<Rightarrow> (thrown + unit) \<times> world" where
  "manageStreamLifecycle appId =
     andThen (isStreamRunning appId)
       (\<lambda>running w.
          if running
          then andThen (stopStream appId)
                 (\<lambda>_. andThen (waitForStreamToStop appId 60)
                        (\<lambda>stopped w'.
                           if \<not> stopped
                           then andThen (clearStreamState appId)
                                  (\<lambda>_ w''. (Inl (Error ''Previous stream is still shutting down, please try again''), w'')) w'
                           else (Inr (), w'))) w
          else (Inr (), w))"

definition handleStreamingFallback ::
  "collaborators \<Rightarrow> string \<Rightarrow> world \<Rightarrow> (thrown + Response) \<times> world" where
  "handleStreamingFallback c appId w =
     (case saveUnsaved c appId False w of
        (Inl fallbackError, w') \<Rightarrow>
          (Inl (Error ''Failed to process message. Please try again.''), w')
      | (Inr _, w') \<Rightarrow>
          (Inr (createStreamSuccessResponse
                  ''Message processed and saved to memory. Streaming will resume on next request.''),
           w'))"

definition mcpRetryOptions :: PartialRetryOptions where
  "mcpRetryOptions = noRetryOptions\<lparr>maxAttempts_opt := Some 2, baseDelay_opt := Some 500\<rparr>"

definition mcpBreakerOptions :: PartialCircuitBreakerOptions where
  "mcpBreakerOptions =
     noCircuitBreakerOptions\<lparr>failureThreshold_opt := Some 3, recoveryTimeout_opt := Some 15000\<rparr>"

definition streamingRetryOptions :: PartialRetryOptions where
  "streamingRetryOptions = noRetryOptions\<lparr>maxAttempts_opt := Some 2, baseDelay_opt := Some 1000\<rparr>"

definition streamingBreakerOptions :: PartialCircuitBreakerOptions where
  "streamingBreakerOptions =
     noCircuitBreakerOptions\<lparr>failureThreshold_opt := Some 2, recoveryTimeout_opt := Some 10000\<rparr>"

text \<open>
  The state of the process as \<^verbatim>\<open>processChatRequest\<close> sees it: the metrics, the circuit
  breakers, and the state of the stream manager.
\<close>

type_synonym process = "monitoring \<times> circuitBreakers \<times> world"

text \<open>
  The inner \<^verbatim>\<open>try\<close> and \<^verbatim>\<open>catch\<close>: streaming under retry and circuit breaker, and the
  fallback when that fails.
\<close>

definition tryStreaming ::
  "collaborators \<Rightarrow> string \<Rightarrow> message \<Rightarrow> int \<Rightarrow> process \<Rightarrow> (thrown + Response) \<times> process" where
  "tryStreaming c appId msg started = (\<lambda>(m, cbs, w).
     (case withResilience (sendMessageWithStreaming c appId msg) ''streaming''
             streamingRetryOptions streamingBreakerOptions (cbs, w) of
        (Inr resumableStream, cbs', w') \<Rightarrow>
          (case response resumableStream w' of
             (r, w'') \<Rightarrow> (Inr r, recordSuccess (real_of_int (clock w' - started)) m, cbs', w''))
      | (Inl streamError, cbs', w') \<Rightarrow>
          (case handleStreamingFallback c appId w' of
             (Inl e, w'') \<Rightarrow> (Inl e, m, cbs', w'')
           | (Inr fallbackResponse, w'') \<Rightarrow>
               (Inr fallbackResponse, recordSuccess (real_of_int (clock w'' - started)) m,
                cbs', w''))))"

text \<open>The outer \<^verbatim>\<open>try\<close> block.\<close>

definition processChatRequest_try ::
  "collaborators \<Rightarrow> request \<Rightarrow> string \<Rightarrow> int \<Rightarrow> process \<Rightarrow> (thrown + Response) \<times> process" where
  "processChatRequest_try c req appId started = (\<lambda>(m, cbs, w).
     (case req of
        Inl e \<Rightarrow> (Inl e, m, cbs, w)
      | Inr None \<Rightarrow> (Inl (Error ''No messages provided''), m, cbs, w)
      | Inr (Some []) \<Rightarrow> (Inl (Error ''No messages provided''), m, cbs, w)
      | Inr (Some (x # xs)) \<Rightarrow>
          (case getApp_result c of
             Inl e \<Rightarrow> (Inl e, m, cbs, w)
           | Inr False \<Rightarrow> (Inl (Error ''App not found''), m, cbs, w)
           | Inr True \<Rightarrow>
               (case manageStreamLifecycle appId w of
                  (Inl e, w1) \<Rightarrow> (Inl e, m, cbs, w1)
                | (Inr _, w1) \<Rightarrow>
                    (case withResilience (\<lambda>rt. (requestDevServer_result c, rt))
                            ''mcp-server-request'' mcpRetryOptions mcpBreakerOptions (cbs, w1) of
                       (Inl e, cbs2, w2) \<Rightarrow> (Inl e, m, cbs2, w2)
                     | (Inr mcpEphemeralUrl, cbs2, w2) \<Rightarrow>
                         tryStreaming c appId (last (x # xs)) started (m, cbs2, w2))))))"

definition processChatRequest ::
  "collaborators \<Rightarrow> request \<Rightarrow> string \<Rightarrow> process \<Rightarrow> Response \<times> process" where
  "processChatRequest c req appId = (\<lambda>(m, cbs, w).
     (let started = clock w
      in case processChatRequest_try c req appId started (m, cbs, w) of
           (Inr r, p) \<Rightarrow> (r, p)
         | (Inl error, m', cbs', w') \<Rightarrow>
             (handleError error ''chat-processing'',
              recordFailure (clock w') (real_of_int (clock w' - started)) ''chat-processing''
                (String error) m',
              cbs', w')))"

section \<open>Operations used as examples\<close>

text \<open>Operations that always reject, always resolve, and reject until time has passed.\<close>

definition failing :: "(unit, unit) operation" where
  "failing rt = (Inl (Error ''upstream unavailable''), rt)"

definition succeeding :: "(unit, unit) operation" where
  "succeeding rt = (Inr (), rt)"

definition flaky :: "(unit, unit) operation" where
  "flaky rt = (if clock rt < 2000 then Inl (Error ''read ECONNRESET'') else Inr (),
               rt\<lparr>clock := clock rt + 1\<rparr>)"

definition unreachable :: "(unit, unit) operation" where
  "unreachable rt = (Inl (Error ''getaddrinfo ENOTFOUND api.internal''),
                     rt\<lparr>clock := clock rt + 1\<rparr>)"

chapter \<open>Properties\<close>
section \<open>Properties of the numbers\<close>

lemmas double_arith =
  bitLength.simps jsAdd_def jsMul_def jsDiv_def toDouble_def ulp_def binaryExponent_def pow2_def
  roundHalfEven_def tiesToEven_def

lemma bitLength_bounds:
  "0 < n \<Longrightarrow> 2 ^ (bitLength n - 1) \<le> n \<and> n < 2 ^ bitLength n"
proof (induction n rule: bitLength.induct)
  case (1 n)
  show ?case
  proof (cases "n div 2 = 0")
    case True
    with "1.prems" have "n = 1" by auto
    then show ?thesis by (simp add: bitLength.simps)
  next
    case False
    then have pos: "0 < n div 2" by simp
    from "1.IH" "1.prems" pos
    have IH: "2 ^ (bitLength (n div 2) - 1) \<le> n div 2" "n div 2 < 2 ^ bitLength (n div 2)"
      by auto
    have b: "0 < bitLength (n div 2)"
      using pos by (subst bitLength.simps) simp
    have eq: "bitLength n = Suc (bitLength (n div 2))"
      using "1.prems" by (subst bitLength.simps) simp
    have "(2::nat) ^ bitLength (n div 2) = 2 * 2 ^ (bitLength (n div 2) - 1)"
      using b by (cases "bitLength (n div 2)") simp_all
    with IH have "2 ^ bitLength (n div 2) \<le> n" "n < 2 * 2 ^ bitLength (n div 2)"
      by linarith+
    then show ?thesis
      unfolding eq by simp
  qed
qed

lemma binaryExponent_lower:
  assumes "0 < a"
  shows "pow2 (binaryExponent a) \<le> a"
proof (cases "1 \<le> a")
  case True
  define n where "n = nat \<lfloor>a\<rfloor>"
  have n: "0 < n" "real n \<le> a"
    using True unfolding n_def by (simp_all add: le_nat_floor)
  from bitLength_bounds[OF n(1)] have "2 ^ (bitLength n - 1) \<le> n" by simp
  then have "(2::real) ^ (bitLength n - 1) \<le> real n"
    by (metis of_nat_le_iff of_nat_numeral of_nat_power)
  then have low: "(2::real) ^ (bitLength n - 1) \<le> a"
    using n(2) by (rule order_trans)
  have "0 < bitLength n"
    using n(1) by (subst bitLength.simps) simp
  then have "binaryExponent a = int (bitLength n - 1)"
    using True unfolding binaryExponent_def n_def by simp
  then show ?thesis
    using low unfolding pow2_def by simp
next
  case False
  define n where "n = nat (\<lceil>1 / a\<rceil> - 1)"
  have "a < 1" using False by simp
  then have "1 < 1 / a" using assms by (simp add: field_simps)
  then have c: "2 \<le> \<lceil>1 / a\<rceil>" by linarith
  then have n: "0 < n" "int n + 1 = \<lceil>1 / a\<rceil>" unfolding n_def by arith+
  from bitLength_bounds[OF n(1)] have "n < 2 ^ bitLength n" by simp
  then have "int n + 1 \<le> 2 ^ bitLength n"
    by (metis Suc_leI of_nat_Suc of_nat_le_iff of_nat_numeral of_nat_power add.commute of_nat_1 of_nat_add)
  then have "\<lceil>1 / a\<rceil> \<le> 2 ^ bitLength n" using n(2) by simp
  then have "1 / a \<le> 2 ^ bitLength n"
    by (metis ceiling_le_iff of_int_numeral of_int_power)
  then have "1 / 2 ^ bitLength n \<le> a"
    using assms by (simp add: field_simps)
  moreover have "binaryExponent a = - int (bitLength n)"
    using False unfolding binaryExponent_def n_def by simp
  ultimately show ?thesis
    unfolding pow2_def by (simp add: power_int_minus_divide)
qed

lemma roundHalfEven_error:
  "\<bar>of_int (roundHalfEven y) - y\<bar> \<le> 1 / 2"
  unfolding roundHalfEven_def tiesToEven_def
  by (auto simp: abs_if) linarith+

lemma pow2_pos: "0 < pow2 k"
  by (simp add: pow2_def)

lemma ulp_pos: "0 < ulp a"
  by (simp add: ulp_def pow2_pos)

lemma toDouble_error:
  assumes "0 < x"
  shows "\<bar>toDouble x - x\<bar> \<le> ulp x / 2"
proof -
  have "toDouble x - x = (of_int (roundHalfEven (x / ulp x)) - x / ulp x) * ulp x"
    using assms ulp_pos[of x] by (simp add: toDouble_def field_simps)
  then have "\<bar>toDouble x - x\<bar> = \<bar>of_int (roundHalfEven (x / ulp x)) - x / ulp x\<bar> * ulp x"
    using ulp_pos[of x] by (simp add: abs_mult)
  also have "\<dots> \<le> 1 / 2 * ulp x"
    using roundHalfEven_error[of "x / ulp x"] ulp_pos[of x] by (intro mult_right_mono) simp_all
  finally show ?thesis by simp
qed

lemma ulp_normal:
  assumes "1 / 2 ^ 1022 \<le> x"
  shows "ulp x \<le> x / 2 ^ 52"
proof -
  have x: "0 < x" using assms by (rule less_le_trans[rotated]) simp
  have l: "pow2 (binaryExponent x) \<le> x" by (rule binaryExponent_lower[OF x])
  have a: "pow2 (binaryExponent x - 52) = pow2 (binaryExponent x) / 2 ^ 52"
    unfolding pow2_def by (simp add: power_int_diff)
  have b: "pow2 (- 1074) \<le> x / 2 ^ 52"
    using assms unfolding pow2_def by (simp add: field_simps)
  show ?thesis
  proof (cases "binaryExponent x - 52 \<le> - 1074")
    case True
    then show ?thesis using b by (simp add: ulp_def max_def)
  next
    case False
    then have "ulp x = pow2 (binaryExponent x - 52)" by (simp add: ulp_def max_def)
    then show ?thesis using a l by (simp add: field_simps)
  qed
qed

lemma toDouble_relative:
  assumes "1 / 2 ^ 1022 \<le> x"
  shows "\<bar>toDouble x - x\<bar> \<le> x / 2 ^ 53"
proof -
  have x: "0 < x" using assms by (rule less_le_trans[rotated]) simp
  from toDouble_error[OF x] ulp_normal[OF assms] show ?thesis by simp
qed

lemma rate_error:
  assumes "0 < t" "s \<le> t" "t < 2 ^ 53"
  shows "\<bar>jsMul (jsDiv (real s) (real t)) 100 - 100 * real s / real t\<bar>
           \<le> (100 * real s / real t) / 2 ^ 51"
proof (cases "s = 0")
  case True
  then show ?thesis by (simp add: jsMul_def jsDiv_def toDouble_def)
next
  case False
  define q where "q = real s / real t"
  define r where "r = toDouble q"
  have t: "real t < 2 ^ 53"
    using assms(3) by (metis of_nat_less_iff of_nat_numeral of_nat_power)
  have "1 \<le> real s" using False by simp
  then have "1 / real t \<le> q"
    unfolding q_def using assms(1) by (simp add: divide_right_mono)
  moreover have "1 / 2 ^ 53 < 1 / real t"
    using t assms(1) by (simp add: field_simps)
  ultimately have q53: "1 / 2 ^ 53 < q" by simp
  have small: "(1::real) / 2 ^ 1022 \<le> 1 / 2 ^ 54" by simp
  have q: "1 / 2 ^ 1022 \<le> q" using q53 small by simp
  have e1: "\<bar>r - q\<bar> \<le> q / 2 ^ 53"
    unfolding r_def by (rule toDouble_relative[OF q])
  have qpos: "0 < q" using q53 by (rule less_trans[rotated]) simp
  have "q / 2 ^ 53 \<le> q / 2" using qpos by simp
  with e1 have e1': "\<bar>r - q\<bar> \<le> q / 2" by simp
  have rlow: "q / 2 \<le> r" using e1' by linarith
  have rhigh: "r \<le> 2 * q" using e1' qpos by linarith
  have "1 / 2 ^ 1022 \<le> r * 100" using rlow q53 small by simp
  from toDouble_relative[OF this]
  have e2: "\<bar>toDouble (r * 100) - r * 100\<bar> \<le> r * 100 / 2 ^ 53" .
  have "toDouble (r * 100) - 100 * q = (toDouble (r * 100) - r * 100) + 100 * (r - q)"
    by simp
  then have "\<bar>toDouble (r * 100) - 100 * q\<bar> \<le> \<bar>toDouble (r * 100) - r * 100\<bar> + \<bar>100 * (r - q)\<bar>"
    by (metis abs_triangle_ineq)
  also have "\<dots> = \<bar>toDouble (r * 100) - r * 100\<bar> + 100 * \<bar>r - q\<bar>"
    by (subst abs_mult) simp
  also have "\<dots> \<le> r * 100 / 2 ^ 53 + 100 * (q / 2 ^ 53)"
    using e1 e2 by simp
  also have "\<dots> \<le> (2 * q) * 100 / 2 ^ 53 + 100 * (q / 2 ^ 53)"
    using rhigh by simp
  also have "\<dots> \<le> 100 * q / 2 ^ 51"
    using qpos by simp
  finally show ?thesis
    unfolding jsMul_def jsDiv_def r_def q_def by simp
qed

lemma one_of_one: "jsMul (jsDiv 1 1) 100 = 100"
  by (simp add: double_arith)

lemma no_time: "jsDiv (jsAdd 0 0) 1 = 0"
  by (simp add: double_arith)


section \<open>Properties of the error handler\<close>

lemma includesStr_iff: "includesStr s p \<longleftrightarrow> (\<exists>u v. s = u @ p @ v)"
proof (induction s)
  case Nil
  then show ?case by auto
next
  case (Cons c cs)
  show ?case
  proof
    assume "includesStr (c # cs) p"
    then consider "prefix p (c # cs)" | "includesStr cs p" by auto
    then show "\<exists>u v. c # cs = u @ p @ v"
    proof cases
      case 1
      then obtain v where "c # cs = p @ v" by (auto simp: prefix_def)
      then have "c # cs = [] @ p @ v" by simp
      then show ?thesis by blast
    next
      case 2
      then obtain u v where "cs = u @ p @ v" using Cons.IH by blast
      then have "c # cs = (c # u) @ p @ v" by simp
      then show ?thesis by blast
    qed
  next
    assume "\<exists>u v. c # cs = u @ p @ v"
    then obtain u v where uv: "c # cs = u @ p @ v" by blast
    show "includesStr (c # cs) p"
    proof (cases u)
      case Nil
      then have "prefix p (c # cs)" using uv by (simp add: prefix_def)
      then show ?thesis by simp
    next
      case (Cons a u')
      then have "cs = u' @ p @ v" using uv by simp
      then have "includesStr cs p" using Cons.IH by blast
      then show ?thesis by simp
    qed
  qed
qed

text \<open>
  Claim C8, as the code has it.  Whatever is thrown and whatever the context, the message
  in the response of \<open>handleError\<close> is: the fixed connection message when the error
  message contains \<^verbatim>\<open>ECONN\<close> or \<^verbatim>\<open>ENOTFOUND\<close>; otherwise the fixed time-out message when
  it contains \<^verbatim>\<open>timeout\<close> (in lower case); the fixed generic message when the thrown value
  is not an \<^verbatim>\<open>Error\<close>; and the error's own message, unchanged, in every other case.
\<close>

theorem handleError_curated_or_verbatim:
  "errorText (body (handleError e ctx)) =
     Some (case e of
             NonError \<Rightarrow> ''An unexpected error occurred. Please try again.''
           | Error m \<Rightarrow>
               if (\<exists>u v. m = u @ ''ECONN'' @ v) \<or> (\<exists>u v. m = u @ ''ENOTFOUND'' @ v)
               then ''Connection issue. Please try again.''
               else if (\<exists>u v. m = u @ ''timeout'' @ v)
               then ''Request timed out. Please try again.''
               else m)"
proof (cases e)
  case (Error m)
  have "errorText (body (handleError e ctx)) = Some (getErrorMessage e)"
    by (simp add: handleError_def Let_def)
  then show ?thesis
    using Error by (simp add: includesStr_iff)
next
  case NonError
  then show ?thesis by (simp add: handleError_def Let_def)
qed

text \<open>One error of each kind.\<close>

theorem handleError_curated_or_verbatim_witness:
  "errorText (body (handleError (Error ''connect ECONNREFUSED 127.0.0.1:6379'') ''chat-processing''))
     = Some ''Connection issue. Please try again.''
   \<and> errorText (body (handleError (Error ''Request timeout after 30s'') ''chat-processing''))
     = Some ''Request timed out. Please try again.''
   \<and> errorText (body (handleError (Error ''App not found'') ''request-validation''))
     = Some ''App not found''
   \<and> errorText (body (handleError NonError ''chat-processing''))
     = Some ''An unexpected error occurred. Please try again.''"
proof -
  have a: "includesStr ''connect ECONNREFUSED 127.0.0.1:6379'' ''ECONN''" by simp
  have b: "\<not> includesStr ''Request timeout after 30s'' ''ECONN''"
          "\<not> includesStr ''Request timeout after 30s'' ''ENOTFOUND''"
          "includesStr ''Request timeout after 30s'' ''timeout''" by simp_all
  have c: "\<not> includesStr ''App not found'' ''ECONN''"
          "\<not> includesStr ''App not found'' ''ENOTFOUND''"
          "\<not> includesStr ''App not found'' ''timeout''" by simp_all
  show ?thesis
    using handleError_curated_or_verbatim [of "Error ''connect ECONNREFUSED 127.0.0.1:6379''" "''chat-processing''"]
      handleError_curated_or_verbatim [of "Error ''Request timeout after 30s''" "''chat-processing''"]
      handleError_curated_or_verbatim [of "Error ''App not found''" "''request-validation''"]
      handleError_curated_or_verbatim [of NonError "''chat-processing''"]
      a b c
    unfolding includesStr_iff by simp
qed

text \<open>
  Claim C8 as stated fails: an error whose message matches none of the three patterns
  reaches the caller word for word, host name and port included, and so does a time-out
  reported as \<^verbatim>\<open>ETIMEDOUT\<close>.
\<close>

theorem raw_error_detail_reaches_caller:
  "errorText (body (handleError (Error ''getaddrinfo EAI_AGAIN redis.internal:6379'') ''chat-processing''))
     = Some ''getaddrinfo EAI_AGAIN redis.internal:6379''
   \<and> errorText (body (handleError (Error ''connect ETIMEDOUT 10.0.0.5:443'') ''chat-processing''))
     = Some ''connect ETIMEDOUT 10.0.0.5:443''"
  by (simp add: handleError_def Let_def)


section \<open>Properties of the metrics\<close>

lemma record1_consistent:
  assumes "totalRequests (metrics_performance m) =
             successfulRequests (metrics_performance m) + failedRequests (metrics_performance m)"
      and "successRate (metrics_performance m) =
             (if totalRequests (metrics_performance m) > 0
              then jsMul (jsDiv (real (successfulRequests (metrics_performance m)))
                                (real (totalRequests (metrics_performance m)))) 100
              else 100)"
  shows "totalRequests (metrics_performance (record1 m r)) =
             successfulRequests (metrics_performance (record1 m r)) + failedRequests (metrics_performance (record1 m r))
     \<and> successRate (metrics_performance (record1 m r)) =
             (if totalRequests (metrics_performance (record1 m r)) > 0
              then jsMul (jsDiv (real (successfulRequests (metrics_performance (record1 m r))))
                                (real (totalRequests (metrics_performance (record1 m r))))) 100
              else 100)"
  using assms
  by (cases r)
     (simp_all add: recordSuccess_def recordFailure_def recordError_def recordRequestTime_def
        updateSuccessRate_def Let_def)

lemma foldl_consistent:
  assumes "totalRequests (metrics_performance m) =
             successfulRequests (metrics_performance m) + failedRequests (metrics_performance m)"
      and "successRate (metrics_performance m) =
             (if totalRequests (metrics_performance m) > 0
              then jsMul (jsDiv (real (successfulRequests (metrics_performance m)))
                                (real (totalRequests (metrics_performance m)))) 100
              else 100)"
  shows "totalRequests (metrics_performance (foldl record1 m rs)) =
             successfulRequests (metrics_performance (foldl record1 m rs)) + failedRequests (metrics_performance (foldl record1 m rs))
     \<and> successRate (metrics_performance (foldl record1 m rs)) =
             (if totalRequests (metrics_performance (foldl record1 m rs)) > 0
              then jsMul (jsDiv (real (successfulRequests (metrics_performance (foldl record1 m rs))))
                                (real (totalRequests (metrics_performance (foldl record1 m rs))))) 100
              else 100)"
  using assms
proof (induction rs arbitrary: m)
  case Nil
  then show ?case by simp
next
  case (Cons r rs)
  show ?case
    unfolding foldl_Cons
    by (rule Cons.IH) (use record1_consistent[OF Cons.prems] in simp_all)
qed

lemma recordAll_consistent_both:
  "totalRequests (metrics_performance (recordAll rs)) =
     successfulRequests (metrics_performance (recordAll rs))
       + failedRequests (metrics_performance (recordAll rs))
   \<and> successRate (metrics_performance (recordAll rs)) =
       (if totalRequests (metrics_performance (recordAll rs)) > 0
        then jsMul (jsDiv (real (successfulRequests (metrics_performance (recordAll rs))))
                          (real (totalRequests (metrics_performance (recordAll rs))))) 100
        else 100)"
  unfolding recordAll_def
  by (rule foldl_consistent) (simp_all add: initialMonitoring_def)

lemmas recordAll_consistent =
  recordAll_consistent_both[THEN conjunct1] recordAll_consistent_both[THEN conjunct2]

lemma two_thirds: "jsMul (jsDiv 2 3) 100 = 4691249611844266 / 2 ^ 46"
  by (simp add: double_arith)

lemma two_of_three:
  "totalRequests (metrics_performance (recordAll [Success 120, Failure 1700000000000 45 ''chat-processing'' ''Error: App not found'', Success 80])) = 3"
  "successfulRequests (metrics_performance (recordAll [Success 120, Failure 1700000000000 45 ''chat-processing'' ''Error: App not found'', Success 80])) = 2"
  "failedRequests (metrics_performance (recordAll [Success 120, Failure 1700000000000 45 ''chat-processing'' ''Error: App not found'', Success 80])) = 1"
  "successRate (metrics_performance (recordAll [Success 120, Failure 1700000000000 45 ''chat-processing'' ''Error: App not found'', Success 80]))
     = jsMul (jsDiv 2 3) 100"
  by (simp_all add: recordAll_def recordSuccess_def recordFailure_def recordError_def
      recordRequestTime_def updateSuccessRate_def initialMonitoring_def Let_def
      MAX_REQUEST_TIMES_def MAX_ERRORS_def)

text \<open>
  Claim C10, as the code has it.  After any sequence of \<open>recordSuccess\<close> and
  \<open>recordFailure\<close> calls from the initial state, \<open>totalRequests\<close> is
  \<open>successfulRequests + failedRequests\<close>.  When a request has been recorded, \<open>successRate\<close>
  is what \<^verbatim>\<open>(successfulRequests / totalRequests) * 100\<close> gives in double arithmetic: the
  quotient rounded to a double, multiplied by 100 and rounded again; with fewer than
  \<open>2 ^ 53\<close> requests it is within a relative error of \<open>1 / 2 ^ 51\<close> of
  \<open>100 * successfulRequests / totalRequests\<close>.  When none has been recorded it is \<open>100\<close>.
\<close>

theorem monitoring_counters_consistent:
  "totalRequests (metrics_performance (recordAll rs)) =
     successfulRequests (metrics_performance (recordAll rs))
       + failedRequests (metrics_performance (recordAll rs))
   \<and> successRate (metrics_performance (recordAll rs)) =
       (if totalRequests (metrics_performance (recordAll rs)) > 0
        then jsMul (jsDiv (real (successfulRequests (metrics_performance (recordAll rs))))
                          (real (totalRequests (metrics_performance (recordAll rs))))) 100
        else 100)
   \<and> (0 < totalRequests (metrics_performance (recordAll rs))
        \<and> totalRequests (metrics_performance (recordAll rs)) < 2 ^ 53 \<longrightarrow>
      \<bar>successRate (metrics_performance (recordAll rs))
         - 100 * real (successfulRequests (metrics_performance (recordAll rs)))
             / real (totalRequests (metrics_performance (recordAll rs)))\<bar>
        \<le> (100 * real (successfulRequests (metrics_performance (recordAll rs)))
             / real (totalRequests (metrics_performance (recordAll rs)))) / 2 ^ 51)"
proof (intro conjI impI)
  show "totalRequests (metrics_performance (recordAll rs)) =
     successfulRequests (metrics_performance (recordAll rs))
       + failedRequests (metrics_performance (recordAll rs))"
    by (rule recordAll_consistent(1))
  show "successRate (metrics_performance (recordAll rs)) =
       (if totalRequests (metrics_performance (recordAll rs)) > 0
        then jsMul (jsDiv (real (successfulRequests (metrics_performance (recordAll rs))))
                          (real (totalRequests (metrics_performance (recordAll rs))))) 100
        else 100)"
    by (rule recordAll_consistent(2))
next
  assume b: "0 < totalRequests (metrics_performance (recordAll rs))
        \<and> totalRequests (metrics_performance (recordAll rs)) < 2 ^ 53"
  have le: "successfulRequests (metrics_performance (recordAll rs))
              \<le> totalRequests (metrics_performance (recordAll rs))"
    unfolding recordAll_consistent(1)[of rs] by simp
  have rate: "successRate (metrics_performance (recordAll rs)) =
        jsMul (jsDiv (real (successfulRequests (metrics_performance (recordAll rs))))
                     (real (totalRequests (metrics_performance (recordAll rs))))) 100"
    using recordAll_consistent(2)[of rs] b by simp
  show "\<bar>successRate (metrics_performance (recordAll rs))
         - 100 * real (successfulRequests (metrics_performance (recordAll rs)))
             / real (totalRequests (metrics_performance (recordAll rs)))\<bar>
        \<le> (100 * real (successfulRequests (metrics_performance (recordAll rs)))
             / real (totalRequests (metrics_performance (recordAll rs)))) / 2 ^ 51"
    unfolding rate using b le by (intro rate_error) simp_all
qed

text \<open>
  Two successes and a failure: three requests, and a rate of \<open>4691249611844266 / 2 ^ 46\<close>,
  the double that prints as \<^verbatim>\<open>66.66666666666666\<close>.  No request: a rate of \<open>100\<close>.
\<close>

theorem monitoring_counters_consistent_witness:
  "totalRequests (metrics_performance (recordAll [Success 120, Failure 1700000000000 45 ''chat-processing'' ''Error: App not found'', Success 80])) = 3
   \<and> successfulRequests (metrics_performance (recordAll [Success 120, Failure 1700000000000 45 ''chat-processing'' ''Error: App not found'', Success 80])) = 2
   \<and> failedRequests (metrics_performance (recordAll [Success 120, Failure 1700000000000 45 ''chat-processing'' ''Error: App not found'', Success 80])) = 1
   \<and> successRate (metrics_performance (recordAll [Success 120, Failure 1700000000000 45 ''chat-processing'' ''Error: App not found'', Success 80]))
       = jsMul (jsDiv 2 3) 100
   \<and> jsMul (jsDiv 2 3) 100 = 4691249611844266 / 2 ^ 46
   \<and> \<bar>successRate (metrics_performance (recordAll [Success 120, Failure 1700000000000 45 ''chat-processing'' ''Error: App not found'', Success 80]))
        - 100 * 2 / 3\<bar> \<le> (100 * 2 / 3) / 2 ^ 51
   \<and> successRate (metrics_performance (recordAll [])) = 100"
proof -
  note inst = monitoring_counters_consistent
    [of "[Success 120, Failure 1700000000000 45 ''chat-processing'' ''Error: App not found'', Success 80]"]
  note none = monitoring_counters_consistent [of "[]"]
  have empty: "totalRequests (metrics_performance (recordAll [])) = 0"
    by (simp add: recordAll_def initialMonitoring_def)
  show ?thesis
    using inst none unfolding two_of_three empty by (simp add: two_thirds)
qed

text \<open>
  Claim C10 as the specification states it does not hold.  After two successes and a
  failure the rate is \<open>4691249611844266 / 2 ^ 46\<close>, which is neither
  \<open>100 * successfulRequests / totalRequests\<close>, that is \<open>200 / 3\<close>, nor the double nearest to
  it, \<open>4691249611844267 / 2 ^ 46\<close>: the quotient is rounded before it is multiplied.
\<close>

theorem success_rate_is_rounded_twice:
  "successRate (metrics_performance (recordAll [Success 120, Failure 1700000000000 45 ''chat-processing'' ''Error: App not found'', Success 80]))
     = 4691249611844266 / 2 ^ 46
   \<and> successRate (metrics_performance (recordAll [Success 120, Failure 1700000000000 45 ''chat-processing'' ''Error: App not found'', Success 80]))
     \<noteq> 100 * real (successfulRequests (metrics_performance (recordAll [Success 120, Failure 1700000000000 45 ''chat-processing'' ''Error: App not found'', Success 80])))
         / real (totalRequests (metrics_performance (recordAll [Success 120, Failure 1700000000000 45 ''chat-processing'' ''Error: App not found'', Success 80])))
   \<and> toDouble (100 * 2 / 3) = 4691249611844267 / 2 ^ 46"
  unfolding two_of_three two_thirds by (simp add: double_arith)


section \<open>Properties of the retry loop\<close>

lemma sleeps_sleep [simp]: "sleeps (sleep ms rt) = sleeps rt @ [ms]"
  by (simp add: sleep_def)

lemma clock_sleep [simp]: "clock (sleep ms rt) = clock rt + max 0 ms"
  by (simp add: sleep_def)

lemma withRetry_from_sleeps:
  "\<forall>rt. \<exists>m. fst (operation rt) = Inl (Error m)
                      \<and> Resilience_isRetryableError (Error m)
                      \<and> sleeps (snd (operation rt)) = sleeps rt \<Longrightarrow>
   1 \<le> attempt \<Longrightarrow>
         sleeps (snd (withRetry_from operation ctx config attempt rt)) =
           sleeps rt @ map (\<lambda>k. min (baseDelay config * backoffMultiplier config ^ k) (maxDelay config))
                         [nat (attempt - 1) ..< nat (maxAttempts config - 1)]"
proof (induction operation ctx config attempt rt rule: withRetry_from.induct)
  case (1 operation ctx config attempt rt)
  obtain m where m: "fst (operation rt) = Inl (Error m)" "Resilience_isRetryableError (Error m)"
      "sleeps (snd (operation rt)) = sleeps rt"
    using "1.prems"(1) by blast
  obtain rt' where op: "operation rt = (Inl (Error m), rt')" and rt': "sleeps rt' = sleeps rt"
    using m by (cases "operation rt") auto
  show ?case
  proof (cases "attempt \<le> maxAttempts config")
    case False
    then have "nat (maxAttempts config - 1) \<le> nat (attempt - 1)" by simp
    then show ?thesis using False by (simp add: withRetry_from.simps[of operation ctx config attempt rt])
  next
    case le: True
    show ?thesis
    proof (cases "attempt = maxAttempts config")
      case True
      then show ?thesis using op rt'
        by (simp add: withRetry_from.simps[of operation ctx config attempt rt])
    next
      case False
      have IH: "sleeps (snd (withRetry_from operation ctx config (attempt + 1)
                   (sleep (calculateBackoffDelay attempt config) rt'))) =
                sleeps (sleep (calculateBackoffDelay attempt config) rt') @
                  map (\<lambda>k. min (baseDelay config * backoffMultiplier config ^ k) (maxDelay config))
                    [nat (attempt + 1 - 1) ..< nat (maxAttempts config - 1)]"
        using "1.IH"[OF le op[symmetric] refl False _ "1.prems"(1)] m(2) "1.prems"(2) by simp
      have lt: "nat (attempt - 1) < nat (maxAttempts config - 1)"
        using le False "1.prems"(2) by simp
      have up: "[nat (attempt - 1) ..< nat (maxAttempts config - 1)] =
                 nat (attempt - 1) # [nat (attempt + 1 - 1) ..< nat (maxAttempts config - 1)]"
        using lt "1.prems"(2) by (simp add: upt_conv_Cons nat_add_distrib Suc_nat_eq_nat_zadd1)
      have "withRetry_from operation ctx config attempt rt =
              withRetry_from operation ctx config (attempt + 1)
                (sleep (calculateBackoffDelay attempt config) rt')"
        using le False op m(2)
        by (simp add: withRetry_from.simps[of operation ctx config attempt rt])
      then show ?thesis
        using IH rt' up by (simp add: calculateBackoffDelay_def Let_def)
    qed
  qed
qed

lemma withRetry_from_prefix:
  "\<forall>rt. sleeps (snd (operation rt)) = sleeps rt \<Longrightarrow>
   1 \<le> attempt \<Longrightarrow>
   \<exists>n. nat (attempt - 1) \<le> n \<and> n \<le> max (nat (attempt - 1)) (nat (maxAttempts config - 1))
     \<and> sleeps (snd (withRetry_from operation ctx config attempt rt)) =
           sleeps rt @ map (\<lambda>k. min (baseDelay config * backoffMultiplier config ^ k) (maxDelay config))
                         [nat (attempt - 1) ..< n]"
proof (induction operation ctx config attempt rt rule: withRetry_from.induct)
  case (1 operation ctx config attempt rt)
  obtain r rt' where op: "operation rt = (r, rt')" by (cases "operation rt")
  then have rt': "sleeps rt' = sleeps rt" using "1.prems"(1) by (metis snd_conv)
  let ?stop = "\<exists>n. nat (attempt - 1) \<le> n
       \<and> n \<le> max (nat (attempt - 1)) (nat (maxAttempts config - 1))
       \<and> sleeps rt = sleeps rt @ map (\<lambda>k. min (baseDelay config * backoffMultiplier config ^ k)
                                          (maxDelay config)) [nat (attempt - 1) ..< n]"
  have stop: ?stop by (intro exI[of _ "nat (attempt - 1)"]) simp
  show ?case
  proof (cases "attempt \<le> maxAttempts config \<and> (\<exists>e. r = Inl e \<and> attempt \<noteq> maxAttempts config
                   \<and> Resilience_isRetryableError e)")
    case False
    then have "sleeps (snd (withRetry_from operation ctx config attempt rt)) = sleeps rt"
      using op rt'
      by (subst withRetry_from.simps) (auto simp del: withRetry_from.simps split: sum.splits)
    then show ?thesis using stop by simp
  next
    case True
    then obtain e where e: "r = Inl e" "attempt \<noteq> maxAttempts config"
        "Resilience_isRetryableError e" and le: "attempt \<le> maxAttempts config"
      by blast
    from "1.IH"[OF le op[symmetric] e(1) e(2) _ "1.prems"(1)] e(3) "1.prems"(2)
    obtain n where n: "nat (attempt + 1 - 1) \<le> n"
        "n \<le> max (nat (attempt + 1 - 1)) (nat (maxAttempts config - 1))"
        "sleeps (snd (withRetry_from operation ctx config (attempt + 1)
                   (sleep (calculateBackoffDelay attempt config) rt'))) =
           sleeps (sleep (calculateBackoffDelay attempt config) rt') @
             map (\<lambda>k. min (baseDelay config * backoffMultiplier config ^ k) (maxDelay config))
               [nat (attempt + 1 - 1) ..< n]"
      by auto
    have step: "withRetry_from operation ctx config attempt rt =
              withRetry_from operation ctx config (attempt + 1)
                (sleep (calculateBackoffDelay attempt config) rt')"
      using le e op
      by (subst withRetry_from.simps) (simp del: withRetry_from.simps)
    have suc: "nat (attempt + 1 - 1) = Suc (nat (attempt - 1))"
      using "1.prems"(2) by simp
    have up: "[nat (attempt - 1) ..< n] = nat (attempt - 1) # [nat (attempt + 1 - 1) ..< n]"
      using n(1) suc by (simp add: upt_conv_Cons)
    have bound: "n \<le> max (nat (attempt - 1)) (nat (maxAttempts config - 1))"
      using n(2) le e(2) "1.prems"(2) by simp
    have "nat (attempt - 1) \<le> n" using n(1) suc by simp
    moreover have "sleeps (snd (withRetry_from operation ctx config attempt rt)) =
           sleeps rt @ map (\<lambda>k. min (baseDelay config * backoffMultiplier config ^ k) (maxDelay config))
                         [nat (attempt - 1) ..< n]"
      unfolding step n(3) up using rt'
      by (simp add: sleep_def calculateBackoffDelay_def Let_def)
    ultimately show ?thesis using bound by blast
  qed
qed

text \<open>
  Claim C7.  With the default \<open>baseDelay = 1000\<close>, \<open>backoffMultiplier = 2\<close> and
  \<open>maxDelay = 10000\<close>, and an operation that does not sleep itself, the delays \<open>withRetry\<close>
  sleeps are \<open>min (1000 * 2 ^ k) 10000\<close> for \<open>k = 0, 1, 2, \<dots>\<close>, one before each retry,
  at most one less than there are attempts; and exactly that many when every attempt
  fails with a retryable error.  The delays after attempts 1 to 6 are 1000, 2000, 4000,
  8000, 10000, 10000, and the delay stays at 10000 from attempt 5 on.
\<close>

theorem retry_backoff_schedule:
  assumes "\<forall>rt. sleeps (snd (operation rt)) = sleeps rt"
      and "baseDelay_opt options = None" and "maxDelay_opt options = None"
      and "backoffMultiplier_opt options = None"
  shows "(\<exists>n \<le> nat (maxAttempts (retryConfig options) - 1).
            sleeps (snd (withRetry operation ctx options rt)) =
              sleeps rt @ map (\<lambda>k. min (1000 * 2 ^ k) 10000) [0 ..< n])
         \<and> ((\<forall>rt. \<exists>m. fst (operation rt) = Inl (Error m) \<and> Resilience_isRetryableError (Error m))
            \<longrightarrow> sleeps (snd (withRetry operation ctx options rt)) =
                  sleeps rt @ map (\<lambda>k. min (1000 * 2 ^ k) 10000)
                                [0 ..< nat (maxAttempts (retryConfig options) - 1)])
         \<and> map (\<lambda>attempt. calculateBackoffDelay attempt defaultRetryOptions) [1, 2, 3, 4, 5, 6]
             = [1000, 2000, 4000, 8000, 10000, 10000]
         \<and> (\<forall>attempt. 5 \<le> attempt \<longrightarrow> calculateBackoffDelay attempt defaultRetryOptions = 10000)"
proof -
  have cfg: "baseDelay (retryConfig options) = 1000" "maxDelay (retryConfig options) = 10000"
      "backoffMultiplier (retryConfig options) = 2"
    using assms(2-4) by (simp_all add: retryConfig_def defaultRetryOptions_def)
  have prefix: "\<exists>n \<le> nat (maxAttempts (retryConfig options) - 1).
            sleeps (snd (withRetry operation ctx options rt)) =
              sleeps rt @ map (\<lambda>k. min (1000 * 2 ^ k) 10000) [0 ..< n]"
    unfolding withRetry_def
    using withRetry_from_prefix[OF assms(1), of 1 "retryConfig options" ctx rt] cfg by auto
  have first: "sleeps (snd (withRetry operation ctx options rt)) =
           sleeps rt @ map (\<lambda>k. min (1000 * 2 ^ k) 10000)
                         [0 ..< nat (maxAttempts (retryConfig options) - 1)]"
    if "\<forall>rt. \<exists>m. fst (operation rt) = Inl (Error m) \<and> Resilience_isRetryableError (Error m)"
  proof -
    have "\<forall>rt. \<exists>m. fst (operation rt) = Inl (Error m)
                 \<and> Resilience_isRetryableError (Error m)
                 \<and> sleeps (snd (operation rt)) = sleeps rt"
      using that assms(1) by blast
    from withRetry_from_sleeps[OF this, of 1 ctx "retryConfig options" rt] cfg
    show ?thesis unfolding withRetry_def by simp
  qed
  have second: "map (\<lambda>attempt. calculateBackoffDelay attempt defaultRetryOptions) [1, 2, 3, 4, 5, 6]
             = [1000, 2000, 4000, 8000, 10000, 10000]"
    by (simp add: calculateBackoffDelay_def defaultRetryOptions_def Let_def)
  have third: "calculateBackoffDelay attempt defaultRetryOptions = 10000" if "5 \<le> attempt" for attempt
  proof -
    have "4 \<le> nat (attempt - 1)" using that by simp
    then have "(2::int) ^ 4 \<le> 2 ^ nat (attempt - 1)"
      by (intro power_increasing) simp_all
    then have "(10000::int) \<le> 1000 * 2 ^ nat (attempt - 1)" by simp
    then show ?thesis
      by (simp add: calculateBackoffDelay_def defaultRetryOptions_def Let_def)
  qed
  show ?thesis using prefix first second third by blast
qed

text \<open>Seven attempts give six delays; the default three attempts give two.\<close>

theorem retry_backoff_schedule_witness:
  "sleeps (snd (withRetry (\<lambda>rt::runtime. (Inl (Error ''connect ETIMEDOUT'') :: thrown + unit, rt))
             ''streaming'' (noRetryOptions\<lparr>maxAttempts_opt := Some 7\<rparr>) \<lparr>clock = 0, sleeps = []\<rparr>))
     = [1000, 2000, 4000, 8000, 10000, 10000]
   \<and> sleeps (snd (withRetry (\<lambda>rt::runtime. (Inl (Error ''connect ETIMEDOUT'') :: thrown + unit, rt))
             ''streaming'' noRetryOptions \<lparr>clock = 0, sleeps = []\<rparr>))
     = [1000, 2000]
   \<and> calculateBackoffDelay 9 defaultRetryOptions = 10000"
proof -
  let ?op = "\<lambda>rt::runtime. (Inl (Error ''connect ETIMEDOUT'') :: thrown + unit, rt)"
  have quiet: "\<forall>rt. sleeps (snd (?op rt)) = sleeps rt" by simp
  have fails: "\<forall>rt. \<exists>m. fst (?op rt) = Inl (Error m) \<and> Resilience_isRetryableError (Error m)"
    by (simp add: Resilience_retryableErrors_def)
  have ups: "[0..<6] = [0, 1, 2, 3, 4, 5::nat]" "[0..<2] = [0, 1::nat]"
    by (simp_all add: upt_rec)
  have "sleeps (snd (withRetry ?op ''streaming''
             (noRetryOptions\<lparr>maxAttempts_opt := Some 7\<rparr>) \<lparr>clock = 0, sleeps = []\<rparr>))
     = [1000, 2000, 4000, 8000, 10000, 10000]"
    using retry_backoff_schedule [OF quiet, of "noRetryOptions\<lparr>maxAttempts_opt := Some 7\<rparr>"
        "''streaming''" "\<lparr>clock = 0, sleeps = []\<rparr>"] fails
    by (simp add: noRetryOptions_def retryConfig_def ups)
  moreover have "sleeps (snd (withRetry ?op ''streaming''
             noRetryOptions \<lparr>clock = 0, sleeps = []\<rparr>))
     = [1000, 2000]"
    using retry_backoff_schedule [OF quiet, of noRetryOptions
        "''streaming''" "\<lparr>clock = 0, sleeps = []\<rparr>"] fails
    by (simp add: noRetryOptions_def retryConfig_def defaultRetryOptions_def ups)
  moreover have "calculateBackoffDelay 9 defaultRetryOptions = 10000"
    using retry_backoff_schedule [OF quiet, of noRetryOptions
        "''streaming''" "\<lparr>clock = 0, sleeps = []\<rparr>"]
    by (simp add: noRetryOptions_def)
  ultimately show ?thesis by blast
qed


section \<open>Properties of the circuit breaker\<close>

lemma getOrCreate_Some [simp]:
  "cbs ctx = Some cb \<Longrightarrow> getOrCreateCircuitBreaker ctx cbs = (cb, cbs)"
  by (simp add: getOrCreateCircuitBreaker_def)

lemma getOrCreate_None [simp]:
  "cbs ctx = None \<Longrightarrow> getOrCreateCircuitBreaker ctx cbs =
     (\<lparr>state = Closed, failureCount = 0, lastFailureTime = 0\<rparr>,
      cbs(ctx \<mapsto> \<lparr>state = Closed, failureCount = 0, lastFailureTime = 0\<rparr>))"
  by (simp add: getOrCreateCircuitBreaker_def Let_def)

text \<open>A call on a breaker that is not open runs the operation and books its outcome.\<close>

lemma withCircuitBreaker_not_open:
  assumes "fst (getOrCreateCircuitBreaker ctx cbs) = cb" and "state cb \<noteq> Open"
  shows "withCircuitBreaker operation ctx options (cbs, rt) =
           (fst (operation rt),
            cbs(ctx \<mapsto>
              (case fst (operation rt) of
                 Inr result \<Rightarrow>
                   if state cb = HalfOpen then cb\<lparr>state := Closed, failureCount := 0\<rparr> else cb
               | Inl error \<Rightarrow>
                   cb\<lparr>failureCount := failureCount cb + 1,
                      lastFailureTime := clock (snd (operation rt)),
                      state := (if failureThreshold (circuitBreakerConfig options)
                                     \<le> failureCount cb + 1 then Open else state cb)\<rparr>)),
            snd (operation rt))"
proof (cases "cbs ctx")
  case None
  then show ?thesis using assms
    by (cases "operation rt"; cases "fst (operation rt)") (auto simp: Let_def)
next
  case (Some a)
  then have "cbs(ctx \<mapsto> a) = cbs" by (simp add: map_upd_triv)
  then show ?thesis using assms Some
    by (cases "operation rt"; cases "fst (operation rt)") (auto simp: Let_def)
qed

lemma withCircuitBreaker_rejects:
  assumes "cbs ctx = Some cb" and "state cb = Open"
      and "clock rt - lastFailureTime cb < recoveryTimeout (circuitBreakerConfig options)"
  shows "withCircuitBreaker operation ctx options (cbs, rt) =
           (Inl (Error (''Circuit breaker is open for '' @ ctx @ ''. Please try again later.'')),
            cbs, rt)"
  using assms by (simp add: Let_def)

lemma withCircuitBreaker_probe:
  assumes "cbs ctx = Some cb" and "state cb = Open"
      and "recoveryTimeout (circuitBreakerConfig options) \<le> clock rt - lastFailureTime cb"
  shows "withCircuitBreaker operation ctx options (cbs, rt) =
           withCircuitBreaker operation ctx options
             (cbs(ctx \<mapsto> cb\<lparr>state := HalfOpen, failureCount := 0\<rparr>), rt)"
  using assms
  by (cases "operation rt"; cases "fst (operation rt)") (auto simp: Let_def)

lemma withCircuitBreaker_attempts:
  assumes "fst (getOrCreateCircuitBreaker ctx cbs) = cb"
      and "\<not> (state cb = Open
               \<and> clock rt - lastFailureTime cb < recoveryTimeout (circuitBreakerConfig options))"
  shows "fst (withCircuitBreaker operation ctx options (cbs, rt)) = fst (operation rt)"
    and "snd (snd (withCircuitBreaker operation ctx options (cbs, rt))) = snd (operation rt)"
  using assms
  by (cases "operation rt"; cases "fst (operation rt)"; cases "cbs ctx"; auto simp: Let_def)+

text \<open>Failing calls on a closed breaker that stays below the threshold only count.\<close>

lemma callsInTurn_counting:
  "\<forall>operation \<in> set operations. \<forall>rt. isl (fst (operation rt)) \<Longrightarrow>
   fst (getOrCreateCircuitBreaker ctx cbs) = cb \<Longrightarrow> state cb = Closed \<Longrightarrow>
   failureCount cb + int (length operations) < failureThreshold (circuitBreakerConfig options) \<Longrightarrow>
   state (fst (getOrCreateCircuitBreaker ctx (fst (callsInTurn operations ctx options (cbs, rt)))))
     = Closed
   \<and> failureCount (fst (getOrCreateCircuitBreaker ctx
                          (fst (callsInTurn operations ctx options (cbs, rt)))))
     = failureCount cb + int (length operations)"
proof (induction operations arbitrary: cbs cb rt)
  case Nil
  then show ?case by simp
next
  case (Cons operation operations)
  have fails: "isl (fst (operation rt))" using Cons.prems(1) by simp
  define cb1 where "cb1 = cb\<lparr>failureCount := failureCount cb + 1,
                               lastFailureTime := clock (snd (operation rt))\<rparr>"
  have step: "withCircuitBreaker operation ctx options (cbs, rt) =
                (fst (operation rt), cbs(ctx \<mapsto> cb1), snd (operation rt))"
    using withCircuitBreaker_not_open[OF Cons.prems(2), of operation options rt]
      Cons.prems(3,4) fails
    by (cases "fst (operation rt)") (auto simp: cb1_def)
  have "state (fst (getOrCreateCircuitBreaker ctx
           (fst (callsInTurn operations ctx options (cbs(ctx \<mapsto> cb1), snd (operation rt))))))
         = Closed
      \<and> failureCount (fst (getOrCreateCircuitBreaker ctx
           (fst (callsInTurn operations ctx options (cbs(ctx \<mapsto> cb1), snd (operation rt))))))
         = failureCount cb1 + int (length operations)"
    by (rule Cons.IH) (use Cons.prems in \<open>auto simp: cb1_def\<close>)
  then show ?case
    using step by (simp add: cb1_def)
qed

lemma callsInTurn_append:
  "callsInTurn (xs @ ys) ctx options s = callsInTurn ys ctx options (callsInTurn xs ctx options s)"
  by (induction xs arbitrary: s) simp_all

lemma callsInTurn_opens:
  assumes fails: "\<forall>operation \<in> set operations. \<forall>rt. isl (fst (operation rt))"
      and fresh: "cbs ctx = None \<or> (\<exists>cb. cbs ctx = Some cb \<and> state cb = Closed \<and> failureCount cb = 0)"
      and len: "int (length operations) = failureThreshold (circuitBreakerConfig options)"
      and pos: "1 \<le> failureThreshold (circuitBreakerConfig options)"
  shows "\<exists>cb. fst (callsInTurn operations ctx options (cbs, rt)) ctx = Some cb
          \<and> state cb = Open
          \<and> failureCount cb = failureThreshold (circuitBreakerConfig options)
          \<and> lastFailureTime cb = clock (snd (callsInTurn operations ctx options (cbs, rt)))"
proof -
  from len pos have "operations \<noteq> []" by auto
  then obtain xs x where ops: "operations = xs @ [x]"
    by (metis rev_exhaust)
  define cb0 where "cb0 = fst (getOrCreateCircuitBreaker ctx cbs)"
  have cb0: "state cb0 = Closed" "failureCount cb0 = 0"
    using fresh by (auto simp: cb0_def)
  obtain cbs1 rt1 where s1: "callsInTurn xs ctx options (cbs, rt) = (cbs1, rt1)"
    by (cases "callsInTurn xs ctx options (cbs, rt)")
  have cnt: "state (fst (getOrCreateCircuitBreaker ctx (fst (callsInTurn xs ctx options (cbs, rt)))))
          = Closed
        \<and> failureCount (fst (getOrCreateCircuitBreaker ctx
                               (fst (callsInTurn xs ctx options (cbs, rt)))))
          = failureCount cb0 + int (length xs)"
    by (rule callsInTurn_counting) (use fails ops len cb0 in \<open>auto simp: cb0_def\<close>)
  define cb1 where "cb1 = fst (getOrCreateCircuitBreaker ctx cbs1)"
  have cb1: "state cb1 = Closed" "failureCount cb1 = int (length xs)"
    using cnt s1 cb0 by (auto simp: cb1_def)
  have xfails: "isl (fst (x rt1))" using fails ops by simp
  have "fst (getOrCreateCircuitBreaker ctx cbs1) = cb1" by (simp add: cb1_def)
  from withCircuitBreaker_not_open[OF this, of x options rt1]
  have "withCircuitBreaker x ctx options (cbs1, rt1) =
          (fst (x rt1),
           cbs1(ctx \<mapsto> cb1\<lparr>failureCount := failureCount cb1 + 1,
                              lastFailureTime := clock (snd (x rt1)), state := Open\<rparr>),
           snd (x rt1))"
    using cb1 xfails len ops by (cases "fst (x rt1)") auto
  then show ?thesis
    using s1 cb1 len ops by (simp add: callsInTurn_append)
qed

text \<open>
  Claim C4, as the code has it, in three parts.  (1) On a breaker that is new, or closed
  with no failure counted, \<open>failureThreshold\<close> calls in a row whose operations fail
  leave the breaker open, with the time of the last failure recorded.  (2) A call on an open breaker less
  than \<open>recoveryTimeout\<close> after the last failure fails with the circuit-open error and
  changes nothing: the operation is not run.  (3) A call on an open breaker once
  \<open>recoveryTimeout\<close> has passed is the same as a call on that breaker set to half-open
  with a counter of zero, and it runs the operation.  The defaults are 5 and 30000.
\<close>

theorem circuit_breaker_open_behaviour:
  "((\<forall>operation \<in> set operations. \<forall>rt. isl (fst (operation rt)))
      \<and> (cbs ctx = None \<or> (\<exists>cb. cbs ctx = Some cb \<and> state cb = Closed \<and> failureCount cb = 0))
      \<and> int (length operations) = failureThreshold (circuitBreakerConfig options)
      \<and> 1 \<le> failureThreshold (circuitBreakerConfig options)
    \<longrightarrow> (\<exists>cb. fst (callsInTurn operations ctx options (cbs, rt)) ctx = Some cb
           \<and> state cb = Open
           \<and> failureCount cb = failureThreshold (circuitBreakerConfig options)
           \<and> lastFailureTime cb = clock (snd (callsInTurn operations ctx options (cbs, rt)))))
   \<and> (cbs' ctx = Some cb' \<and> state cb' = Open
      \<and> clock rt' - lastFailureTime cb' < recoveryTimeout (circuitBreakerConfig options)
    \<longrightarrow> withCircuitBreaker operation ctx options (cbs', rt') =
          (Inl (Error (''Circuit breaker is open for '' @ ctx @ ''. Please try again later.'')),
           cbs', rt'))
   \<and> (cbs' ctx = Some cb' \<and> state cb' = Open
      \<and> recoveryTimeout (circuitBreakerConfig options) \<le> clock rt' - lastFailureTime cb'
    \<longrightarrow> withCircuitBreaker operation ctx options (cbs', rt') =
          withCircuitBreaker operation ctx options
            (cbs'(ctx \<mapsto> cb'\<lparr>state := HalfOpen, failureCount := 0\<rparr>), rt')
        \<and> fst (withCircuitBreaker operation ctx options (cbs', rt')) = fst (operation rt')
        \<and> snd (snd (withCircuitBreaker operation ctx options (cbs', rt'))) = snd (operation rt'))"
proof (intro conjI impI)
  assume "(\<forall>operation \<in> set operations. \<forall>rt. isl (fst (operation rt)))
      \<and> (cbs ctx = None \<or> (\<exists>cb. cbs ctx = Some cb \<and> state cb = Closed \<and> failureCount cb = 0))
      \<and> int (length operations) = failureThreshold (circuitBreakerConfig options)
      \<and> 1 \<le> failureThreshold (circuitBreakerConfig options)"
  then show "\<exists>cb. fst (callsInTurn operations ctx options (cbs, rt)) ctx = Some cb
           \<and> state cb = Open
           \<and> failureCount cb = failureThreshold (circuitBreakerConfig options)
           \<and> lastFailureTime cb = clock (snd (callsInTurn operations ctx options (cbs, rt)))"
    using callsInTurn_opens[of operations cbs ctx options rt] by blast
next
  assume "cbs' ctx = Some cb' \<and> state cb' = Open
      \<and> clock rt' - lastFailureTime cb' < recoveryTimeout (circuitBreakerConfig options)"
  then show "withCircuitBreaker operation ctx options (cbs', rt') =
          (Inl (Error (''Circuit breaker is open for '' @ ctx @ ''. Please try again later.'')),
           cbs', rt')"
    using withCircuitBreaker_rejects by blast
next
  assume a: "cbs' ctx = Some cb' \<and> state cb' = Open
      \<and> recoveryTimeout (circuitBreakerConfig options) \<le> clock rt' - lastFailureTime cb'"
  then show "withCircuitBreaker operation ctx options (cbs', rt') =
          withCircuitBreaker operation ctx options
            (cbs'(ctx \<mapsto> cb'\<lparr>state := HalfOpen, failureCount := 0\<rparr>), rt')"
    using withCircuitBreaker_probe by blast
  have "fst (getOrCreateCircuitBreaker ctx cbs') = cb'" using a by simp
  moreover have "\<not> (state cb' = Open
        \<and> clock rt' - lastFailureTime cb' < recoveryTimeout (circuitBreakerConfig options))"
    using a by simp
  ultimately show "fst (withCircuitBreaker operation ctx options (cbs', rt')) = fst (operation rt')"
    and "snd (snd (withCircuitBreaker operation ctx options (cbs', rt'))) = snd (operation rt')"
    by (rule withCircuitBreaker_attempts)+
qed

text \<open>
  With the defaults: five failures at time 1000 open the breaker; a call at 30999 is
  rejected; a call at 31000 goes through.
\<close>

theorem circuit_breaker_open_behaviour_witness:
  "fst (callsInTurn [failing, failing, failing, failing, failing] ''streaming''
          noCircuitBreakerOptions (Map.empty, \<lparr>clock = 1000, sleeps = []\<rparr>)) ''streaming''
     = Some \<lparr>state = Open, failureCount = 5, lastFailureTime = 1000\<rparr>
   \<and> fst (withCircuitBreaker succeeding ''streaming'' noCircuitBreakerOptions
          ([''streaming'' \<mapsto> \<lparr>state = Open, failureCount = 5, lastFailureTime = 1000\<rparr>],
           \<lparr>clock = 30999, sleeps = []\<rparr>))
     = Inl (Error ''Circuit breaker is open for streaming. Please try again later.'')
   \<and> fst (withCircuitBreaker succeeding ''streaming'' noCircuitBreakerOptions
          ([''streaming'' \<mapsto> \<lparr>state = Open, failureCount = 5, lastFailureTime = 1000\<rparr>],
           \<lparr>clock = 31000, sleeps = []\<rparr>))
     = Inr ()"
proof -
  have cfg: "failureThreshold (circuitBreakerConfig noCircuitBreakerOptions) = 5"
      "recoveryTimeout (circuitBreakerConfig noCircuitBreakerOptions) = 30000"
    by (simp_all add: circuitBreakerConfig_def noCircuitBreakerOptions_def
        defaultCircuitBreakerOptions_def)
  let ?ops = "[failing, failing, failing, failing, failing]"
  let ?cbs = "[''streaming'' \<mapsto> \<lparr>state = Open, failureCount = 5, lastFailureTime = 1000\<rparr>]"
  note inst = circuit_breaker_open_behaviour
    [where operations = ?ops and cbs = Map.empty and ctx = "''streaming''"
       and options = noCircuitBreakerOptions and rt = "\<lparr>clock = 1000, sleeps = []\<rparr>"
       and cbs' = ?cbs and cb' = "\<lparr>state = Open, failureCount = 5, lastFailureTime = 1000\<rparr>"
       and operation = succeeding]
  have clock: "clock (snd (callsInTurn ?ops ''streaming'' noCircuitBreakerOptions
                  (Map.empty, \<lparr>clock = 1000, sleeps = []\<rparr>))) = 1000"
    by (simp add: failing_def Let_def cfg)
  have one: "fst (callsInTurn ?ops ''streaming''
          noCircuitBreakerOptions (Map.empty, \<lparr>clock = 1000, sleeps = []\<rparr>)) ''streaming''
     = Some \<lparr>state = Open, failureCount = 5, lastFailureTime = 1000\<rparr>"
    using inst [where rt' = "\<lparr>clock = 30999, sleeps = []\<rparr>"] cfg clock
    by (auto simp: failing_def)
  have two: "fst (withCircuitBreaker succeeding ''streaming'' noCircuitBreakerOptions
          (?cbs, \<lparr>clock = 30999, sleeps = []\<rparr>))
     = Inl (Error ''Circuit breaker is open for streaming. Please try again later.'')"
    using inst [where rt' = "\<lparr>clock = 30999, sleeps = []\<rparr>"] cfg by simp
  have three: "fst (withCircuitBreaker succeeding ''streaming'' noCircuitBreakerOptions
          (?cbs, \<lparr>clock = 31000, sleeps = []\<rparr>))
     = Inr ()"
    using inst [where rt' = "\<lparr>clock = 31000, sleeps = []\<rparr>"] cfg by (simp add: succeeding_def)
  show ?thesis using one two three by blast
qed

text \<open>
  Claim C4 as the specification states it, for any breaker, does not hold.  With the
  default options and a new breaker: a failure, a success, and four failures at time 1000
  open the breaker, because a success on a closed breaker does not reset the counter.
  The call at time 31000 fails as well: it is the fifth failure in a row, and it leaves
  the breaker half-open with a counter of 1.  The call one millisecond later, well within
  the recovery timeout of that failure, is not rejected: it runs the operation.
\<close>

theorem five_failures_in_a_row_leave_half_open:
  "fst (callsInTurn [failing, succeeding, failing, failing, failing, failing] ''streaming''
          noCircuitBreakerOptions (Map.empty, \<lparr>clock = 1000, sleeps = []\<rparr>)) ''streaming''
     = Some \<lparr>state = Open, failureCount = 5, lastFailureTime = 1000\<rparr>
   \<and> fst (snd (withCircuitBreaker failing ''streaming'' noCircuitBreakerOptions
          (fst (callsInTurn [failing, succeeding, failing, failing, failing, failing]
                  ''streaming'' noCircuitBreakerOptions
                  (Map.empty, \<lparr>clock = 1000, sleeps = []\<rparr>)),
           \<lparr>clock = 31000, sleeps = []\<rparr>))) ''streaming''
     = Some \<lparr>state = HalfOpen, failureCount = 1, lastFailureTime = 31000\<rparr>
   \<and> withCircuitBreaker succeeding ''streaming'' noCircuitBreakerOptions
          (fst (snd (withCircuitBreaker failing ''streaming'' noCircuitBreakerOptions
             (fst (callsInTurn [failing, succeeding, failing, failing, failing, failing]
                     ''streaming'' noCircuitBreakerOptions
                     (Map.empty, \<lparr>clock = 1000, sleeps = []\<rparr>)),
              \<lparr>clock = 31000, sleeps = []\<rparr>))),
           \<lparr>clock = 31001, sleeps = []\<rparr>)
     = (Inr (),
        [''streaming'' \<mapsto> \<lparr>state = Closed, failureCount = 0, lastFailureTime = 31000\<rparr>],
        \<lparr>clock = 31001, sleeps = []\<rparr>)"
  by (simp add: failing_def succeeding_def Let_def circuitBreakerConfig_def
      noCircuitBreakerOptions_def defaultCircuitBreakerOptions_def getOrCreateCircuitBreaker_def)

lemma half_open_outcomes_aux:
  assumes "cbs ctx = Some cb"
      and "state cb = HalfOpen
           \<or> (state cb = Open
              \<and> recoveryTimeout (circuitBreakerConfig options) \<le> clock rt - lastFailureTime cb)"
  shows "withCircuitBreaker operation ctx options (cbs, rt) =
           (fst (operation rt),
            cbs(ctx \<mapsto>
              (case fst (operation rt) of
                 Inr result \<Rightarrow> cb\<lparr>state := Closed, failureCount := 0\<rparr>
               | Inl error \<Rightarrow>
                   (let n = (if state cb = Open then 0 else failureCount cb) + 1
                    in cb\<lparr>state := (if failureThreshold (circuitBreakerConfig options) \<le> n
                                     then Open else HalfOpen),
                          failureCount := n,
                          lastFailureTime := clock (snd (operation rt))\<rparr>))),
            snd (operation rt))"
  using assms
  by (cases "operation rt"; cases "fst (operation rt)") (auto simp: Let_def)

text \<open>
  Claim C5, as the code has it.  On a half-open breaker (one found half-open, or one found
  open after \<open>recoveryTimeout\<close>, which the call sets to half-open with a counter of zero),
  a successful call closes the breaker and resets the counter to zero; a failing call adds
  one to the counter and records the time of the failure, and the breaker opens only if the
  counter has reached \<open>failureThreshold\<close>: otherwise it stays half-open.
\<close>

theorem half_open_outcomes:
  assumes "cbs ctx = Some cb"
      and "state cb = HalfOpen
           \<or> (state cb = Open
              \<and> recoveryTimeout (circuitBreakerConfig options) \<le> clock rt - lastFailureTime cb)"
  shows "withCircuitBreaker operation ctx options (cbs, rt) =
           (fst (operation rt),
            cbs(ctx \<mapsto>
              (case fst (operation rt) of
                 Inr result \<Rightarrow> cb\<lparr>state := Closed, failureCount := 0\<rparr>
               | Inl error \<Rightarrow>
                   (let n = (if state cb = Open then 0 else failureCount cb) + 1
                    in cb\<lparr>state := (if failureThreshold (circuitBreakerConfig options) \<le> n
                                     then Open else HalfOpen),
                          failureCount := n,
                          lastFailureTime := clock (snd (operation rt))\<rparr>))),
            snd (operation rt))"
  using assms by (rule half_open_outcomes_aux)

text \<open>
  A successful probe closes; a failed one opens with threshold 1 and stays half-open
  with the default threshold 5.
\<close>

theorem half_open_outcomes_witness:
  "withCircuitBreaker succeeding ''streaming'' noCircuitBreakerOptions
     ([''streaming'' \<mapsto> \<lparr>state = Open, failureCount = 5, lastFailureTime = 1000\<rparr>],
      \<lparr>clock = 31000, sleeps = []\<rparr>)
   = (Inr (),
      [''streaming'' \<mapsto> \<lparr>state = Closed, failureCount = 0, lastFailureTime = 1000\<rparr>],
      \<lparr>clock = 31000, sleeps = []\<rparr>)
   \<and> withCircuitBreaker failing ''streaming''
       (noCircuitBreakerOptions\<lparr>failureThreshold_opt := Some 1\<rparr>)
       ([''streaming'' \<mapsto> \<lparr>state = HalfOpen, failureCount = 0, lastFailureTime = 1000\<rparr>],
        \<lparr>clock = 31000, sleeps = []\<rparr>)
   = (Inl (Error ''upstream unavailable''),
      [''streaming'' \<mapsto> \<lparr>state = Open, failureCount = 1, lastFailureTime = 31000\<rparr>],
      \<lparr>clock = 31000, sleeps = []\<rparr>)
   \<and> withCircuitBreaker failing ''streaming'' noCircuitBreakerOptions
       ([''streaming'' \<mapsto> \<lparr>state = HalfOpen, failureCount = 1, lastFailureTime = 31000\<rparr>],
        \<lparr>clock = 32000, sleeps = []\<rparr>)
   = (Inl (Error ''upstream unavailable''),
      [''streaming'' \<mapsto> \<lparr>state = HalfOpen, failureCount = 2, lastFailureTime = 32000\<rparr>],
      \<lparr>clock = 32000, sleeps = []\<rparr>)"
proof -
  have cfg: "recoveryTimeout (circuitBreakerConfig noCircuitBreakerOptions) = 30000"
      "failureThreshold (circuitBreakerConfig noCircuitBreakerOptions) = 5"
      "failureThreshold (circuitBreakerConfig (noCircuitBreakerOptions\<lparr>failureThreshold_opt := Some 1\<rparr>)) = 1"
    by (simp_all add: circuitBreakerConfig_def noCircuitBreakerOptions_def
        defaultCircuitBreakerOptions_def)
  have one: "withCircuitBreaker succeeding ''streaming'' noCircuitBreakerOptions
     ([''streaming'' \<mapsto> \<lparr>state = Open, failureCount = 5, lastFailureTime = 1000\<rparr>],
      \<lparr>clock = 31000, sleeps = []\<rparr>)
   = (Inr (),
      [''streaming'' \<mapsto> \<lparr>state = Closed, failureCount = 0, lastFailureTime = 1000\<rparr>],
      \<lparr>clock = 31000, sleeps = []\<rparr>)"
    using half_open_outcomes
      [where cbs = "[''streaming'' \<mapsto> \<lparr>state = Open, failureCount = 5, lastFailureTime = 1000\<rparr>]"
         and ctx = "''streaming''" and options = noCircuitBreakerOptions
         and cb = "\<lparr>state = Open, failureCount = 5, lastFailureTime = 1000\<rparr>"
         and rt = "\<lparr>clock = 31000, sleeps = []\<rparr>" and operation = succeeding]
      cfg
    by (simp add: succeeding_def)
  have two: "withCircuitBreaker failing ''streaming''
       (noCircuitBreakerOptions\<lparr>failureThreshold_opt := Some 1\<rparr>)
       ([''streaming'' \<mapsto> \<lparr>state = HalfOpen, failureCount = 0, lastFailureTime = 1000\<rparr>],
        \<lparr>clock = 31000, sleeps = []\<rparr>)
   = (Inl (Error ''upstream unavailable''),
      [''streaming'' \<mapsto> \<lparr>state = Open, failureCount = 1, lastFailureTime = 31000\<rparr>],
      \<lparr>clock = 31000, sleeps = []\<rparr>)"
    using half_open_outcomes
      [where cbs = "[''streaming'' \<mapsto> \<lparr>state = HalfOpen, failureCount = 0, lastFailureTime = 1000\<rparr>]"
         and ctx = "''streaming''"
         and options = "noCircuitBreakerOptions\<lparr>failureThreshold_opt := Some 1\<rparr>"
         and cb = "\<lparr>state = HalfOpen, failureCount = 0, lastFailureTime = 1000\<rparr>"
         and rt = "\<lparr>clock = 31000, sleeps = []\<rparr>" and operation = failing]
      cfg
    by (simp add: failing_def)
  have three: "withCircuitBreaker failing ''streaming'' noCircuitBreakerOptions
       ([''streaming'' \<mapsto> \<lparr>state = HalfOpen, failureCount = 1, lastFailureTime = 31000\<rparr>],
        \<lparr>clock = 32000, sleeps = []\<rparr>)
   = (Inl (Error ''upstream unavailable''),
      [''streaming'' \<mapsto> \<lparr>state = HalfOpen, failureCount = 2, lastFailureTime = 32000\<rparr>],
      \<lparr>clock = 32000, sleeps = []\<rparr>)"
    using half_open_outcomes
      [where cbs = "[''streaming'' \<mapsto> \<lparr>state = HalfOpen, failureCount = 1, lastFailureTime = 31000\<rparr>]"
         and ctx = "''streaming''" and options = noCircuitBreakerOptions
         and cb = "\<lparr>state = HalfOpen, failureCount = 1, lastFailureTime = 31000\<rparr>"
         and rt = "\<lparr>clock = 32000, sleeps = []\<rparr>" and operation = failing]
      cfg
    by (simp add: failing_def)
  show ?thesis using one two three by blast
qed

text \<open>
  Claim C5 as stated fails.  With the default options, five failures open the breaker;
  30 seconds later the probing call fails, and the breaker is left half-open with a
  counter of 1, not open.
\<close>

theorem failed_probe_stays_half_open:
  "fst (callsInTurn [failing, failing, failing, failing, failing] ''streaming''
          noCircuitBreakerOptions (Map.empty, \<lparr>clock = 1000, sleeps = []\<rparr>)) ''streaming''
     = Some \<lparr>state = Open, failureCount = 5, lastFailureTime = 1000\<rparr>
   \<and> fst (snd (withCircuitBreaker failing ''streaming'' noCircuitBreakerOptions
          (fst (callsInTurn [failing, failing, failing, failing, failing] ''streaming''
                  noCircuitBreakerOptions (Map.empty, \<lparr>clock = 1000, sleeps = []\<rparr>)),
           \<lparr>clock = 31000, sleeps = []\<rparr>))) ''streaming''
     = Some \<lparr>state = HalfOpen, failureCount = 1, lastFailureTime = 31000\<rparr>"
  by (simp add: failing_def Let_def circuitBreakerConfig_def noCircuitBreakerOptions_def
      defaultCircuitBreakerOptions_def getOrCreateCircuitBreaker_def)

text \<open>
  Claim C6.  \<open>withResilience\<close> runs the whole retry loop as the one operation of the
  breaker.  When the breaker lets the call through, the result and the state left behind
  are those of \<open>withRetry\<close>, and the failure counter changes by the final outcome only:
  a call that succeeds in the end adds nothing (the counter of a closed breaker is kept,
  that of a probing breaker is zero), and a call that fails in the end adds exactly one,
  however many attempts were made.
\<close>

theorem resilience_counts_final_outcome:
  assumes "fst (getOrCreateCircuitBreaker ctx cbs) = cb"
      and "\<not> (state cb = Open
               \<and> clock rt - lastFailureTime cb
                   < recoveryTimeout (circuitBreakerConfig circuitBreakerOptions))"
  shows "fst (withResilience operation ctx retryOptions circuitBreakerOptions (cbs, rt))
           = fst (withRetry operation ctx retryOptions rt)
       \<and> snd (snd (withResilience operation ctx retryOptions circuitBreakerOptions (cbs, rt)))
           = snd (withRetry operation ctx retryOptions rt)
       \<and> (\<exists>cb'. fst (snd (withResilience operation ctx retryOptions circuitBreakerOptions
                             (cbs, rt))) ctx = Some cb'
              \<and> failureCount cb' =
                  (case fst (withRetry operation ctx retryOptions rt) of
                     Inr result \<Rightarrow> if state cb = Closed then failureCount cb else 0
                   | Inl error \<Rightarrow> (if state cb = Open then 0 else failureCount cb) + 1))"
proof -
  let ?op = "withRetry operation ctx retryOptions"
  show ?thesis
  proof (cases "state cb = Open")
    case False
    then show ?thesis
      using withCircuitBreaker_not_open[OF assms(1) False, of ?op circuitBreakerOptions rt]
      by (cases "fst (?op rt)"; cases "state cb") auto
  next
    case True
    obtain c where c: "cbs ctx = Some c"
      using True assms(1) by (cases "cbs ctx") auto
    then have cb: "c = cb" using assms(1) by simp
    have late: "recoveryTimeout (circuitBreakerConfig circuitBreakerOptions)
                  \<le> clock rt - lastFailureTime cb"
      using True assms(2) by simp
    have ho: "state cb = HalfOpen
           \<or> (state cb = Open
              \<and> recoveryTimeout (circuitBreakerConfig circuitBreakerOptions)
                  \<le> clock rt - lastFailureTime cb)"
      using True late by simp
    show ?thesis
      using half_open_outcomes_aux[where cbs = cbs and ctx = ctx and cb = cb
          and options = circuitBreakerOptions and rt = rt and operation = ?op] c cb ho True
      by (cases "fst (?op rt)") (auto simp: Let_def)
  qed
qed

text \<open>
  With three attempts each: an operation that fails twice and then succeeds leaves the
  counter at 0; one that fails three times leaves it at 1.
\<close>

theorem resilience_counts_final_outcome_witness:
  "fst (withResilience flaky ''streaming'' noRetryOptions noCircuitBreakerOptions
          (Map.empty, \<lparr>clock = 0, sleeps = []\<rparr>)) = Inr ()
   \<and> snd (snd (withResilience flaky ''streaming'' noRetryOptions noCircuitBreakerOptions
          (Map.empty, \<lparr>clock = 0, sleeps = []\<rparr>))) = \<lparr>clock = 3003, sleeps = [1000, 2000]\<rparr>
   \<and> fst (snd (withResilience flaky ''streaming'' noRetryOptions noCircuitBreakerOptions
          (Map.empty, \<lparr>clock = 0, sleeps = []\<rparr>))) ''streaming''
       = Some \<lparr>state = Closed, failureCount = 0, lastFailureTime = 0\<rparr>
   \<and> fst (withResilience unreachable ''streaming'' noRetryOptions noCircuitBreakerOptions
          (Map.empty, \<lparr>clock = 0, sleeps = []\<rparr>))
       = Inl (Error ''getaddrinfo ENOTFOUND api.internal'')
   \<and> snd (snd (withResilience unreachable ''streaming'' noRetryOptions noCircuitBreakerOptions
          (Map.empty, \<lparr>clock = 0, sleeps = []\<rparr>))) = \<lparr>clock = 3003, sleeps = [1000, 2000]\<rparr>
   \<and> fst (snd (withResilience unreachable ''streaming'' noRetryOptions noCircuitBreakerOptions
          (Map.empty, \<lparr>clock = 0, sleeps = []\<rparr>))) ''streaming''
       = Some \<lparr>state = Closed, failureCount = 1, lastFailureTime = 3003\<rparr>"
proof -
  let ?rt = "\<lparr>clock = 0, sleeps = []\<rparr>"
  let ?cb = "\<lparr>state = Closed, failureCount = 0, lastFailureTime = 0\<rparr>"
  have cfg: "retryConfig noRetryOptions = defaultRetryOptions"
    by (simp add: retryConfig_def noRetryOptions_def)
  have r1: "withRetry flaky ''streaming'' noRetryOptions ?rt
              = (Inr (), \<lparr>clock = 3003, sleeps = [1000, 2000]\<rparr>)"
    by (simp add: withRetry_def cfg defaultRetryOptions_def flaky_def sleep_def
        calculateBackoffDelay_def Resilience_retryableErrors_def Let_def)
  have r2: "withRetry unreachable ''streaming'' noRetryOptions ?rt
              = (Inl (Error ''getaddrinfo ENOTFOUND api.internal''),
                 \<lparr>clock = 3003, sleeps = [1000, 2000]\<rparr>)"
    by (simp add: withRetry_def cfg defaultRetryOptions_def unreachable_def sleep_def
        calculateBackoffDelay_def Resilience_retryableErrors_def Let_def)
  have g: "fst (getOrCreateCircuitBreaker ''streaming'' Map.empty) = ?cb"
    by (simp add: getOrCreateCircuitBreaker_def Let_def)
  have n: "\<not> (state ?cb = Open
               \<and> clock ?rt - lastFailureTime ?cb
                   < recoveryTimeout (circuitBreakerConfig noCircuitBreakerOptions))"
    by simp
  have a: "fst (withResilience flaky ''streaming'' noRetryOptions noCircuitBreakerOptions
          (Map.empty, ?rt)) = Inr ()"
      "snd (snd (withResilience flaky ''streaming'' noRetryOptions noCircuitBreakerOptions
          (Map.empty, ?rt))) = \<lparr>clock = 3003, sleeps = [1000, 2000]\<rparr>"
    using resilience_counts_final_outcome[OF g n, of flaky noRetryOptions] r1 by simp_all
  have b: "fst (withResilience unreachable ''streaming'' noRetryOptions noCircuitBreakerOptions
          (Map.empty, ?rt)) = Inl (Error ''getaddrinfo ENOTFOUND api.internal'')"
      "snd (snd (withResilience unreachable ''streaming'' noRetryOptions noCircuitBreakerOptions
          (Map.empty, ?rt))) = \<lparr>clock = 3003, sleeps = [1000, 2000]\<rparr>"
    using resilience_counts_final_outcome[OF g n, of unreachable noRetryOptions] r2 by simp_all
  have c: "fst (snd (withResilience flaky ''streaming'' noRetryOptions noCircuitBreakerOptions
          (Map.empty, ?rt))) ''streaming''
       = Some \<lparr>state = Closed, failureCount = 0, lastFailureTime = 0\<rparr>"
    using r1 by (simp add: getOrCreateCircuitBreaker_def Let_def)
  have d: "fst (snd (withResilience unreachable ''streaming'' noRetryOptions noCircuitBreakerOptions
          (Map.empty, ?rt))) ''streaming''
       = Some \<lparr>state = Closed, failureCount = 1, lastFailureTime = 3003\<rparr>"
    using r2 by (simp add: getOrCreateCircuitBreaker_def Let_def circuitBreakerConfig_def
        noCircuitBreakerOptions_def defaultCircuitBreakerOptions_def)
  show ?thesis using a b c d by blast
qed


section \<open>Properties of the stream manager\<close>

subsection \<open>The store leaves the process alone\<close>

lemma redisGet_world [simp]: "snd (redisGet key w) = w"
  by (simp add: redisGet_def)

lemma redisDel_cases:
  "redisDel key w = (if storeDown w then (Inl storeError, w)
                     else (Inr (), w\<lparr>redisKeys := (redisKeys w)(key := None)\<rparr>))"
  by (simp add: redisDel_def)

lemma waitForStreamToStop_from_sleeps:
  "\<exists>k. int k \<le> max 0 (maxTries - i)
       \<and> snd (waitForStreamToStop_from appId maxTries i w)
           = w\<lparr>clock := clock w + 1000 * int k, sleeps := sleeps w @ replicate k 1000\<rparr>"
proof (induction appId maxTries i w rule: waitForStreamToStop_from.induct)
  case (1 appId maxTries i w)
  show ?case
  proof (cases "i < maxTries")
    case False
    then have "snd (waitForStreamToStop_from appId maxTries i w) = w"
      by (subst waitForStreamToStop_from.simps) (simp del: waitForStreamToStop_from.simps)
    then show ?thesis by (intro exI[of _ 0]) simp
  next
    case True
    obtain r w' where g: "redisGet (streamStateKey appId) w = (r, w')"
      by (cases "redisGet (streamStateKey appId) w")
    then have w': "w' = w" using redisGet_world[of "streamStateKey appId" w] by simp
    show ?thesis
    proof (cases r)
      case (Inl e)
      then have "snd (waitForStreamToStop_from appId maxTries i w) = w"
        using True g w' by (subst waitForStreamToStop_from.simps) (simp del: waitForStreamToStop_from.simps)
      then show ?thesis by (intro exI[of _ 0]) simp
    next
      case (Inr st)
      show ?thesis
      proof (cases "st = None \<or> st = Some []")
        case stopped: True
        then have "snd (waitForStreamToStop_from appId maxTries i w) = w"
          using True g w' Inr by (subst waitForStreamToStop_from.simps) (simp del: waitForStreamToStop_from.simps)
        then show ?thesis by (intro exI[of _ 0]) simp
      next
        case False
        from "1.IH"[OF True g[symmetric] Inr False]
        obtain k where k: "int k \<le> max 0 (maxTries - (i + 1))"
          "snd (waitForStreamToStop_from appId maxTries (i + 1) (sleep 1000 w'))
             = (sleep 1000 w')\<lparr>clock := clock (sleep 1000 w') + 1000 * int k,
                                 sleeps := sleeps (sleep 1000 w') @ replicate k 1000\<rparr>"
          by blast
        have "waitForStreamToStop_from appId maxTries i w
                = waitForStreamToStop_from appId maxTries (i + 1) (sleep 1000 w')"
          using True g Inr False by (subst waitForStreamToStop_from.simps) (auto simp del: waitForStreamToStop_from.simps)
        then have "snd (waitForStreamToStop_from appId maxTries i w)
             = w\<lparr>clock := clock w + 1000 * int (Suc k), sleeps := sleeps w @ replicate (Suc k) 1000\<rparr>"
          using k(2) w' by (simp add: sleep_def replicate_append_same algebra_simps)
        moreover have "int (Suc k) \<le> max 0 (maxTries - i)" using k(1) True by simp
        ultimately show ?thesis by blast
      qed
    qed
  qed
qed

lemma waitForStreamToStop_sleeps:
  "\<exists>k. k \<le> 60
       \<and> snd (waitForStreamToStop appId 60 w)
           = w\<lparr>clock := clock w + 1000 * int k, sleeps := sleeps w @ replicate k 1000\<rparr>"
proof -
  obtain k where "int k \<le> max 0 (60 - 0)"
     "snd (waitForStreamToStop_from appId 60 0 w)
           = w\<lparr>clock := clock w + 1000 * int k, sleeps := sleeps w @ replicate k 1000\<rparr>"
    using waitForStreamToStop_from_sleeps[of 60 0 appId w] by blast
  then show ?thesis unfolding waitForStreamToStop_def by (intro exI[of _ k]) simp
qed

text \<open>
  The polling loop exactly: it sleeps one second after every poll that finds a token, it
  returns \<open>True\<close> at the first poll that finds none, and \<open>False\<close> once every round has found
  one.
\<close>

lemma storeDown_sleeps [simp]: "storeDown ((sleep ms ^^ k) w) = storeDown w"
  by (induction k) (simp_all add: sleep_def)

lemma waitForStreamToStop_from_polls:
  "i \<le> maxTries \<Longrightarrow>
   \<exists>k. int k \<le> maxTries - i
       \<and> snd (waitForStreamToStop_from appId maxTries i w) = (sleep 1000 ^^ k) w
       \<and> (\<forall>j<k. \<exists>v. v \<noteq> [] \<and> fst (getStreamState appId ((sleep 1000 ^^ j) w)) = Inr (Some v))
       \<and> (if int k = maxTries - i
          then fst (waitForStreamToStop_from appId maxTries i w) = Inr False
          else (fst (waitForStreamToStop_from appId maxTries i w) = Inr True
                  \<and> fst (getStreamState appId ((sleep 1000 ^^ k) w)) \<in> {Inr None, Inr (Some [])})
               \<or> (fst (waitForStreamToStop_from appId maxTries i w) = Inl storeError
                  \<and> storeDown w))"
proof (induction appId maxTries i w rule: waitForStreamToStop_from.induct)
  case (1 appId maxTries i w)
  show ?case
  proof (cases "i < maxTries")
    case False
    then have "waitForStreamToStop_from appId maxTries i w = (Inr False, w)"
      by (subst waitForStreamToStop_from.simps) (simp del: waitForStreamToStop_from.simps)
    moreover have "maxTries - i = 0" using False "1.prems" by simp
    ultimately show ?thesis by (intro exI[of _ 0]) simp
  next
    case True
    obtain r w' where g: "redisGet (streamStateKey appId) w = (r, w')"
      by (cases "redisGet (streamStateKey appId) w")
    then have w': "w' = w" using redisGet_world[of "streamStateKey appId" w] by simp
    have poll: "fst (getStreamState appId w) = r"
      using g by (simp add: getStreamState_def)
    show ?thesis
    proof (cases r)
      case (Inl e)
      then have down: "storeDown w" "e = storeError"
        using g by (auto simp: redisGet_def split: if_splits)
      have "waitForStreamToStop_from appId maxTries i w = (Inl storeError, w)"
        using True g w' Inl down
        by (subst waitForStreamToStop_from.simps) (simp del: waitForStreamToStop_from.simps)
      then show ?thesis using True down by (intro exI[of _ 0]) simp
    next
      case (Inr st)
      show ?thesis
      proof (cases "st = None \<or> st = Some []")
        case stopped: True
        then have "waitForStreamToStop_from appId maxTries i w = (Inr True, w)"
          using True g w' Inr
          by (subst waitForStreamToStop_from.simps) (simp del: waitForStreamToStop_from.simps)
        then show ?thesis using True stopped poll Inr by (intro exI[of _ 0]) auto
      next
        case False
        then obtain v where v: "st = Some v" "v \<noteq> []" by (cases st) auto
        have up: "\<not> storeDown w"
          using g Inr by (auto simp: redisGet_def split: if_splits)
        have le: "i + 1 \<le> maxTries" using True by simp
        from "1.IH"[OF True g[symmetric] Inr False le]
        obtain k where k: "int k \<le> maxTries - (i + 1)"
          "snd (waitForStreamToStop_from appId maxTries (i + 1) (sleep 1000 w'))
             = (sleep 1000 ^^ k) (sleep 1000 w')"
          "\<forall>j<k. \<exists>v. v \<noteq> []
              \<and> fst (getStreamState appId ((sleep 1000 ^^ j) (sleep 1000 w'))) = Inr (Some v)"
          "if int k = maxTries - (i + 1)
           then fst (waitForStreamToStop_from appId maxTries (i + 1) (sleep 1000 w')) = Inr False
           else (fst (waitForStreamToStop_from appId maxTries (i + 1) (sleep 1000 w')) = Inr True
                   \<and> fst (getStreamState appId ((sleep 1000 ^^ k) (sleep 1000 w')))
                       \<in> {Inr None, Inr (Some [])})
                \<or> (fst (waitForStreamToStop_from appId maxTries (i + 1) (sleep 1000 w'))
                      = Inl storeError
                   \<and> storeDown (sleep 1000 w'))"
          by blast
        have step: "waitForStreamToStop_from appId maxTries i w
                = waitForStreamToStop_from appId maxTries (i + 1) (sleep 1000 w')"
          using True g Inr False
          by (subst waitForStreamToStop_from.simps) (auto simp del: waitForStreamToStop_from.simps)
        have shift: "(sleep 1000 ^^ n) (sleep 1000 w') = (sleep 1000 ^^ Suc n) w" for n
          unfolding w' by (simp add: funpow_swap1)
        have a: "int (Suc k) \<le> maxTries - i" using k(1) by simp
        have b: "snd (waitForStreamToStop_from appId maxTries i w) = (sleep 1000 ^^ Suc k) w"
          unfolding step k(2) shift ..
        have c: "\<forall>j<Suc k. \<exists>v. v \<noteq> []
                   \<and> fst (getStreamState appId ((sleep 1000 ^^ j) w)) = Inr (Some v)"
        proof (intro allI impI)
          fix j assume j: "j < Suc k"
          show "\<exists>v. v \<noteq> [] \<and> fst (getStreamState appId ((sleep 1000 ^^ j) w)) = Inr (Some v)"
          proof (cases j)
            case 0
            then show ?thesis using poll Inr v by simp
          next
            case (Suc j')
            then have "j' < k" using j by simp
            with k(3) have "\<exists>v. v \<noteq> []
              \<and> fst (getStreamState appId ((sleep 1000 ^^ j') (sleep 1000 w'))) = Inr (Some v)"
              by blast
            then show ?thesis unfolding shift Suc .
          qed
        qed
        have sd: "storeDown (sleep 1000 w') = storeDown w"
          unfolding w' by (simp add: sleep_def)
        have d: "if int (Suc k) = maxTries - i
          then fst (waitForStreamToStop_from appId maxTries i w) = Inr False
          else (fst (waitForStreamToStop_from appId maxTries i w) = Inr True
                  \<and> fst (getStreamState appId ((sleep 1000 ^^ Suc k) w))
                      \<in> {Inr None, Inr (Some [])})
               \<or> (fst (waitForStreamToStop_from appId maxTries i w) = Inl storeError
                  \<and> storeDown w)"
        proof (cases "int k = maxTries - (i + 1)")
          case True
          then have "int (Suc k) = maxTries - i" by simp
          then show ?thesis using k(4) True unfolding step by simp
        next
          case False
          then have "int (Suc k) \<noteq> maxTries - i" by simp
          then show ?thesis using k(4) False unfolding step shift sd by simp
        qed
        show ?thesis using a b c d by blast
      qed
    qed
  qed
qed

lemma waitForStreamToStop_polls:
  "\<exists>k\<le>60. snd (waitForStreamToStop appId 60 w) = (sleep 1000 ^^ k) w
       \<and> (\<forall>j<k. \<exists>v. v \<noteq> [] \<and> fst (getStreamState appId ((sleep 1000 ^^ j) w)) = Inr (Some v))
       \<and> (if k = 60
          then fst (waitForStreamToStop appId 60 w) = Inr False
          else (fst (waitForStreamToStop appId 60 w) = Inr True
                  \<and> fst (getStreamState appId ((sleep 1000 ^^ k) w)) \<in> {Inr None, Inr (Some [])})
               \<or> (fst (waitForStreamToStop appId 60 w) = Inl storeError \<and> storeDown w))"
proof -
  from waitForStreamToStop_from_polls[of 0 60 appId w]
  obtain k where k: "int k \<le> 60 - 0"
      "snd (waitForStreamToStop_from appId 60 0 w) = (sleep 1000 ^^ k) w"
      "\<forall>j<k. \<exists>v. v \<noteq> [] \<and> fst (getStreamState appId ((sleep 1000 ^^ j) w)) = Inr (Some v)"
      "if int k = 60 - 0
       then fst (waitForStreamToStop_from appId 60 0 w) = Inr False
       else (fst (waitForStreamToStop_from appId 60 0 w) = Inr True
               \<and> fst (getStreamState appId ((sleep 1000 ^^ k) w)) \<in> {Inr None, Inr (Some [])})
            \<or> (fst (waitForStreamToStop_from appId 60 0 w) = Inl storeError \<and> storeDown w)"
    by auto
  have "k \<le> 60" using k(1) by simp
  moreover have "int k = 60 - 0 \<longleftrightarrow> k = 60" by auto
  ultimately show ?thesis
    using k(2,3,4) unfolding waitForStreamToStop_def by (intro exI[of _ k]) simp
qed

subsection \<open>What touches the set of active sessions\<close>

lemma activeStreams_sleep [simp]: "activeStreams (sleep ms w) = activeStreams w"
  by (simp add: sleep_def)

lemma activeStreams_redisSet [simp]: "activeStreams (snd (redisSet key v ex w)) = activeStreams w"
  by (simp add: redisSet_def)

lemma activeStreams_redisDel [simp]: "activeStreams (snd (redisDel key w)) = activeStreams w"
  by (simp add: redisDel_def)

lemma activeStreams_redisPublish [simp]:
  "activeStreams (snd (redisPublish channel msg w)) = activeStreams w"
  by (simp add: redisPublish_def)

lemma activeStreams_redisSubscribe [simp]:
  "activeStreams (redisSubscribe channel w) = activeStreams w"
  by (simp add: redisSubscribe_def)

lemma activeStreams_clearStreamState [simp]:
  "activeStreams (snd (clearStreamState appId w)) = activeStreams w"
  by (simp add: clearStreamState_def)

lemma activeStreams_updateKeepAlive [simp]:
  "activeStreams (snd (updateKeepAlive appId w)) = activeStreams w"
  by (simp add: updateKeepAlive_def)

lemma activeStreams_handleStreamLifecycle [simp]:
  "activeStreams (snd (handleStreamLifecycle appId event w)) = activeStreams w"
  by (cases event) simp_all

lemma activeStreams_isStreamRunning [simp]:
  "activeStreams (snd (isStreamRunning appId w)) = activeStreams w"
  by (simp add: isStreamRunning_def andThen_def redisGet_def)

lemma activeStreams_stopStream [simp]:
  "activeStreams (snd (stopStream appId w)) = activeStreams w"
  by (simp add: stopStream_def andThen_def redisPublish_def redisDel_def)

lemma activeStreams_waitForStreamToStop [simp]:
  "activeStreams (snd (waitForStreamToStop appId 60 w)) = activeStreams w"
  using waitForStreamToStop_sleeps[of appId w] by auto

lemma activeStreams_updateStreamHealth [simp]:
  "activeStreams (updateStreamHealth appId n w) = activeStreams w"
  by (simp add: updateStreamHealth_def split: option.splits)

lemma activeStreams_initStreamHealth [simp]:
  "activeStreams (initStreamHealth appId w) = activeStreams w"
  by (simp add: initStreamHealth_def)

lemma activeStreams_deleteStreamHealth [simp]:
  "activeStreams (deleteStreamHealth appId w) = activeStreams w"
  by (simp add: deleteStreamHealth_def)

lemma activeStreams_releaseStreamSlot [simp]:
  "activeStreams (releaseStreamSlot appId w) = removeAll appId (activeStreams w)"
  by (simp add: releaseStreamSlot_def)

lemma activeStreams_setupAbortCallback [simp]:
  "activeStreams (setupAbortCallback appId w) = activeStreams w"
  by (simp add: setupAbortCallback_def)

lemma activeStreams_saveUnsaved [simp]:
  "activeStreams (snd (saveUnsaved c appId always w)) = activeStreams w"
  by (simp add: saveUnsaved_def split: sum.splits)

lemma length_removeAll_le: "length (removeAll x xs) \<le> length xs"
  by simp

lemma forceCleanupStream_cases:
  "forceCleanupStream appId w =
     (if storeDown w then w
      else w\<lparr>redisKeys := (redisKeys w)
               (streamStateKey appId := None, ''stream:'' @ appId := None,
                ''stream:'' @ appId @ '':keepalive'' := None,
                ''stream:'' @ appId @ '':events'' := None),
            streamHealth := (streamHealth w)(appId := None),
            activeStreams := removeAll appId (activeStreams w)\<rparr>)"
  by (simp add: forceCleanupStream_def forceCleanupStream_try_def andThen_def
      clearStreamState_def redisDel_def releaseStreamSlot_def deleteStreamHealth_def)

lemma activeStreams_forceCleanupStream:
  "activeStreams (forceCleanupStream appId w)
     = (if storeDown w then activeStreams w else removeAll appId (activeStreams w))"
  by (simp add: forceCleanupStream_cases)

lemma length_forceCleanupStream:
  "length (activeStreams (forceCleanupStream appId w)) \<le> length (activeStreams w)"
  by (simp add: activeStreams_forceCleanupStream length_removeAll_le)

lemma length_foldl_forceCleanupStream:
  "length (activeStreams (foldl (\<lambda>w' a. forceCleanupStream a w') w xs)) \<le> length (activeStreams w)"
proof (induction xs arbitrary: w)
  case Nil
  then show ?case by simp
next
  case (Cons a xs)
  have "length (activeStreams (foldl (\<lambda>w' a. forceCleanupStream a w') (forceCleanupStream a w) xs))
          \<le> length (activeStreams (forceCleanupStream a w))"
    by (rule Cons.IH)
  also have "\<dots> \<le> length (activeStreams w)" by (rule length_forceCleanupStream)
  finally show ?case by simp
qed

lemma length_makeRoom: "length (activeStreams (makeRoom w)) \<le> length (activeStreams w)"
  by (simp add: makeRoom_def Let_def length_foldl_forceCleanupStream)

lemma ensureSingleStream_try_activeStreams:
  "length (activeStreams (snd (ensureSingleStream_try appId w))) \<le> length (activeStreams w)"
proof -
  obtain r1 w1 where r1: "isStreamRunning appId w = (r1, w1)" by (cases "isStreamRunning appId w")
  then have a1: "activeStreams w1 = activeStreams w"
    using activeStreams_isStreamRunning[of appId w] by simp
  show ?thesis
  proof (cases r1)
    case (Inl e)
    then show ?thesis using r1 a1 by (simp add: ensureSingleStream_try_def andThen_def)
  next
    case (Inr running)
    define step where "step = (\<lambda>w. if running
                        then if isStreamHealthy appId w
                             then andThen (stopStream appId)
                                    (\<lambda>_. andThen (waitForStreamToStop appId 60)
                                           (\<lambda>_ w'. (Inr (), w'))) w
                             else (Inr (), forceCleanupStream appId w)
                        else (Inr (), w))"
    have s: "length (activeStreams (snd (step w1))) \<le> length (activeStreams w1)"
    proof -
      have "activeStreams (snd (andThen (stopStream appId)
                (\<lambda>_. andThen (waitForStreamToStop appId 60) (\<lambda>_ w'. (Inr (), w'))) w1))
              = activeStreams w1"
      proof -
        obtain r2 w2 where r2: "stopStream appId w1 = (r2, w2)" by (cases "stopStream appId w1")
        then have a2: "activeStreams w2 = activeStreams w1"
          using activeStreams_stopStream[of appId w1] by simp
        obtain r3 w3 where r3: "waitForStreamToStop appId 60 w2 = (r3, w3)"
          by (cases "waitForStreamToStop appId 60 w2")
        then have a3: "activeStreams w3 = activeStreams w2"
          using activeStreams_waitForStreamToStop[of appId w2] by simp
        show ?thesis using r2 a2 r3 a3
          by (cases r2; cases r3) (simp_all add: andThen_def)
      qed
      then show ?thesis
        by (simp add: step_def length_forceCleanupStream)
    qed
    obtain r4 w4 where r4: "step w1 = (r4, w4)" by (cases "step w1")
    then have a4: "length (activeStreams w4) \<le> length (activeStreams w)" using s a1 by simp
    have body: "ensureSingleStream_try appId w =
            (case r4 of Inl e \<Rightarrow> (Inl e, w4)
             | Inr _ \<Rightarrow> andThen (clearStreamState appId)
                          (\<lambda>_ w. (Inr (), initStreamHealth appId w)) w4)"
      using r1 Inr r4 by (simp add: ensureSingleStream_try_def andThen_def step_def)
    show ?thesis
    proof (cases r4)
      case (Inl e)
      then show ?thesis using body a4 by simp
    next
      case (Inr u)
      obtain r5 w5 where r5: "clearStreamState appId w4 = (r5, w5)"
        by (cases "clearStreamState appId w4")
      then have a5: "activeStreams w5 = activeStreams w4"
        using activeStreams_clearStreamState[of appId w4] by simp
      show ?thesis using body Inr r5 a5 a4
        by (cases r5) (simp_all add: andThen_def)
    qed
  qed
qed

lemma length_ensureSingleStream:
  "length (activeStreams (ensureSingleStream appId w)) \<le> length (activeStreams w)"
proof -
  obtain r w' where r: "ensureSingleStream_try appId w = (r, w')"
    by (cases "ensureSingleStream_try appId w")
  then have le: "length (activeStreams w') \<le> length (activeStreams w)"
    using ensureSingleStream_try_activeStreams[of appId w] by simp
  show ?thesis
  proof (cases r)
    case (Inl e)
    have "length (activeStreams (forceCleanupStream appId w')) \<le> length (activeStreams w')"
      by (rule length_forceCleanupStream)
    then show ?thesis using r Inl le by (simp add: ensureSingleStream_def)
  next
    case (Inr u)
    then show ?thesis using r le by (simp add: ensureSingleStream_def)
  qed
qed

lemma length_onError:
  "length (activeStreams (snd (snd (onError appId (l, w))))) \<le> length (activeStreams w)"
proof -
  obtain r w' where r: "handleStreamLifecycle appId Failed w = (r, w')"
    by (cases "handleStreamLifecycle appId Failed w")
  then have "activeStreams w' = activeStreams w"
    using activeStreams_handleStreamLifecycle[of appId Failed w] by simp
  then show ?thesis using r by (cases r) (simp_all add: onError_def)
qed

lemma length_onFinish:
  "length (activeStreams (snd (snd (onFinish appId (l, w))))) \<le> length (activeStreams w)"
proof -
  obtain r w' where r: "handleStreamLifecycle appId Finish w = (r, w')"
    by (cases "handleStreamLifecycle appId Finish w")
  then have "activeStreams w' = activeStreams w"
    using activeStreams_handleStreamLifecycle[of appId Finish w] by simp
  then show ?thesis using r by (cases r) (simp_all add: onFinish_def)
qed

lemma activeStreams_onChunk:
  "activeStreams (snd (snd (onChunk appId (l, w)))) = activeStreams w"
proof -
  obtain r w' where r: "updateKeepAlive appId w = (r, w')"
    by (cases "updateKeepAlive appId w")
  then have "activeStreams w' = activeStreams w"
    using activeStreams_updateKeepAlive[of appId w] by simp
  then show ?thesis using r by (cases r) (simp_all add: onChunk_def Let_def)
qed

lemma activeStreams_onStepFinish:
  "activeStreams (snd (snd (onStepFinish c appId (l, w)))) = activeStreams w"
proof -
  let ?w1 = "updateStreamHealth appId None w"
  obtain r w2 where r: "handleStreamLifecycle appId Failed ?w1 = (r, w2)"
    by (cases "handleStreamLifecycle appId Failed ?w1")
  then have a2: "activeStreams w2 = activeStreams w"
    using activeStreams_handleStreamLifecycle[of appId Failed ?w1] by simp
  obtain r3 w3 where r3: "saveUnsaved c appId True w2 = (r3, w3)"
    by (cases "saveUnsaved c appId True w2")
  then have "activeStreams w3 = activeStreams w2"
    using activeStreams_saveUnsaved[of c appId True w2] by simp
  then show ?thesis using r a2 r3 by (cases r) (simp_all add: onStepFinish_def Let_def)
qed

lemma length_fire:
  "length (activeStreams (snd (fire c appId h s))) \<le> length (activeStreams (snd s))"
proof (cases s)
  case (Pair l w)
  then show ?thesis
    using length_onError[of appId l w] length_onFinish[of appId l w]
      activeStreams_onChunk[of appId l w] activeStreams_onStepFinish[of c appId l w]
    by (cases h) simp_all
qed

lemma length_deliver:
  "length (activeStreams (snd (deliver c appId hs s))) \<le> length (activeStreams (snd s))"
proof (induction hs arbitrary: s)
  case Nil
  then show ?case by simp
next
  case (Cons h hs)
  have "length (activeStreams (snd (deliver c appId hs (fire c appId h s))))
          \<le> length (activeStreams (snd (fire c appId h s)))"
    by (rule Cons.IH)
  also have "\<dots> \<le> length (activeStreams (snd s))" by (rule length_fire)
  finally show ?case by simp
qed

lemma activeStreams_setStream [simp]:
  "activeStreams (snd (setStream c appId prompt stream w)) = activeStreams w"
proof -
  obtain r w' where r: "redisSet (streamStateKey appId) ''running'' (Some 15) w = (r, w')"
    by (cases "redisSet (streamStateKey appId) ''running'' (Some 15) w")
  then have "activeStreams w' = activeStreams w"
    using activeStreams_redisSet[of "streamStateKey appId" "''running''" "Some 15" w] by simp
  then show ?thesis using r
    by (cases r) (simp_all add: setStream_def andThen_def split: sum.splits bool.splits)
qed

lemma length_startStream:
  "length (activeStreams (snd (snd (startStream c appId msg w)))) \<le> length (activeStreams w)"
proof -
  define w1 where "w1 = setupAbortCallback appId w"
  define l0 where "l0 = \<lparr>shouldAbort = False, fallbackToMemory = False, lastKeepAlive = clock w1,
                aborted = None\<rparr>"
  define w2 where "w2 = w1\<lparr>producerCalls := producerCalls w1 @ [appId]\<rparr>"
  obtain l w3 where d: "deliver c appId (sendMessage_hooks c) (l0, w2) = (l, w3)"
    by (cases "deliver c appId (sendMessage_hooks c) (l0, w2)")
  have "length (activeStreams w3) \<le> length (activeStreams (snd (l0, w2)))"
    using length_deliver[of c appId "sendMessage_hooks c" "(l0, w2)"] d by simp
  then have a3: "length (activeStreams w3) \<le> length (activeStreams w)"
    by (simp add: w2_def w1_def)
  have unfold: "startStream c appId msg w =
      (case sendMessage_result c of
           Inl e \<Rightarrow> (Inl e, l, w3)
         | Inr stream \<Rightarrow>
             if \<not> hasToUIMessageStreamResponse stream
             then (Inl (Error ''Invalid stream format - missing toUIMessageStreamResponse method''),
                   l, w3)
             else (case setStream c appId msg stream w3 of
                     (Inl e, w4) \<Rightarrow> (Inl e, l, w4)
                   | (Inr resumableStream, w4) \<Rightarrow>
                       (case handleStreamLifecycle appId Start (setupAbortCallback appId w4) of
                          (Inl e, w5) \<Rightarrow> (Inl e, l, w5)
                        | (Inr _, w5) \<Rightarrow> (Inr resumableStream, l, w5))))"
    using d by (simp add: startStream_def Let_def w1_def l0_def w2_def)
  show ?thesis
  proof (cases "sendMessage_result c")
    case (Inl e)
    then show ?thesis using unfold a3 by simp
  next
    case (Inr stream)
    obtain r4 w4 where r4: "setStream c appId msg stream w3 = (r4, w4)"
      by (cases "setStream c appId msg stream w3")
    then have a4: "activeStreams w4 = activeStreams w3"
      using activeStreams_setStream[of c appId msg stream w3] by simp
    obtain r5 w5 where r5: "handleStreamLifecycle appId Start (setupAbortCallback appId w4) = (r5, w5)"
      by (cases "handleStreamLifecycle appId Start (setupAbortCallback appId w4)")
    then have a5: "activeStreams w5 = activeStreams w4"
      using activeStreams_handleStreamLifecycle[of appId Start "setupAbortCallback appId w4"]
      by simp
    show ?thesis using unfold Inr r4 a4 r5 a5 a3
      by (cases r4; cases r5) simp_all
  qed
qed

lemma activeStreams_fallbackToMemoryPath [simp]:
  "activeStreams (snd (fallbackToMemoryPath c appId w)) = activeStreams w"
proof -
  obtain r w' where r: "saveUnsaved c appId False w = (r, w')"
    by (cases "saveUnsaved c appId False w")
  then have "activeStreams w' = activeStreams w"
    using activeStreams_saveUnsaved[of c appId False w] by simp
  then show ?thesis using r by (cases r) (simp_all add: fallbackToMemoryPath_def)
qed

lemma length_streamWithFallback:
  "length (activeStreams (snd (streamWithFallback c appId msg w))) \<le> length (activeStreams w)"
proof -
  obtain r l w' where r: "startStream c appId msg w = (r, l, w')"
    by (cases "startStream c appId msg w") auto
  then have le: "length (activeStreams w') \<le> length (activeStreams w)"
    using length_startStream[of c appId msg w] by simp
  have "length (removeAll appId (activeStreams w')) \<le> length (activeStreams w')" by simp
  then have "length (removeAll appId (activeStreams w')) \<le> length (activeStreams w)"
    using le by (rule order_trans)
  then show ?thesis using r le
    by (cases r) (simp_all add: streamWithFallback_def)
qed

lemma admit_bounded:
  assumes "length (activeStreams w) \<le> MAX_CONCURRENT_STREAMS"
  shows "length (activeStreams (snd (admit c appId msg w))) \<le> MAX_CONCURRENT_STREAMS"
proof (cases "canStartNewStream w")
  case False
  then show ?thesis using assms by (simp add: admit_def reserveStreamSlot_def)
next
  case True
  define w1 where "w1 = w\<lparr>activeStreams := (if appId \<in> set (activeStreams w) then activeStreams w
                                      else activeStreams w @ [appId])\<rparr>"
  have w1: "length (activeStreams w1) \<le> MAX_CONCURRENT_STREAMS"
    using True assms by (simp add: w1_def canStartNewStream_def)
  have "admit c appId msg w = streamWithFallback c appId msg (ensureSingleStream appId w1)"
    using True by (simp add: admit_def reserveStreamSlot_def w1_def)
  moreover have "length (activeStreams (snd (streamWithFallback c appId msg
                    (ensureSingleStream appId w1))))
          \<le> length (activeStreams (ensureSingleStream appId w1))"
    by (rule length_streamWithFallback)
  moreover have "length (activeStreams (ensureSingleStream appId w1)) \<le> length (activeStreams w1)"
    by (rule length_ensureSingleStream)
  ultimately show ?thesis using w1 by simp
qed

lemma sendMessageWithStreaming_bounded:
  assumes "length (activeStreams w) \<le> MAX_CONCURRENT_STREAMS"
  shows "length (activeStreams (snd (sendMessageWithStreaming c appId msg w)))
           \<le> MAX_CONCURRENT_STREAMS"
proof -
  have "length (activeStreams (makeRoom w)) \<le> MAX_CONCURRENT_STREAMS"
    using length_makeRoom[of w] assms by simp
  then show ?thesis
    unfolding sendMessageWithStreaming_def streamPromise_def by (rule admit_bounded)
qed

lemma act_bounded:
  assumes "length (activeStreams w) \<le> MAX_CONCURRENT_STREAMS"
  shows "length (activeStreams (act w a)) \<le> MAX_CONCURRENT_STREAMS"
proof (cases a)
  case (SendMessage c appId msg)
  then show ?thesis using sendMessageWithStreaming_bounded[OF assms] by simp
next
  case (ForceCleanup appId)
  then show ?thesis using length_forceCleanupStream[of appId w] assms by simp
next
  case (Finished appId)
  then show ?thesis using length_onFinish[of appId "freshLocals w" w] assms by simp
next
  case (Errored appId)
  then show ?thesis using length_onError[of appId "freshLocals w" w] assms by simp
next
  case (StoreDown b)
  then show ?thesis using assms by simp
next
  case (Advance ms)
  then show ?thesis using assms by simp
qed

lemma run_bounded:
  "length (activeStreams w) \<le> MAX_CONCURRENT_STREAMS \<Longrightarrow>
   length (activeStreams (run actions w)) \<le> MAX_CONCURRENT_STREAMS"
  unfolding run_def
proof (induction actions arbitrary: w)
  case Nil
  then show ?case by simp
next
  case (Cons a actions)
  then show ?case using act_bounded[of w a] by simp
qed

lemma producerCalls_forceCleanupStream [simp]:
  "producerCalls (forceCleanupStream appId w) = producerCalls w"
  by (simp add: forceCleanupStream_cases)

lemma producerCalls_makeRoom: "producerCalls (makeRoom w) = producerCalls w"
proof -
  have "producerCalls (foldl (\<lambda>w' a. forceCleanupStream a w') w xs) = producerCalls w" for xs
    by (induction xs arbitrary: w) simp_all
  then show ?thesis by (simp add: makeRoom_def Let_def)
qed

lemma makeRoom_full:
  assumes "\<not> canStartNewStream w" and "activeStreams w = oldest # second # others"
  shows "makeRoom w = forceCleanupStream second (forceCleanupStream oldest w)"
  using assms by (simp add: makeRoom_def Let_def)

lemma makeRoom_evicts:
  assumes "\<not> canStartNewStream w" and "activeStreams w = oldest # second # others"
      and "\<not> storeDown w"
  shows "oldest \<notin> set (activeStreams (makeRoom w)) \<and> second \<notin> set (activeStreams (makeRoom w))"
  using assms by (simp add: makeRoom_full[OF assms(1,2)] forceCleanupStream_cases)

text \<open>
  Claim C1, in three parts.  (1) Whatever happens to the process (messages sent, sessions
  force-cleaned, streams that finish or fail, the store going down or coming back, time
  passing), a set of active sessions of at most \<open>MAX_CONCURRENT_STREAMS = 10\<close> stays
  at most 10; in particular from the initial state.  (2) A call that finds the set at
  capacity runs the rest of the call, which begins with the reservation, in the state left
  by force-cleaning the oldest and then the second oldest session; with the store
  reachable, neither is active any more.  (3) If the set is still at capacity after the
  relief, the call fails with the capacity error in the state the relief left, and the
  producer has not been called.
\<close>

theorem admission_invariant:
  "(length (activeStreams w) \<le> MAX_CONCURRENT_STREAMS
      \<longrightarrow> length (activeStreams (run actions w)) \<le> MAX_CONCURRENT_STREAMS)
   \<and> MAX_CONCURRENT_STREAMS = 10
   \<and> length (activeStreams (run actions initialWorld)) \<le> 10
   \<and> (\<not> canStartNewStream w' \<and> activeStreams w' = oldest # second # others
      \<longrightarrow> sendMessageWithStreaming c appId msg w'
            = admit c appId msg (forceCleanupStream second (forceCleanupStream oldest w'))
          \<and> (\<not> storeDown w'
             \<longrightarrow> oldest \<notin> set (activeStreams (makeRoom w'))
               \<and> second \<notin> set (activeStreams (makeRoom w'))))
   \<and> (\<not> canStartNewStream (makeRoom w')
      \<longrightarrow> sendMessageWithStreaming c appId msg w'
            = (Inl (Error ''Unable to reserve stream slot - connection pool exhausted''),
               makeRoom w')
          \<and> producerCalls (makeRoom w') = producerCalls w')"
proof (intro conjI impI)
  show "MAX_CONCURRENT_STREAMS = 10" by (simp add: MAX_CONCURRENT_STREAMS_def)
  show "length (activeStreams (run actions w)) \<le> MAX_CONCURRENT_STREAMS"
    if "length (activeStreams w) \<le> MAX_CONCURRENT_STREAMS"
    using that by (rule run_bounded)
  have "length (activeStreams initialWorld) \<le> MAX_CONCURRENT_STREAMS"
    by (simp add: initialWorld_def)
  then have "length (activeStreams (run actions initialWorld)) \<le> MAX_CONCURRENT_STREAMS"
    by (rule run_bounded)
  then show "length (activeStreams (run actions initialWorld)) \<le> 10"
    by (simp add: MAX_CONCURRENT_STREAMS_def)
next
  assume a: "\<not> canStartNewStream w' \<and> activeStreams w' = oldest # second # others"
  then show "sendMessageWithStreaming c appId msg w'
            = admit c appId msg (forceCleanupStream second (forceCleanupStream oldest w'))"
    using makeRoom_full[of w' oldest second others]
    by (simp add: sendMessageWithStreaming_def streamPromise_def)
  show "oldest \<notin> set (activeStreams (makeRoom w'))" if "\<not> storeDown w'"
    using makeRoom_evicts[of w' oldest second others] a that by blast
  show "second \<notin> set (activeStreams (makeRoom w'))" if "\<not> storeDown w'"
    using makeRoom_evicts[of w' oldest second others] a that by blast
next
  assume "\<not> canStartNewStream (makeRoom w')"
  then show "sendMessageWithStreaming c appId msg w'
            = (Inl (Error ''Unable to reserve stream slot - connection pool exhausted''),
               makeRoom w')"
    by (simp add: sendMessageWithStreaming_def streamPromise_def admit_def reserveStreamSlot_def)
  show "producerCalls (makeRoom w') = producerCalls w'" by (rule producerCalls_makeRoom)
qed

text \<open>
  Ten active sessions: a new session evicts \<open>app-0\<close> and \<open>app-1\<close>; with the store
  unreachable the relief frees nothing and the call fails.
\<close>

theorem admission_invariant_witness:
  "length (activeStreams (run [SendMessage healthyCollaborators ''app-x'' ''hello'',
                               ForceCleanup ''app-5'', Errored ''app-6'']
                              fullWorld)) \<le> 10
   \<and> sendMessageWithStreaming healthyCollaborators ''app-x'' ''hello'' fullWorld
       = admit healthyCollaborators ''app-x'' ''hello''
           (forceCleanupStream ''app-1'' (forceCleanupStream ''app-0'' fullWorld))
   \<and> ''app-0'' \<notin> set (activeStreams (makeRoom fullWorld))
   \<and> ''app-1'' \<notin> set (activeStreams (makeRoom fullWorld))
   \<and> sendMessageWithStreaming healthyCollaborators ''app-x'' ''hello''
         (fullWorld\<lparr>storeDown := True\<rparr>)
       = (Inl (Error ''Unable to reserve stream slot - connection pool exhausted''),
          fullWorld\<lparr>storeDown := True\<rparr>)
   \<and> producerCalls (snd (sendMessageWithStreaming healthyCollaborators ''app-x'' ''hello''
                             (fullWorld\<lparr>storeDown := True\<rparr>))) = []"
proof -
  let ?down = "fullWorld\<lparr>storeDown := True\<rparr>"
  have full: "\<not> canStartNewStream fullWorld"
      "activeStreams fullWorld = ''app-0'' # ''app-1'' #
          [''app-2'', ''app-3'', ''app-4'', ''app-5'', ''app-6'', ''app-7'', ''app-8'', ''app-9'']"
      "\<not> storeDown fullWorld"
      "length (activeStreams fullWorld) \<le> MAX_CONCURRENT_STREAMS"
    by (simp_all add: fullWorld_def initialWorld_def canStartNewStream_def
        MAX_CONCURRENT_STREAMS_def)
  have down: "makeRoom ?down = ?down"
    by (simp add: makeRoom_def Let_def forceCleanupStream_cases fullWorld_def initialWorld_def)
  have stuck: "\<not> canStartNewStream (makeRoom ?down)"
    unfolding down
    by (simp add: fullWorld_def initialWorld_def canStartNewStream_def MAX_CONCURRENT_STREAMS_def)
  have none: "producerCalls ?down = []"
    by (simp add: fullWorld_def initialWorld_def)
  note a = admission_invariant
    [where w = fullWorld and w' = fullWorld and oldest = "''app-0''" and second = "''app-1''"
       and others = "[''app-2'', ''app-3'', ''app-4'', ''app-5'', ''app-6'', ''app-7'',
                      ''app-8'', ''app-9'']"
       and c = healthyCollaborators and appId = "''app-x''" and msg = "''hello''"
       and actions = "[SendMessage healthyCollaborators ''app-x'' ''hello'',
                       ForceCleanup ''app-5'', Errored ''app-6'']"]
  note b = admission_invariant
    [where w = fullWorld and w' = ?down and c = healthyCollaborators and appId = "''app-x''"
       and msg = "''hello''" and actions = "[]"]
  show ?thesis
    using a b full stuck none unfolding down by simp
qed

subsection \<open>Reconciliation with a prior stream\<close>

lemma streamStateKey_inj [simp]: "streamStateKey a = streamStateKey b \<longleftrightarrow> a = b"
  by (simp add: streamStateKey_def)

lemma streamStateKey_not_aux [simp]:
  "streamStateKey a \<noteq> CHR ''s'' # x" "CHR ''s'' # x \<noteq> streamStateKey a"
  by (simp_all add: streamStateKey_def)

lemma isStreamRunning_True:
  "fst (isStreamRunning appId w) = Inr True \<longleftrightarrow>
     \<not> storeDown w \<and> (\<exists>ex. redisKeys w (streamStateKey appId) = Some (''running'', ex)
                          \<and> (\<forall>t. ex = Some t \<longrightarrow> clock w < t))"
  by (auto simp: isStreamRunning_def andThen_def redisGet_def split: option.splits if_splits)

lemma isStreamRunning_world: "snd (isStreamRunning appId w) = w"
  by (simp add: isStreamRunning_def andThen_def redisGet_def)

lemma stopStream_up:
  "\<not> storeDown w \<Longrightarrow>
   stopStream appId w =
     (Inr (), w\<lparr>published := published w @ [(eventsChannel appId, abortMessage)],
                redisKeys := (redisKeys w)(streamStateKey appId := None)\<rparr>)"
  by (simp add: stopStream_def andThen_def redisPublish_def redisDel_def)

lemma waitForStreamToStop_absent:
  "\<not> storeDown w \<Longrightarrow> redisKeys w (streamStateKey appId) = None \<Longrightarrow>
   waitForStreamToStop appId 60 w = (Inr True, w)"
  unfolding waitForStreamToStop_def
  by (subst waitForStreamToStop_from.simps)
     (simp add: redisGet_def del: waitForStreamToStop_from.simps)

lemma clearStreamState_up:
  "\<not> storeDown w \<Longrightarrow>
   clearStreamState appId w = (Inr (), w\<lparr>redisKeys := (redisKeys w)(streamStateKey appId := None)\<rparr>)"
  by (simp add: clearStreamState_def redisDel_def)

lemma ensureSingleStream_running:
  assumes up: "\<not> storeDown w" and running: "fst (isStreamRunning appId w) = Inr True"
  shows "ensureSingleStream appId w =
           (if isStreamHealthy appId w
            then initStreamHealth appId
                   (snd (clearStreamState appId
                      (snd (waitForStreamToStop appId 60 (snd (stopStream appId w))))))
            else initStreamHealth appId (forceCleanupStream appId w))"
    and "isStreamHealthy appId w \<Longrightarrow>
         ensureSingleStream appId w =
           w\<lparr>published := published w @ [(eventsChannel appId, abortMessage)],
             redisKeys := (redisKeys w)(streamStateKey appId := None),
             streamHealth := (streamHealth w)
               (appId \<mapsto> \<lparr>lastActivity = clock w, startTime = clock w, messageCount = 0\<rparr>)\<rparr>"
proof -
  have r: "isStreamRunning appId w = (Inr True, w)"
    using running isStreamRunning_world[of appId w] by (cases "isStreamRunning appId w") simp
  let ?w2 = "w\<lparr>published := published w @ [(eventsChannel appId, abortMessage)],
                redisKeys := (redisKeys w)(streamStateKey appId := None)\<rparr>"
  have stop: "stopStream appId w = (Inr (), ?w2)" using up by (rule stopStream_up)
  have wait: "waitForStreamToStop appId 60 ?w2 = (Inr True, ?w2)"
    by (rule waitForStreamToStop_absent) (use up in simp_all)
  have clear2: "clearStreamState appId ?w2 = (Inr (), ?w2)"
    using up by (simp add: clearStreamState_up)
  let ?f = "forceCleanupStream appId w"
  have fup: "\<not> storeDown ?f" using up by (simp add: forceCleanupStream_cases)
  have fkey: "redisKeys ?f (streamStateKey appId) = None"
    using up by (simp add: forceCleanupStream_cases)
  have clearf: "clearStreamState appId ?f = (Inr (), ?f)"
  proof -
    have "(redisKeys ?f)(streamStateKey appId := None) = redisKeys ?f"
      using fkey by (simp add: fun_upd_idem_iff)
    then show ?thesis using fup by (simp add: clearStreamState_up)
  qed
  have healthy: "ensureSingleStream appId w = initStreamHealth appId ?w2" if "isStreamHealthy appId w"
    using that r stop wait clear2
    by (simp add: ensureSingleStream_def ensureSingleStream_try_def andThen_def)
  have stale: "ensureSingleStream appId w = initStreamHealth appId ?f" if "\<not> isStreamHealthy appId w"
    using that r clearf
    by (simp add: ensureSingleStream_def ensureSingleStream_try_def andThen_def)
  show "ensureSingleStream appId w =
           (if isStreamHealthy appId w
            then initStreamHealth appId
                   (snd (clearStreamState appId
                      (snd (waitForStreamToStop appId 60 (snd (stopStream appId w))))))
            else initStreamHealth appId (forceCleanupStream appId w))"
    using healthy stale stop wait clear2 by simp
  show "ensureSingleStream appId w =
           w\<lparr>published := published w @ [(eventsChannel appId, abortMessage)],
             redisKeys := (redisKeys w)(streamStateKey appId := None),
             streamHealth := (streamHealth w)
               (appId \<mapsto> \<lparr>lastActivity = clock w, startTime = clock w, messageCount = 0\<rparr>)\<rparr>"
    if "isStreamHealthy appId w"
    using healthy[OF that] by (simp add: initStreamHealth_def)
qed

text \<open>Cleaning up other sessions leaves a session's token and health record alone.\<close>

lemma forceCleanupStream_spares:
  assumes "a \<noteq> appId"
  shows "storeDown (forceCleanupStream a w) = storeDown w"
    and "clock (forceCleanupStream a w) = clock w"
    and "sleeps (forceCleanupStream a w) = sleeps w"
    and "published (forceCleanupStream a w) = published w"
    and "redisKeys (forceCleanupStream a w) (streamStateKey appId)
           = redisKeys w (streamStateKey appId)"
    and "streamHealth (forceCleanupStream a w) appId = streamHealth w appId"
  using assms by (simp_all add: forceCleanupStream_cases)

lemma cleanups_spare:
  "appId \<notin> set xs \<Longrightarrow>
   storeDown (foldl (\<lambda>w' a. forceCleanupStream a w') w xs) = storeDown w
   \<and> clock (foldl (\<lambda>w' a. forceCleanupStream a w') w xs) = clock w
   \<and> sleeps (foldl (\<lambda>w' a. forceCleanupStream a w') w xs) = sleeps w
   \<and> published (foldl (\<lambda>w' a. forceCleanupStream a w') w xs) = published w
   \<and> redisKeys (foldl (\<lambda>w' a. forceCleanupStream a w') w xs) (streamStateKey appId)
       = redisKeys w (streamStateKey appId)
   \<and> streamHealth (foldl (\<lambda>w' a. forceCleanupStream a w') w xs) appId = streamHealth w appId"
proof (induction xs arbitrary: w)
  case Nil
  then show ?case by simp
next
  case (Cons a xs)
  have "a \<noteq> appId" "appId \<notin> set xs" using Cons.prems by auto
  then show ?case
    using Cons.IH[of "forceCleanupStream a w"] forceCleanupStream_spares[of a appId w]
    by simp
qed

lemma makeRoom_spares:
  assumes "canStartNewStream w \<or> appId \<notin> set (take 2 (activeStreams w))"
  shows "storeDown (makeRoom w) = storeDown w" and "clock (makeRoom w) = clock w"
    and "sleeps (makeRoom w) = sleeps w" and "published (makeRoom w) = published w"
    and "redisKeys (makeRoom w) (streamStateKey appId) = redisKeys w (streamStateKey appId)"
    and "streamHealth (makeRoom w) appId = streamHealth w appId"
  using assms cleanups_spare[of appId "take 2 (activeStreams w)" w]
  by (auto simp: makeRoom_def Let_def)

lemma makeRoom_frees:
  assumes "\<not> storeDown w" and "length (activeStreams w) \<le> MAX_CONCURRENT_STREAMS"
  shows "canStartNewStream (makeRoom w)"
proof (cases "canStartNewStream w")
  case True
  then show ?thesis by (simp add: makeRoom_def)
next
  case False
  then have len: "length (activeStreams w) = 10"
    using assms(2) by (simp add: canStartNewStream_def MAX_CONCURRENT_STREAMS_def)
  then obtain oldest second others where act: "activeStreams w = oldest # second # others"
    by (cases "activeStreams w"; cases "tl (activeStreams w)") auto
  have up1: "\<not> storeDown (forceCleanupStream oldest w)"
    using assms(1) by (simp add: forceCleanupStream_cases)
  have "length (activeStreams (makeRoom w))
          \<le> length (activeStreams (forceCleanupStream oldest w))"
    unfolding makeRoom_full[OF False act] by (rule length_forceCleanupStream)
  also have "\<dots> = length (removeAll oldest (second # others))"
    using assms(1) act by (simp add: forceCleanupStream_cases)
  also have "\<dots> \<le> length (second # others)" by (rule length_removeAll_less_eq)
  also have "\<dots> = 9" using len act by simp
  finally show ?thesis by (simp add: canStartNewStream_def MAX_CONCURRENT_STREAMS_def)
qed

lemma isStreamHealthy_iff:
  "isStreamHealthy appId w \<longleftrightarrow>
     (\<exists>h. streamHealth w appId = Some h
          \<and> clock w - lastActivity h < 5 * 60 * 1000 \<and> clock w - startTime h < 10 * 60 * 1000)"
  by (simp add: isStreamHealthy_def STREAM_TIMEOUT_def Let_def split: option.splits)

lemma takeover_aux:
  assumes running: "fst (isStreamRunning appId w) = Inr True"
      and bounded: "length (activeStreams w) \<le> MAX_CONCURRENT_STREAMS"
      and spared: "canStartNewStream w \<or> appId \<notin> set (take 2 (activeStreams w))"
  defines "w1 \<equiv> snd (reserveStreamSlot appId (makeRoom w))"
  shows "sendMessageWithStreaming c appId msg w
           = streamWithFallback c appId msg (ensureSingleStream appId w1)"
    and "isStreamHealthy appId w \<Longrightarrow>
           ensureSingleStream appId w1
             = initStreamHealth appId
                 (snd (clearStreamState appId
                    (snd (waitForStreamToStop appId 60 (snd (stopStream appId w1))))))
           \<and> waitForStreamToStop appId 60 (snd (stopStream appId w1))
               = (Inr True, snd (stopStream appId w1))
           \<and> published (ensureSingleStream appId w1)
               = published w @ [(eventsChannel appId, abortMessage)]
           \<and> redisKeys (ensureSingleStream appId w1) (streamStateKey appId) = None
           \<and> sleeps (ensureSingleStream appId w1) = sleeps w"
    and "\<not> isStreamHealthy appId w \<Longrightarrow>
           ensureSingleStream appId w1 = initStreamHealth appId (forceCleanupStream appId w1)
           \<and> published (ensureSingleStream appId w1) = published w
           \<and> redisKeys (ensureSingleStream appId w1) (streamStateKey appId) = None
           \<and> sleeps (ensureSingleStream appId w1) = sleeps w"
proof -
  have up: "\<not> storeDown w" using running by (simp add: isStreamRunning_True)
  note sp = makeRoom_spares[OF spared]
  have can: "canStartNewStream (makeRoom w)" using up bounded by (rule makeRoom_frees)
  have w1: "w1 = (makeRoom w)\<lparr>activeStreams :=
               (if appId \<in> set (activeStreams (makeRoom w)) then activeStreams (makeRoom w)
                else activeStreams (makeRoom w) @ [appId])\<rparr>"
    using can by (simp add: w1_def reserveStreamSlot_def)
  have res: "reserveStreamSlot appId (makeRoom w) = (True, w1)"
    using can by (simp add: w1_def reserveStreamSlot_def)
  show "sendMessageWithStreaming c appId msg w
           = streamWithFallback c appId msg (ensureSingleStream appId w1)"
    using res by (simp add: sendMessageWithStreaming_def streamPromise_def admit_def)
  have f1: "clock w1 = clock w" "storeDown w1 = storeDown w"
      "redisKeys w1 = redisKeys (makeRoom w)" "streamHealth w1 = streamHealth (makeRoom w)"
    using sp by (simp_all add: w1)
  have up1: "\<not> storeDown w1" using up f1 by simp
  have run1: "fst (isStreamRunning appId w1) = Inr True"
    using running sp(5) unfolding isStreamRunning_True f1 by simp
  have h1: "isStreamHealthy appId w1 = isStreamHealthy appId w"
    using sp(6) unfolding isStreamHealthy_iff f1 by simp
  have frame: "published w1 = published w" "sleeps w1 = sleeps w"
    using sp by (simp_all add: w1)
  note e = ensureSingleStream_running[OF up1 run1]
  show "ensureSingleStream appId w1
             = initStreamHealth appId
                 (snd (clearStreamState appId
                    (snd (waitForStreamToStop appId 60 (snd (stopStream appId w1))))))
           \<and> waitForStreamToStop appId 60 (snd (stopStream appId w1))
               = (Inr True, snd (stopStream appId w1))
           \<and> published (ensureSingleStream appId w1)
               = published w @ [(eventsChannel appId, abortMessage)]
           \<and> redisKeys (ensureSingleStream appId w1) (streamStateKey appId) = None
           \<and> sleeps (ensureSingleStream appId w1) = sleeps w"
    if "isStreamHealthy appId w"
  proof -
    have h: "isStreamHealthy appId w1" using that h1 by simp
    have A: "ensureSingleStream appId w1
             = initStreamHealth appId
                 (snd (clearStreamState appId
                    (snd (waitForStreamToStop appId 60 (snd (stopStream appId w1))))))"
      using e(1) h by simp
    have B: "published (ensureSingleStream appId w1)
               = published w @ [(eventsChannel appId, abortMessage)]"
        "redisKeys (ensureSingleStream appId w1) (streamStateKey appId) = None"
        "sleeps (ensureSingleStream appId w1) = sleeps w"
      unfolding e(2)[OF h] using frame by simp_all
    have C: "waitForStreamToStop appId 60 (snd (stopStream appId w1))
               = (Inr True, snd (stopStream appId w1))"
      unfolding stopStream_up[OF up1]
      by (rule waitForStreamToStop_absent) (use up1 in simp_all)
    show ?thesis using A B C by blast
  qed
  show "ensureSingleStream appId w1 = initStreamHealth appId (forceCleanupStream appId w1)
           \<and> published (ensureSingleStream appId w1) = published w
           \<and> redisKeys (ensureSingleStream appId w1) (streamStateKey appId) = None
           \<and> sleeps (ensureSingleStream appId w1) = sleeps w"
    if "\<not> isStreamHealthy appId w"
  proof -
    have h: "\<not> isStreamHealthy appId w1" using that h1 by simp
    have A: "ensureSingleStream appId w1 = initStreamHealth appId (forceCleanupStream appId w1)"
      using e(1) h by simp
    have B: "published (ensureSingleStream appId w1) = published w"
        "redisKeys (ensureSingleStream appId w1) (streamStateKey appId) = None"
        "sleeps (ensureSingleStream appId w1) = sleeps w"
      unfolding A using frame up1 by (simp_all add: initStreamHealth_def forceCleanupStream_cases)
    show ?thesis using A B by blast
  qed
qed

lemma sleep_funpow:
  "(sleep 1000 ^^ k) w
     = w\<lparr>clock := clock w + 1000 * int k, sleeps := sleeps w @ replicate k 1000\<rparr>"
proof (induction k)
  case 0
  show ?case by simp
next
  case (Suc k)
  show ?case
    unfolding funpow.simps o_apply Suc
    by (simp add: sleep_def replicate_append_same algebra_simps)
qed

text \<open>
  Claim C2, as the code has it.  Take a session whose token reads \<open>running\<close> when
  \<open>sendMessageWithStreaming\<close> begins and which the relief of a full pool does not
  force-clean first (the pool is below capacity, or the session is not one of the two
  oldest).  The stream is then started in the state that \<open>ensureSingleStream\<close> leaves
  after the reservation.  If the health record shows the last activity less than 5
  minutes ago and the start less than 10 minutes ago, the prior stream is stopped (abort
  signal published, token deleted) and \<open>waitForStreamToStop\<close> is called; as the stop has
  just deleted the token, its first poll finds none: it returns \<open>True\<close> at once and no
  time is slept.  Otherwise, also when there is no health record, the session is
  force-cleaned, with no abort signal and no waiting.  The wait itself, on any state,
  polls the token at most 60 times: it sleeps one second after each poll that finds a
  token, returns \<open>True\<close> at the first poll that finds none, and returns \<open>False\<close> after 60
  polls that found one.
\<close>

theorem takeover_reconciliation:
  assumes "fst (isStreamRunning appId w) = Inr True"
      and "length (activeStreams w) \<le> MAX_CONCURRENT_STREAMS"
      and "canStartNewStream w \<or> appId \<notin> set (take 2 (activeStreams w))"
  shows "sendMessageWithStreaming c appId msg w
           = streamWithFallback c appId msg
               (ensureSingleStream appId (snd (reserveStreamSlot appId (makeRoom w))))
       \<and> (isStreamHealthy appId w \<longleftrightarrow>
            (\<exists>h. streamHealth w appId = Some h
                 \<and> clock w - lastActivity h < 5 * 60 * 1000
                 \<and> clock w - startTime h < 10 * 60 * 1000))
       \<and> (isStreamHealthy appId w \<longrightarrow>
            ensureSingleStream appId (snd (reserveStreamSlot appId (makeRoom w)))
              = initStreamHealth appId
                  (snd (clearStreamState appId
                     (snd (waitForStreamToStop appId 60
                        (snd (stopStream appId (snd (reserveStreamSlot appId (makeRoom w)))))))))
            \<and> waitForStreamToStop appId 60
                (snd (stopStream appId (snd (reserveStreamSlot appId (makeRoom w)))))
                = (Inr True, snd (stopStream appId (snd (reserveStreamSlot appId (makeRoom w)))))
            \<and> published (ensureSingleStream appId (snd (reserveStreamSlot appId (makeRoom w))))
                = published w @ [(eventsChannel appId, abortMessage)]
            \<and> sleeps (ensureSingleStream appId (snd (reserveStreamSlot appId (makeRoom w))))
                = sleeps w
            \<and> redisKeys (ensureSingleStream appId (snd (reserveStreamSlot appId (makeRoom w))))
                  (streamStateKey appId) = None)
       \<and> (\<forall>w'. \<exists>k\<le>60.
              snd (waitForStreamToStop appId 60 w') = (sleep 1000 ^^ k) w'
            \<and> (sleep 1000 ^^ k) w'
                = w'\<lparr>clock := clock w' + 1000 * int k, sleeps := sleeps w' @ replicate k 1000\<rparr>
            \<and> (\<forall>j<k. \<exists>v. v \<noteq> []
                   \<and> fst (getStreamState appId ((sleep 1000 ^^ j) w')) = Inr (Some v))
            \<and> (if k = 60
               then fst (waitForStreamToStop appId 60 w') = Inr False
               else (fst (waitForStreamToStop appId 60 w') = Inr True
                       \<and> fst (getStreamState appId ((sleep 1000 ^^ k) w'))
                           \<in> {Inr None, Inr (Some [])})
                    \<or> (fst (waitForStreamToStop appId 60 w') = Inl storeError \<and> storeDown w')))
       \<and> (\<not> isStreamHealthy appId w \<longrightarrow>
            ensureSingleStream appId (snd (reserveStreamSlot appId (makeRoom w)))
              = initStreamHealth appId
                  (forceCleanupStream appId (snd (reserveStreamSlot appId (makeRoom w))))
            \<and> published (ensureSingleStream appId (snd (reserveStreamSlot appId (makeRoom w))))
                = published w
            \<and> sleeps (ensureSingleStream appId (snd (reserveStreamSlot appId (makeRoom w))))
                = sleeps w
            \<and> redisKeys (ensureSingleStream appId (snd (reserveStreamSlot appId (makeRoom w))))
                  (streamStateKey appId) = None)"
proof -
  have polls: "\<exists>k\<le>60.
              snd (waitForStreamToStop appId 60 w') = (sleep 1000 ^^ k) w'
            \<and> (sleep 1000 ^^ k) w'
                = w'\<lparr>clock := clock w' + 1000 * int k, sleeps := sleeps w' @ replicate k 1000\<rparr>
            \<and> (\<forall>j<k. \<exists>v. v \<noteq> []
                   \<and> fst (getStreamState appId ((sleep 1000 ^^ j) w')) = Inr (Some v))
            \<and> (if k = 60
               then fst (waitForStreamToStop appId 60 w') = Inr False
               else (fst (waitForStreamToStop appId 60 w') = Inr True
                       \<and> fst (getStreamState appId ((sleep 1000 ^^ k) w'))
                           \<in> {Inr None, Inr (Some [])})
                    \<or> (fst (waitForStreamToStop appId 60 w') = Inl storeError \<and> storeDown w'))"
    for w'
    using waitForStreamToStop_polls[of appId w'] sleep_funpow[of _ w'] by metis
  show ?thesis
    using takeover_aux(1)[OF assms, where c = c and msg = msg]
      takeover_aux(2)[OF assms] takeover_aux(3)[OF assms] isStreamHealthy_iff[of appId w]
      polls
    by blast
qed

lemma twoStreams_facts:
  "fst (isStreamRunning ''app-2'' twoStreams) = Inr True"
  "fst (isStreamRunning ''app-3'' twoStreams) = Inr True"
  "length (activeStreams twoStreams) \<le> MAX_CONCURRENT_STREAMS"
  "canStartNewStream twoStreams"
  "isStreamHealthy ''app-2'' twoStreams"
  "\<not> isStreamHealthy ''app-3'' twoStreams"
  "published twoStreams = []" "sleeps twoStreams = []"
  by (simp_all add: twoStreams_def initialWorld_def isStreamRunning_True streamStateKey_def
      canStartNewStream_def MAX_CONCURRENT_STREAMS_def isStreamHealthy_iff)

lemma twoStreams_wait:
  "waitForStreamToStop ''app-2'' 60 twoStreams
     = (Inr True, twoStreams\<lparr>clock := 1005000, sleeps := [1000, 1000, 1000, 1000, 1000]\<rparr>)"
  "waitForStreamToStop ''app-3'' 60 twoStreams
     = (Inr False, twoStreams\<lparr>clock := 1060000, sleeps := replicate 60 1000\<rparr>)"
  by (simp_all add: waitForStreamToStop_def redisGet_def twoStreams_def initialWorld_def sleep_def
      streamStateKey_def numeral_eq_Suc)

text \<open>
  \<open>app-2\<close> is healthy and is stopped gracefully, with no time slept; \<open>app-3\<close> has been
  silent for six minutes and is force-cleaned.  A wait for \<open>app-2\<close> while its token is
  still there polls until the token expires, five seconds later; a wait for \<open>app-3\<close>,
  whose token does not expire, gives up after 60 polls.
\<close>

theorem takeover_reconciliation_witness:
  "isStreamHealthy ''app-2'' twoStreams
   \<and> published (ensureSingleStream ''app-2''
                  (snd (reserveStreamSlot ''app-2'' (makeRoom twoStreams))))
       = [(eventsChannel ''app-2'', abortMessage)]
   \<and> sleeps (ensureSingleStream ''app-2''
                (snd (reserveStreamSlot ''app-2'' (makeRoom twoStreams)))) = []
   \<and> redisKeys (ensureSingleStream ''app-2''
                  (snd (reserveStreamSlot ''app-2'' (makeRoom twoStreams))))
         (streamStateKey ''app-2'') = None
   \<and> \<not> isStreamHealthy ''app-3'' twoStreams
   \<and> published (ensureSingleStream ''app-3''
                  (snd (reserveStreamSlot ''app-3'' (makeRoom twoStreams)))) = []
   \<and> sleeps (ensureSingleStream ''app-3''
                (snd (reserveStreamSlot ''app-3'' (makeRoom twoStreams)))) = []
   \<and> redisKeys (ensureSingleStream ''app-3''
                  (snd (reserveStreamSlot ''app-3'' (makeRoom twoStreams))))
         (streamStateKey ''app-3'') = None
   \<and> waitForStreamToStop ''app-2'' 60 twoStreams
       = (Inr True, twoStreams\<lparr>clock := 1005000, sleeps := [1000, 1000, 1000, 1000, 1000]\<rparr>)
   \<and> waitForStreamToStop ''app-3'' 60 twoStreams
       = (Inr False, twoStreams\<lparr>clock := 1060000, sleeps := replicate 60 1000\<rparr>)"
proof -
  let ?E2 = "ensureSingleStream ''app-2'' (snd (reserveStreamSlot ''app-2'' (makeRoom twoStreams)))"
  let ?E3 = "ensureSingleStream ''app-3'' (snd (reserveStreamSlot ''app-3'' (makeRoom twoStreams)))"
  note t2 = takeover_reconciliation
    [OF twoStreams_facts(1) twoStreams_facts(3) disjI1[OF twoStreams_facts(4)],
     where c = healthyCollaborators and msg = "''hello''"]
  note t3 = takeover_reconciliation
    [OF twoStreams_facts(2) twoStreams_facts(3) disjI1[OF twoStreams_facts(4)],
     where c = healthyCollaborators and msg = "''hello''"]
  have p2: "published ?E2 = published twoStreams @ [(eventsChannel ''app-2'', abortMessage)]"
      "sleeps ?E2 = sleeps twoStreams"
      "redisKeys ?E2 (streamStateKey ''app-2'') = None"
    using t2 twoStreams_facts(5) by blast+
  have p3: "published ?E3 = published twoStreams" "sleeps ?E3 = sleeps twoStreams"
      "redisKeys ?E3 (streamStateKey ''app-3'') = None"
    using t3 twoStreams_facts(6) by blast+
  show ?thesis
    using p2 p3 twoStreams_facts(5-8) twoStreams_wait by simp
qed

lemma fullWorld_relieved:
  "makeRoom fullWorld =
     fullWorld\<lparr>redisKeys := Map.empty, streamHealth := Map.empty,
               activeStreams := [''app-2'', ''app-3'', ''app-4'', ''app-5'', ''app-6'', ''app-7'',
                                 ''app-8'', ''app-9'']\<rparr>"
  by (simp add: makeRoom_def Let_def canStartNewStream_def MAX_CONCURRENT_STREAMS_def
      forceCleanupStream_cases fullWorld_def initialWorld_def)

text \<open>
  Claim C2 as stated fails.  With ten active sessions, a new message for the oldest one,
  which is running and healthy, is answered with a new stream, but no abort signal was
  ever published: the relief of the full pool force-cleaned the session before the
  reconciliation could see it running.
\<close>

theorem healthy_session_force_cleaned_by_relief:
  "fst (isStreamRunning ''app-0'' fullWorld) = Inr True
   \<and> isStreamHealthy ''app-0'' fullWorld
   \<and> fst (sendMessageWithStreaming healthyCollaborators ''app-0'' ''hello'' fullWorld)
       = Inr (ResumableResponse ''app-0'')
   \<and> published (snd (sendMessageWithStreaming healthyCollaborators ''app-0'' ''hello'' fullWorld))
       = []"
proof -
  have a: "fst (isStreamRunning ''app-0'' fullWorld) = Inr True"
    by (simp add: fullWorld_def initialWorld_def isStreamRunning_True)
  have b: "isStreamHealthy ''app-0'' fullWorld"
    by (simp add: fullWorld_def initialWorld_def isStreamHealthy_iff)
  have c: "sendMessageWithStreaming healthyCollaborators ''app-0'' ''hello'' fullWorld
           = admit healthyCollaborators ''app-0'' ''hello'' (makeRoom fullWorld)"
    by (simp add: sendMessageWithStreaming_def streamPromise_def)
  have d: "fst (admit healthyCollaborators ''app-0'' ''hello'' (makeRoom fullWorld))
             = Inr (ResumableResponse ''app-0'')
           \<and> published (snd (admit healthyCollaborators ''app-0'' ''hello'' (makeRoom fullWorld)))
             = []"
    unfolding fullWorld_relieved
    by (simp add: admit_def reserveStreamSlot_def canStartNewStream_def MAX_CONCURRENT_STREAMS_def
        fullWorld_def initialWorld_def ensureSingleStream_def ensureSingleStream_try_def
        andThen_def isStreamRunning_def redisGet_def clearStreamState_def redisDel_def
        initStreamHealth_def streamWithFallback_def startStream_def Let_def
        setupAbortCallback_def redisSubscribe_def healthyCollaborators_def setStream_def
        redisSet_def updateKeepAlive_def)
  show ?thesis using a b c d by simp
qed

subsection \<open>Teardown after a failure of the producer\<close>

lemma onError_up:
  "\<not> storeDown w \<Longrightarrow>
   onError appId (l, w) =
     (Inr (), l\<lparr>fallbackToMemory := True\<rparr>,
      w\<lparr>redisKeys := (redisKeys w)(streamStateKey appId := None),
        streamHealth := (streamHealth w)(appId := None),
        activeStreams := removeAll appId (activeStreams w)\<rparr>)"
  by (simp add: onError_def clearStreamState_up releaseStreamSlot_def deleteStreamHealth_def)

lemma saveUnsaved_frame:
  "streamHealth (snd (saveUnsaved c appId always w)) = streamHealth w"
  "activeStreams (snd (saveUnsaved c appId always w)) = activeStreams w"
  "clock (snd (saveUnsaved c appId always w)) = clock w"
  by (simp_all add: saveUnsaved_def split: sum.splits)

lemma fallbackToMemoryPath_cases:
  "fallbackToMemoryPath c appId w =
     (case fst (saveUnsaved c appId False w) of
        Inl e \<Rightarrow> Inl (Error ''Failed to process message and fallback failed'')
      | Inr _ \<Rightarrow> Inr MemoryResponse,
      snd (saveUnsaved c appId False w))"
  by (cases "saveUnsaved c appId False w"; cases "fst (saveUnsaved c appId False w)")
     (simp_all add: fallbackToMemoryPath_def)

lemma startStream_throws:
  assumes "sendMessage_result c = Inl e"
  shows "fst (startStream c appId msg w) = Inl e"
  using assms
  by (cases "deliver c appId (sendMessage_hooks c)
               (\<lparr>shouldAbort = False, fallbackToMemory = False,
                  lastKeepAlive = clock (setupAbortCallback appId w), aborted = None\<rparr>,
                (setupAbortCallback appId w)
                  \<lparr>producerCalls := producerCalls (setupAbortCallback appId w) @ [appId]\<rparr>)")
     (simp add: startStream_def Let_def)

lemma streamWithFallback_throws:
  assumes "sendMessage_result c = Inl e"
  shows "streamWithFallback c appId msg w =
           fallbackToMemoryPath c appId
             (releaseStreamSlot appId
                (deleteStreamHealth appId (snd (snd (startStream c appId msg w)))))"
    and "streamHealth (snd (streamWithFallback c appId msg w)) appId = None"
    and "appId \<notin> set (activeStreams (snd (streamWithFallback c appId msg w)))"
    and "fst (streamWithFallback c appId msg w) = Inr MemoryResponse
         \<or> fst (streamWithFallback c appId msg w)
              = Inl (Error ''Failed to process message and fallback failed'')"
proof -
  obtain r l w' where s: "startStream c appId msg w = (r, l, w')"
    by (cases "startStream c appId msg w") auto
  then have r: "r = Inl e" using startStream_throws[OF assms, of appId msg w] by simp
  show eq: "streamWithFallback c appId msg w =
           fallbackToMemoryPath c appId
             (releaseStreamSlot appId
                (deleteStreamHealth appId (snd (snd (startStream c appId msg w)))))"
    using s r by (simp add: streamWithFallback_def)
  show "streamHealth (snd (streamWithFallback c appId msg w)) appId = None"
    unfolding eq fallbackToMemoryPath_cases
    by (simp add: saveUnsaved_frame releaseStreamSlot_def deleteStreamHealth_def)
  show "appId \<notin> set (activeStreams (snd (streamWithFallback c appId msg w)))"
    unfolding eq fallbackToMemoryPath_cases
    by (simp add: saveUnsaved_frame)
  show "fst (streamWithFallback c appId msg w) = Inr MemoryResponse
         \<or> fst (streamWithFallback c appId msg w)
              = Inl (Error ''Failed to process message and fallback failed'')"
    unfolding eq fallbackToMemoryPath_cases
    by (simp split: sum.splits)
qed

lemma clock_response [simp]: "clock (snd (response s w)) = clock w"
  by (cases s) (simp_all add: redisSubscribe_def)

lemma tryStreaming_records:
  "fst (snd (tryStreaming c appId msg started (m, cbs, w))) =
     (case fst (tryStreaming c appId msg started (m, cbs, w)) of
        Inl e \<Rightarrow> m
      | Inr r \<Rightarrow>
          recordSuccess
            (real_of_int (clock (snd (snd (snd (tryStreaming c appId msg started (m, cbs, w)))))
                          - started)) m)"
proof -
  obtain r cbs' w' where res:
    "withResilience (sendMessageWithStreaming c appId msg) ''streaming''
       streamingRetryOptions streamingBreakerOptions (cbs, w) = (r, cbs', w')"
    by (cases "withResilience (sendMessageWithStreaming c appId msg) ''streaming''
                 streamingRetryOptions streamingBreakerOptions (cbs, w)") auto
  show ?thesis
  proof (cases r)
    case (Inr s)
    obtain x w'' where x: "response s w' = (x, w'')" by (cases "response s w'")
    then have "clock w'' = clock w'" using clock_response[of s w'] by simp
    then show ?thesis using res Inr x by (simp add: tryStreaming_def)
  next
    case (Inl e)
    obtain f w'' where f: "handleStreamingFallback c appId w' = (f, w'')"
      by (cases "handleStreamingFallback c appId w'")
    then show ?thesis using res Inl by (cases f) (simp_all add: tryStreaming_def)
  qed
qed

text \<open>
  Claim C3, as the code has it, in three parts.  (1) When the producer reports an error
  through \<open>onError\<close> and the store can be reached, the token is cleared, the health record
  deleted, the slot released and the fallback flag set.  (2) When the call of the producer
  throws, the health record is deleted, the slot released and the fallback path taken: the
  call resolves with the synthetic answer, or rejects if the fallback fails too.  (3) The
  stream manager does not touch the metrics, and \<open>processChatRequest\<close> registers a success
  whenever streaming or the fallback produced a response, and nothing otherwise at this
  stage.
\<close>

theorem producer_failure_teardown:
  "(\<not> storeDown w \<longrightarrow>
      onError appId (l, w) =
        (Inr (), l\<lparr>fallbackToMemory := True\<rparr>,
         w\<lparr>redisKeys := (redisKeys w)(streamStateKey appId := None),
           streamHealth := (streamHealth w)(appId := None),
           activeStreams := removeAll appId (activeStreams w)\<rparr>))
   \<and> (sendMessage_result c = Inl e \<longrightarrow>
        streamWithFallback c appId msg w =
          fallbackToMemoryPath c appId
            (releaseStreamSlot appId
               (deleteStreamHealth appId (snd (snd (startStream c appId msg w)))))
        \<and> streamHealth (snd (streamWithFallback c appId msg w)) appId = None
        \<and> appId \<notin> set (activeStreams (snd (streamWithFallback c appId msg w)))
        \<and> (fst (streamWithFallback c appId msg w) = Inr MemoryResponse
           \<or> fst (streamWithFallback c appId msg w)
                = Inl (Error ''Failed to process message and fallback failed'')))
   \<and> fst (snd (tryStreaming c appId msg started (m, cbs, w))) =
       (case fst (tryStreaming c appId msg started (m, cbs, w)) of
          Inl error \<Rightarrow> m
        | Inr r \<Rightarrow>
            recordSuccess
              (real_of_int (clock (snd (snd (snd (tryStreaming c appId msg started (m, cbs, w)))))
                            - started)) m)"
  using onError_up[of w appId l] streamWithFallback_throws[of c e appId msg w]
    tryStreaming_records[of c appId msg started m cbs w]
  by blast

lemma failingProducer_stream:
  "fst (sendMessageWithStreaming failingProducer ''app-1'' ''hello'' initialWorld)
     = Inr MemoryResponse"
  "clock (snd (sendMessageWithStreaming failingProducer ''app-1'' ''hello'' initialWorld)) = 0"
  "sleeps (snd (sendMessageWithStreaming failingProducer ''app-1'' ''hello'' initialWorld)) = []"
  "producerCalls (snd (sendMessageWithStreaming failingProducer ''app-1'' ''hello'' initialWorld))
     = [''app-1'']"
  "activeStreams (snd (sendMessageWithStreaming failingProducer ''app-1'' ''hello'' initialWorld))
     = []"
  "storeDown (snd (sendMessageWithStreaming failingProducer ''app-1'' ''hello'' initialWorld))
     = False"
  by (simp_all add: sendMessageWithStreaming_def streamPromise_def makeRoom_def admit_def
      reserveStreamSlot_def canStartNewStream_def MAX_CONCURRENT_STREAMS_def initialWorld_def
      ensureSingleStream_def ensureSingleStream_try_def andThen_def isStreamRunning_def
      redisGet_def clearStreamState_def redisDel_def initStreamHealth_def
      streamWithFallback_def startStream_def Let_def setupAbortCallback_def redisSubscribe_def
      failingProducer_def healthyCollaborators_def fallbackToMemoryPath_def saveUnsaved_def
      releaseStreamSlot_def deleteStreamHealth_def)

text \<open>
  Claim C3 as stated fails.  A request whose producer throws is answered from the fallback;
  the producer was called, and the metrics show one success and no failure.
\<close>

theorem fallback_is_recorded_as_success:
  "body (fst (processChatRequest failingProducer (Inr (Some [''hello''])) ''app-1''
                (initialMonitoring, Map.empty, initialWorld)))
     = StreamMessageBody ''Message processed and saved to memory''
   \<and> producerCalls (snd (snd (snd (processChatRequest failingProducer (Inr (Some [''hello'']))
                                      ''app-1'' (initialMonitoring, Map.empty, initialWorld)))))
       = [''app-1'']
   \<and> failedRequests (metrics_performance (fst (snd (processChatRequest failingProducer
         (Inr (Some [''hello''])) ''app-1'' (initialMonitoring, Map.empty, initialWorld))))) = 0
   \<and> successfulRequests (metrics_performance (fst (snd (processChatRequest failingProducer
         (Inr (Some [''hello''])) ''app-1'' (initialMonitoring, Map.empty, initialWorld))))) = 1
   \<and> count (metrics_errors (fst (snd (processChatRequest failingProducer
         (Inr (Some [''hello''])) ''app-1'' (initialMonitoring, Map.empty, initialWorld))))) = 0"
proof -
  obtain W where W: "sendMessageWithStreaming failingProducer ''app-1'' ''hello'' initialWorld
                       = (Inr MemoryResponse, W)"
    and cw: "clock W = 0" and pc: "producerCalls W = [''app-1'']"
    using failingProducer_stream
    by (cases "sendMessageWithStreaming failingProducer ''app-1'' ''hello'' initialWorld") auto
  have manage: "manageStreamLifecycle ''app-1'' initialWorld = (Inr (), initialWorld)"
    by (simp add: manageStreamLifecycle_def andThen_def isStreamRunning_def redisGet_def
        initialWorld_def)
  have mcp: "withResilience (\<lambda>rt. (requestDevServer_result failingProducer, rt))
               ''mcp-server-request'' mcpRetryOptions mcpBreakerOptions (Map.empty, initialWorld)
             = (Inr ''https://mcp.example/dev'',
                [''mcp-server-request'' \<mapsto>
                   \<lparr>state = Closed, failureCount = 0, lastFailureTime = 0\<rparr>],
                initialWorld)"
    by (simp add: withRetry_def retryConfig_def mcpRetryOptions_def noRetryOptions_def
        failingProducer_def healthyCollaborators_def getOrCreateCircuitBreaker_def Let_def)
  have retry: "withRetry (sendMessageWithStreaming failingProducer ''app-1'' ''hello'')
                 ''streaming'' streamingRetryOptions initialWorld = (Inr MemoryResponse, W)"
    by (simp add: withRetry_def retryConfig_def streamingRetryOptions_def noRetryOptions_def W)
  have streaming: "tryStreaming failingProducer ''app-1'' ''hello'' 0
               (initialMonitoring,
                [''mcp-server-request'' \<mapsto>
                   \<lparr>state = Closed, failureCount = 0, lastFailureTime = 0\<rparr>],
                initialWorld)
             = (Inr \<lparr>status = 200,
                      headers = [(''content-type'', ''text/event-stream''),
                                 (''cache-control'', ''no-cache''),
                                 (''connection'', ''keep-alive'')],
                      body = StreamMessageBody ''Message processed and saved to memory''\<rparr>,
                recordSuccess 0 initialMonitoring,
                [''mcp-server-request'' \<mapsto>
                   \<lparr>state = Closed, failureCount = 0, lastFailureTime = 0\<rparr>,
                 ''streaming'' \<mapsto> \<lparr>state = Closed, failureCount = 0, lastFailureTime = 0\<rparr>],
                W)"
    by (simp add: tryStreaming_def retry cw getOrCreateCircuitBreaker_def Let_def)
  have whole: "processChatRequest failingProducer (Inr (Some [''hello''])) ''app-1''
                 (initialMonitoring, Map.empty, initialWorld)
             = (\<lparr>status = 200,
                  headers = [(''content-type'', ''text/event-stream''),
                             (''cache-control'', ''no-cache''),
                             (''connection'', ''keep-alive'')],
                  body = StreamMessageBody ''Message processed and saved to memory''\<rparr>,
                recordSuccess 0 initialMonitoring,
                [''mcp-server-request'' \<mapsto>
                   \<lparr>state = Closed, failureCount = 0, lastFailureTime = 0\<rparr>,
                 ''streaming'' \<mapsto> \<lparr>state = Closed, failureCount = 0, lastFailureTime = 0\<rparr>],
                W)"
  proof -
    have c0: "clock initialWorld = 0" by (simp add: initialWorld_def)
    have app: "getApp_result failingProducer = Inr True"
      by (simp add: failingProducer_def healthyCollaborators_def)
    show ?thesis
      by (simp add: processChatRequest_def processChatRequest_try_def c0 app manage mcp streaming
          del: withResilience.simps)
  qed
  have rec: "metrics_performance (recordSuccess 0 initialMonitoring)
               = \<lparr>averageResponseTime = 0, totalRequests = 1, successfulRequests = 1,
                   failedRequests = 0, successRate = 100\<rparr>"
      "metrics_errors (recordSuccess 0 initialMonitoring) = \<lparr>recent = [], count = 0\<rparr>"
    by (simp_all add: recordSuccess_def recordRequestTime_def updateSuccessRate_def
        initialMonitoring_def MAX_REQUEST_TIMES_def Let_def one_of_one no_time)
  show ?thesis unfolding whole using pc rec by simp
qed

text \<open>An error hook for \<open>app-2\<close>, a producer that throws, and the request around it.\<close>

theorem producer_failure_teardown_witness:
  "fst (onError ''app-2'' (freshLocals twoStreams, twoStreams)) = Inr ()
   \<and> fallbackToMemory (fst (snd (onError ''app-2'' (freshLocals twoStreams, twoStreams))))
   \<and> redisKeys (snd (snd (onError ''app-2'' (freshLocals twoStreams, twoStreams))))
         (streamStateKey ''app-2'') = None
   \<and> streamHealth (snd (snd (onError ''app-2'' (freshLocals twoStreams, twoStreams)))) ''app-2''
       = None
   \<and> activeStreams (snd (snd (onError ''app-2'' (freshLocals twoStreams, twoStreams))))
       = [''app-3'']
   \<and> fst (streamWithFallback failingProducer ''app-2'' ''hello'' twoStreams) = Inr MemoryResponse
   \<and> streamHealth (snd (streamWithFallback failingProducer ''app-2'' ''hello'' twoStreams))
         ''app-2'' = None
   \<and> ''app-2'' \<notin> set (activeStreams
                        (snd (streamWithFallback failingProducer ''app-2'' ''hello'' twoStreams)))
   \<and> successfulRequests (metrics_performance (fst (snd (tryStreaming failingProducer ''app-1''
         ''hello'' 0 (initialMonitoring, Map.empty, initialWorld))))) = 1
   \<and> failedRequests (metrics_performance (fst (snd (tryStreaming failingProducer ''app-1''
         ''hello'' 0 (initialMonitoring, Map.empty, initialWorld))))) = 0"
proof -
  note t = producer_failure_teardown
    [where w = twoStreams and appId = "''app-2''" and l = "freshLocals twoStreams"
       and c = failingProducer and e = "Error ''model overloaded''" and msg = "''hello''"]
  have up: "\<not> storeDown twoStreams" by (simp add: twoStreams_def initialWorld_def)
  have throws: "sendMessage_result failingProducer = Inl (Error ''model overloaded'')"
    by (simp add: failingProducer_def)
  have a: "onError ''app-2'' (freshLocals twoStreams, twoStreams) =
        (Inr (), (freshLocals twoStreams)\<lparr>fallbackToMemory := True\<rparr>,
         twoStreams\<lparr>redisKeys := (redisKeys twoStreams)(streamStateKey ''app-2'' := None),
           streamHealth := (streamHealth twoStreams)(''app-2'' := None),
           activeStreams := removeAll ''app-2'' (activeStreams twoStreams)\<rparr>)"
    using t up by blast
  have a': "activeStreams twoStreams = [''app-3'', ''app-2'']"
    by (simp add: twoStreams_def initialWorld_def)
  have b: "streamHealth (snd (streamWithFallback failingProducer ''app-2'' ''hello'' twoStreams))
             ''app-2'' = None"
      "''app-2'' \<notin> set (activeStreams
                        (snd (streamWithFallback failingProducer ''app-2'' ''hello'' twoStreams)))"
    using t throws by blast+
  have saved: "fst (saveUnsaved failingProducer ''app-2'' False w) = Inr ()" for w
    by (simp add: saveUnsaved_def failingProducer_def healthyCollaborators_def)
  have b': "fst (streamWithFallback failingProducer ''app-2'' ''hello'' twoStreams)
              = Inr MemoryResponse"
    unfolding streamWithFallback_throws(1)[OF throws] fallbackToMemoryPath_cases
    by (simp add: saved)
  obtain W where W: "sendMessageWithStreaming failingProducer ''app-1'' ''hello'' initialWorld
                       = (Inr MemoryResponse, W)"
    and cw: "clock W = 0"
    using failingProducer_stream
    by (cases "sendMessageWithStreaming failingProducer ''app-1'' ''hello'' initialWorld") auto
  have retry: "withRetry (sendMessageWithStreaming failingProducer ''app-1'' ''hello'')
                 ''streaming'' streamingRetryOptions initialWorld = (Inr MemoryResponse, W)"
    by (simp add: withRetry_def retryConfig_def streamingRetryOptions_def noRetryOptions_def W)
  have streaming:
    "fst (tryStreaming failingProducer ''app-1'' ''hello'' 0
            (initialMonitoring, Map.empty, initialWorld))
       = Inr \<lparr>status = 200,
               headers = [(''content-type'', ''text/event-stream''),
                          (''cache-control'', ''no-cache''), (''connection'', ''keep-alive'')],
               body = StreamMessageBody ''Message processed and saved to memory''\<rparr>"
    "snd (snd (snd (tryStreaming failingProducer ''app-1'' ''hello'' 0
            (initialMonitoring, Map.empty, initialWorld)))) = W"
    by (simp_all add: tryStreaming_def retry cw getOrCreateCircuitBreaker_def Let_def)
  have c: "fst (snd (tryStreaming failingProducer ''app-1'' ''hello'' 0
                 (initialMonitoring, Map.empty, initialWorld)))
             = recordSuccess 0 initialMonitoring"
    using producer_failure_teardown
      [where c = failingProducer and appId = "''app-1''" and msg = "''hello''" and started = 0
         and m = initialMonitoring and cbs = Map.empty and w = initialWorld]
    unfolding streaming by (simp add: cw)
  have rec: "metrics_performance (recordSuccess 0 initialMonitoring)
               = \<lparr>averageResponseTime = 0, totalRequests = 1, successfulRequests = 1,
                   failedRequests = 0, successRate = 100\<rparr>"
    by (simp add: recordSuccess_def recordRequestTime_def updateSuccessRate_def
        initialMonitoring_def MAX_REQUEST_TIMES_def Let_def one_of_one no_time)
  show ?thesis
    unfolding a c using a' b b' rec by simp
qed

text \<open>
  Claim C9.  For every session and every state, a second \<open>clearStreamState\<close> right after
  the first returns what the first returned and leaves the state the first left, and a
  second \<open>forceCleanupStream\<close> leaves the state the first left: store keys, health map,
  admission set and all the rest.  Whether the store can be reached is part of the state.
\<close>

theorem cleanup_idempotent:
  "clearStreamState appId (snd (clearStreamState appId w)) = clearStreamState appId w
   \<and> forceCleanupStream appId (forceCleanupStream appId w) = forceCleanupStream appId w"
proof (cases "storeDown w")
  case True
  then show ?thesis
    by (simp add: forceCleanupStream_cases clearStreamState_def redisDel_def)
next
  case False
  have "clearStreamState appId (snd (clearStreamState appId w)) = clearStreamState appId w"
    using False by (simp add: clearStreamState_def redisDel_def)
  moreover have "forceCleanupStream appId (forceCleanupStream appId w) = forceCleanupStream appId w"
  proof -
    have up: "\<not> storeDown (forceCleanupStream appId w)"
      using False by (simp add: forceCleanupStream_cases)
    show ?thesis
      unfolding forceCleanupStream_cases[of appId "forceCleanupStream appId w"]
      using up False by (simp add: forceCleanupStream_cases fun_upd_twist)
  qed
  ultimately show ?thesis by blast
qed

text \<open>Cleaning up \<open>app-0\<close> twice among ten active sessions.\<close>

theorem cleanup_idempotent_witness:
  "fst (clearStreamState ''app-0'' (snd (clearStreamState ''app-0'' fullWorld))) = Inr ()
   \<and> redisKeys (snd (clearStreamState ''app-0'' (snd (clearStreamState ''app-0'' fullWorld))))
         (streamStateKey ''app-0'') = None
   \<and> redisKeys (forceCleanupStream ''app-0'' (forceCleanupStream ''app-0'' fullWorld))
         (streamStateKey ''app-0'') = None
   \<and> streamHealth (forceCleanupStream ''app-0'' (forceCleanupStream ''app-0'' fullWorld))
         ''app-0'' = None
   \<and> activeStreams (forceCleanupStream ''app-0'' (forceCleanupStream ''app-0'' fullWorld))
       = [''app-1'', ''app-2'', ''app-3'', ''app-4'', ''app-5'', ''app-6'', ''app-7'', ''app-8'',
          ''app-9'']"
proof -
  have twice: "clearStreamState ''app-0'' (snd (clearStreamState ''app-0'' fullWorld))
                 = clearStreamState ''app-0'' fullWorld"
      "forceCleanupStream ''app-0'' (forceCleanupStream ''app-0'' fullWorld)
         = forceCleanupStream ''app-0'' fullWorld"
    using cleanup_idempotent[of "''app-0''" fullWorld] by blast+
  have up: "\<not> storeDown fullWorld" by (simp add: fullWorld_def initialWorld_def)
  show ?thesis
    unfolding twice
    by (simp add: clearStreamState_up[OF up] forceCleanupStream_cases up)
       (simp add: fullWorld_def initialWorld_def)
qed


end
